(* ===== verification/Prelude.thy ===== *)
theory Prelude
  imports Main "HOL-Library.Word" "HOL-Library.Multiset"
begin

text \<open>
  What the components of tox4j-c share: the machine types of the JNI and C++ code, the
  type of a native computation (state passing, with the ways a C++ call can fail to
  return as values), a weakest-precondition calculus for it, and the decimal printing
  and reading of integers (\<open>std::to_string\<close>, \<open>std::istream >> uintptr_t\<close>).
\<close>

section \<open>Machine types\<close>

type_synonym jboolean = "8 word"
type_synonym jbyte = "8 word"
type_synonym jshort = "16 word"
type_synonym jint = "32 word"
type_synonym jlong = "64 word"

type_synonym uint8 = "8 word"
type_synonym uint16 = "16 word"
type_synonym uint32 = "32 word"
type_synonym uint64 = "64 word"
type_synonym uintptr = "64 word"

named_theorems wp_simps \<open>weakest preconditions of the program combinators\<close>
named_theorems prog_defs \<open>definitions of the elementary programs\<close>

section \<open>Native computations\<close>

text \<open>
  A native function runs in a state and either returns or ends the process:
  \<^item> \<open>Fatal\<close>: \<open>JNIEnv::FatalError\<close> (\<open>tox4j_fatal\<close>, \<open>tox4j_assert\<close>);
  \<^item> \<open>Assertion\<close>: a failing \<open>assert\<close> of \<open><cassert>\<close>;
  \<^item> \<open>UB\<close>: the C++ standard or the JNI specification gives the operation no meaning.
  A Java exception is not a failure: it is the \<open>pending\<close> field of the JNI environment
  and the native function goes on running.
\<close>

datatype failure =
    Fatal string
  | Assertion string
  | UB string

datatype 'a outcome =
    Done 'a
  | Fail failure

type_synonym ('s, 'a) prog = "'s \<Rightarrow> ('a \<times> 's) outcome"

definition ret :: "'a \<Rightarrow> ('s, 'a) prog" where
  "ret a s = Done (a, s)"

definition fail :: "failure \<Rightarrow> ('s, 'a) prog" where
  "fail e s = Fail e"

definition andThen :: "('s, 'a) prog \<Rightarrow> ('a \<Rightarrow> ('s, 'b) prog) \<Rightarrow> ('s, 'b) prog" where
  "andThen m f s = (case m s of Done (a, s') \<Rightarrow> f a s' | Fail e \<Rightarrow> Fail e)"

definition reads :: "('s \<Rightarrow> 'a) \<Rightarrow> ('s, 'a) prog" where
  "reads f s = Done (f s, s)"

definition modifies :: "('s \<Rightarrow> 's) \<Rightarrow> ('s, unit) prog" where
  "modifies f s = Done ((), f s)"

definition cassert :: "string \<Rightarrow> bool \<Rightarrow> ('s, unit) prog" where
  "cassert what c = (if c then ret () else fail (Assertion what))"

primrec sequence :: "('s, unit) prog list \<Rightarrow> ('s, unit) prog" where
  "sequence [] = ret ()"
| "sequence (m # ms) = andThen m (\<lambda>_. sequence ms)"

lemmas [prog_defs] = ret_def fail_def andThen_def reads_def modifies_def cassert_def

lemma andThen_ret [simp]: "andThen (ret a) f = f a"
  by (rule ext) (simp add: andThen_def ret_def)

lemma andThen_fail [simp]: "andThen (fail e) f = fail e"
  by (rule ext) (simp add: andThen_def fail_def)

lemma ret_andThen [simp]: "andThen m ret = m"
  by (rule ext) (simp add: andThen_def ret_def split: outcome.splits)

lemma andThen_assoc:
  "andThen (andThen m f) g = andThen m (\<lambda>a. andThen (f a) g)"
  by (rule ext) (auto simp: andThen_def split: outcome.splits)

lemma ret_apply [simp]: "ret a s = Done (a, s)"
  by (simp add: ret_def)

lemma ret_inject [simp]: "ret a = ret b \<longleftrightarrow> a = b"
  by (metis outcome.inject(1) prod.inject ret_apply)

lemma fail_apply [simp]: "fail e s = Fail e"
  by (simp add: fail_def)

lemma reads_apply [simp]: "reads f s = Done (f s, s)"
  by (simp add: reads_def)

lemma modifies_apply [simp]: "modifies f s = Done ((), f s)"
  by (simp add: modifies_def)

lemma andThen_Done: "m s = Done (a, s') \<Longrightarrow> andThen m f s = f a s'"
  by (simp add: andThen_def)

lemma andThen_Fail: "m s = Fail e \<Longrightarrow> andThen m f s = Fail e"
  by (simp add: andThen_def)

lemma andThen_Done_iff:
  "andThen m f s = Done (b, t) \<longleftrightarrow> (\<exists>a s'. m s = Done (a, s') \<and> f a s' = Done (b, t))"
  by (auto simp: andThen_def split: outcome.splits)

lemma andThen_reads [simp]: "andThen (reads f) g s = g (f s) s"
  by (simp add: andThen_def)

lemma andThen_modifies [simp]: "andThen (modifies f) g s = g () (f s)"
  by (simp add: andThen_def)

lemma cassert_True [simp]: "cassert w True = ret ()"
  by (simp add: cassert_def)

lemma cassert_False [simp]: "cassert w False = fail (Assertion w)"
  by (simp add: cassert_def)

subsection \<open>Total correctness\<close>

text \<open>
  \<open>wp m Q s\<close>: from \<open>s\<close> the computation returns (it neither aborts nor has undefined
  behaviour) and its result and final state satisfy \<open>Q\<close>.
\<close>

definition wp :: "('s, 'a) prog \<Rightarrow> ('a \<Rightarrow> 's \<Rightarrow> bool) \<Rightarrow> 's \<Rightarrow> bool" where
  "wp m Q s \<longleftrightarrow> (case m s of Done (a, s') \<Rightarrow> Q a s' | Fail _ \<Rightarrow> False)"

lemma wp_iff: "wp m Q s \<longleftrightarrow> (\<exists>a s'. m s = Done (a, s') \<and> Q a s')"
  by (auto simp: wp_def split: outcome.splits)

lemma wp_ret [wp_simps]: "wp (ret a) Q s \<longleftrightarrow> Q a s"
  by (simp add: wp_def)

lemma wp_fail [wp_simps]: "wp (fail e) Q s \<longleftrightarrow> False"
  by (simp add: wp_def)

lemma wp_andThen [wp_simps]: "wp (andThen m f) Q s \<longleftrightarrow> wp m (\<lambda>a. wp (f a) Q) s"
  by (auto simp: wp_def andThen_def split: outcome.splits)

lemma wp_reads [wp_simps]: "wp (reads f) Q s \<longleftrightarrow> Q (f s) s"
  by (simp add: wp_def)

lemma wp_modifies [wp_simps]: "wp (modifies f) Q s \<longleftrightarrow> Q () (f s)"
  by (simp add: wp_def)

lemma wp_cassert [wp_simps]: "wp (cassert w c) Q s \<longleftrightarrow> c \<and> Q () s"
  by (simp add: wp_def cassert_def)

lemma wp_if [wp_simps]:
  "wp (if c then m else m') Q s \<longleftrightarrow> (if c then wp m Q s else wp m' Q s)"
  by simp

lemma wp_mono: "wp m Q s \<Longrightarrow> (\<And>a t. Q a t \<Longrightarrow> R a t) \<Longrightarrow> wp m R s"
  by (auto simp: wp_iff)

lemma wp_conj: "wp m Q s \<Longrightarrow> wp m R s \<Longrightarrow> wp m (\<lambda>a t. Q a t \<and> R a t) s"
  by (auto simp: wp_iff)

lemma wp_returns: "wp m Q s \<Longrightarrow> \<exists>a t. m s = Done (a, t) \<and> Q a t"
  by (simp add: wp_iff)

section \<open>Decimal numbers\<close>

definition digit_char :: "nat \<Rightarrow> char" where
  "digit_char d = char_of (48 + d)"

fun to_string_nat :: "nat \<Rightarrow> string" where
  "to_string_nat n =
     (if n < 10 then [digit_char n] else to_string_nat (n div 10) @ [digit_char (n mod 10)])"

declare to_string_nat.simps [simp del]

definition to_string_int :: "int \<Rightarrow> string" where
  "to_string_int i = (if i < 0 then ''-'' @ to_string_nat (nat (- i)) else to_string_nat (nat i))"

definition isdigit :: "char \<Rightarrow> bool" where
  "isdigit c \<longleftrightarrow> 48 \<le> (of_char c :: nat) \<and> (of_char c :: nat) \<le> 57"

definition digit_value :: "char \<Rightarrow> nat" where
  "digit_value c = of_char c - 48"

text \<open>
  \<open>std::istream >> uintptr_t\<close> on a string that starts with a digit: the longest prefix
  of digits is read; a value that does not fit is stored as the largest one.
\<close>

definition read_decimal :: "string \<Rightarrow> nat" where
  "read_decimal cs = foldl (\<lambda>n c. 10 * n + digit_value c) 0 (takeWhile isdigit cs)"

definition read_uintptr :: "string \<Rightarrow> uintptr" where
  "read_uintptr cs =
     (if read_decimal cs < 2 ^ 64 then word_of_nat (read_decimal cs) else - 1)"

lemma of_char_digit_char: "d < 10 \<Longrightarrow> (of_char (digit_char d) :: nat) = 48 + d"
  by (simp add: digit_char_def)

lemma isdigit_digit_char: "d < 10 \<Longrightarrow> isdigit (digit_char d)"
  by (simp add: isdigit_def of_char_digit_char)

lemma digit_value_digit_char: "d < 10 \<Longrightarrow> digit_value (digit_char d) = d"
  by (simp add: digit_value_def of_char_digit_char)

lemma to_string_nat_ne [simp]: "to_string_nat n \<noteq> []"
  by (subst to_string_nat.simps) simp

lemma to_string_nat_digits: "c \<in> set (to_string_nat n) \<Longrightarrow> isdigit c"
proof (induction n rule: to_string_nat.induct)
  case (1 n)
  show ?case
  proof (cases "n < 10")
    case True
    with "1.prems" show ?thesis
      by (simp add: to_string_nat.simps [of n] isdigit_digit_char)
  next
    case False
    with 1 show ?thesis
      by (auto simp: to_string_nat.simps [of n] isdigit_digit_char)
  qed
qed

lemma takeWhile_to_string_nat: "takeWhile isdigit (to_string_nat n) = to_string_nat n"
  by (auto simp: takeWhile_eq_all_conv dest: to_string_nat_digits)

lemma read_decimal_to_string: "read_decimal (to_string_nat n) = n"
  unfolding read_decimal_def takeWhile_to_string_nat
proof (induction n rule: to_string_nat.induct)
  case (1 n)
  show ?case
  proof (cases "n < 10")
    case True
    then show ?thesis
      by (simp add: to_string_nat.simps [of n] digit_value_digit_char)
  next
    case False
    with 1 show ?thesis
      by (simp add: to_string_nat.simps [of n] digit_value_digit_char)
  qed
qed

lemma to_string_nat_inject [simp]: "to_string_nat m = to_string_nat n \<longleftrightarrow> m = n"
  by (metis read_decimal_to_string)

lemma minus_not_digit: "\<not> isdigit CHR ''-''"
  by (simp add: isdigit_def)

lemma to_string_nat_not_minus: "to_string_nat n \<noteq> CHR ''-'' # cs"
proof
  assume "to_string_nat n = CHR ''-'' # cs"
  then have "CHR ''-'' \<in> set (to_string_nat n)" by simp
  then show False using to_string_nat_digits minus_not_digit by blast
qed

lemma to_string_int_inject [simp]: "to_string_int i = to_string_int j \<longleftrightarrow> i = j"
  by (auto simp: to_string_int_def to_string_nat_not_minus to_string_nat_not_minus [symmetric]
      split: if_splits)

lemma hd_to_string_nat: "isdigit (hd (to_string_nat n))"
  by (rule to_string_nat_digits [of _ n]) simp

lemma read_uintptr_to_string [simp]: "read_uintptr (to_string_nat (unat p)) = p"
proof -
  have "unat p < 2 ^ 64" using unsigned_less [of p, where ?'a = nat] by simp
  then show ?thesis by (simp add: read_uintptr_def read_decimal_to_string)
qed

section \<open>Signed readings of words\<close>

lemma bit_top_iff: "0 \<le> k \<Longrightarrow> k < 2 ^ Suc n \<Longrightarrow> bit (k::int) n \<longleftrightarrow> 2 ^ n \<le> k"
proof -
  assume k: "0 \<le> k" "k < 2 ^ Suc n"
  show ?thesis
  proof (cases "k < 2 ^ n")
    case True
    with k show ?thesis by (simp add: bit_iff_odd)
  next
    case False
    with k have "k div 2 ^ n = 1"
      by (intro div_pos_geq [THEN trans] ) (auto simp: div_pos_pos_trivial)
    with False show ?thesis by (simp add: bit_iff_odd)
  qed
qed
lemma sint_cases:
  "sint (w :: 'a::len word) =
     (if uint w < 2 ^ (LENGTH('a) - 1) then uint w else uint w - 2 ^ LENGTH('a))"
proof -
  have len: "Suc (LENGTH('a) - 1) = LENGTH('a)" by simp
  have u: "0 \<le> uint w" "uint w < 2 ^ Suc (LENGTH('a) - 1)"
    using unsigned_less [of w, where ?'a = int] unfolding len by auto
  have "bit (uint w) (LENGTH('a) - 1) \<longleftrightarrow> 2 ^ (LENGTH('a) - 1) \<le> uint w"
    by (rule bit_top_iff [OF u])
  moreover have "take_bit (Suc (LENGTH('a) - 1)) (uint w) = uint w"
    using u by (simp only: take_bit_int_eq_self)
  ultimately show ?thesis
    by (simp only: sint_uint signed_take_bit_eq_take_bit_minus len) auto
qed

lemma sint_neg_iff: "sint w < 0 \<longleftrightarrow> 2 ^ (LENGTH('a) - 1) \<le> unat w" for w :: "'a::len word"
proof -
  have top: "uint w < 2 ^ LENGTH('a)" by (rule unsigned_less)
  have "2 ^ (LENGTH('a) - 1) \<le> unat w \<longleftrightarrow> (2::int) ^ (LENGTH('a) - 1) \<le> uint w"
    by (simp only: of_nat_le_iff [symmetric, where 'a = int] of_nat_power of_nat_numeral uint_nat)
  with top show ?thesis
    by (cases "uint w < 2 ^ (LENGTH('a) - 1)") (simp_all add: sint_cases not_le not_less)
qed

lemma sint_nonneg_eq:
  fixes w :: "'a::len word"
  assumes "unat w < 2 ^ (LENGTH('a) - 1)"
  shows "sint w = int (unat w)"
proof -
  from assms have "\<not> sint w < 0" by (simp add: sint_neg_iff)
  moreover have "uint w < 2 ^ LENGTH('a)" by (rule unsigned_less)
  ultimately have "sint w = uint w" by (auto simp: sint_cases split: if_splits)
  then show ?thesis by simp
qed

lemma unat_pred: "0 < unat n \<Longrightarrow> unat (n - 1) = unat n - 1" for n :: "'a::len word"
  by (metis One_nat_def gr0_conv_Suc unat_eq_zero unat_gt_0 unat_minus_one)

section \<open>Lists\<close>

lemma distinct_snoc_iff: "distinct (xs @ [x]) \<longleftrightarrow> distinct xs \<and> x \<notin> set xs"
  by auto

lemma distinct_butlast_last:
  "distinct xs \<Longrightarrow> xs \<noteq> [] \<Longrightarrow> last xs \<notin> set (butlast xs)"
  by (metis append_butlast_last_id distinct_snoc_iff)

lemma set_butlast_Un_last: "xs \<noteq> [] \<Longrightarrow> set xs = insert (last xs) (set (butlast xs))"
  by (metis append_butlast_last_id list.simps(15) rotate1.simps(2) set_rotate1)

lemma mset_concat_update:
  "i < length xss \<Longrightarrow> mset (concat (xss[i := ys])) + mset (xss ! i) = mset (concat xss) + mset ys"
proof (induction xss arbitrary: i)
  case (Cons xs xss)
  then show ?case by (cases i) (simp_all add: ac_simps)
qed simp

end
