(* ===== verification/Exceptions.thy ===== *)
theory Exceptions
  imports Prelude
begin

text \<open>
  The JNI environment as the native code sees it, and \<open>util/exceptions.{h,cpp}\<close>: fatal
  errors, assertions, and the construction of Java exceptions. The virtual machine (its
  classes, methods, enum constants and constructors) is a parameter, the record \<open>jvm\<close>.
\<close>

section \<open>The Java side\<close>

datatype jobject =
    EnumCode string string        \<comment> \<open>class, constant name\<close>
  | ExceptionObject string jobject  \<comment> \<open>class, the enum code it was constructed with\<close>

datatype throwable =
    NewThrowable string string    \<comment> \<open>\<open>ThrowNew\<close>: class, message\<close>
  | ThrownObject jobject          \<comment> \<open>\<open>Throw\<close>\<close>
  | VmThrowable string            \<comment> \<open>thrown by the virtual machine itself\<close>

record jvm =
  find_class :: "string \<Rightarrow> bool"
  has_static_method :: "string \<Rightarrow> string \<Rightarrow> string \<Rightarrow> bool"
  has_method :: "string \<Rightarrow> string \<Rightarrow> string \<Rightarrow> bool"
  call_value_of :: "string \<Rightarrow> string \<Rightarrow> throwable + jobject option"
  new_object :: "string \<Rightarrow> jobject \<Rightarrow> throwable + jobject option"

record jenv =
  jvm_of :: jvm
  pending :: "throwable option"

text \<open>
  Apart from a short list (\<open>ExceptionCheck\<close>, the \<open>Release\<close> functions), no JNI function may
  be called while an exception is pending.
\<close>

definition jni_call :: "string \<Rightarrow> ('z jenv_scheme, unit) prog" where
  "jni_call f s =
     (if pending s = None then Done ((), s)
      else Fail (UB (''JNI call with a pending exception: '' @ f)))"

definition set_pending :: "throwable \<Rightarrow> ('z jenv_scheme, unit) prog" where
  "set_pending t = modifies (\<lambda>s. s\<lparr>pending := Some t\<rparr>)"

definition exception_check :: "('z jenv_scheme, bool) prog" where
  "exception_check = reads (\<lambda>s. pending s \<noteq> None)"

section \<open>util/exceptions\<close>

definition tox4j_fatal_error :: "string \<Rightarrow> ('z jenv_scheme, 'a) prog" where
  "tox4j_fatal_error message = fail (Fatal message)"

text \<open>The macro prefixes the source location; \<open>loc\<close> is its \<open>file:line\<close>.\<close>

definition tox4j_assert :: "string \<Rightarrow> string \<Rightarrow> bool \<Rightarrow> ('z jenv_scheme, unit) prog" where
  "tox4j_assert loc condition c =
     (if \<not> c then tox4j_fatal_error (loc @ '': Assertion failed: '' @ condition) else ret ())"

definition fullMessage :: "jint \<Rightarrow> string \<Rightarrow> string" where
  "fullMessage instance_number message =
     message @ '', instance_number = '' @ to_string_int (sint instance_number)"

definition throw_exception :: "jint \<Rightarrow> string \<Rightarrow> string \<Rightarrow> ('z jenv_scheme, unit) prog" where
  "throw_exception instance_number class_name message =
     andThen (jni_call ''FindClass'') (\<lambda>_.
     andThen (reads (\<lambda>s. find_class (jvm_of s) class_name)) (\<lambda>found.
       if found
       then set_pending (NewThrowable class_name (fullMessage instance_number message))
       else fail (UB ''ThrowNew on a null class'')))"

definition killed_class :: string where
  "killed_class = ''im/tox/tox4j/exceptions/ToxKilledException''"

definition illegal_state_class :: string where
  "illegal_state_class = ''java/lang/IllegalStateException''"

definition throw_tox_killed_exception :: "jint \<Rightarrow> string \<Rightarrow> ('z jenv_scheme, unit) prog" where
  "throw_tox_killed_exception instance_number message =
     throw_exception instance_number killed_class message"

definition throw_illegal_state_exception :: "jint \<Rightarrow> string \<Rightarrow> ('z jenv_scheme, unit) prog" where
  "throw_illegal_state_exception instance_number message =
     throw_exception instance_number illegal_state_class message"

definition exception_class_name :: "string \<Rightarrow> string \<Rightarrow> string \<Rightarrow> string" where
  "exception_class_name module prefix method =
     ''im/tox/tox4j/'' @ module @ ''/exceptions/Tox'' @ prefix @ method @ ''Exception''"

definition throw_tox_exception_named ::
  "string \<Rightarrow> string \<Rightarrow> string \<Rightarrow> string \<Rightarrow> ('z jenv_scheme, unit) prog" where
  "throw_tox_exception_named module prefix method code =
    (let className = exception_class_name module prefix method;
         enumName = className @ ''$Code'';
         valueOfSig = ''(Ljava/lang/String;)L'' @ enumName @ '';'';
         constructorSig = ''(L'' @ enumName @ '';)V''
     in andThen (jni_call ''FindClass'') (\<lambda>_.
        andThen (reads jvm_of) (\<lambda>vm.
        if \<not> find_class vm className
        then set_pending (VmThrowable (''NoClassDefFoundError: '' @ className))
        else if \<not> find_class vm enumName
        then set_pending (VmThrowable (''NoClassDefFoundError: '' @ enumName))
        else if \<not> has_static_method vm enumName ''valueOf'' valueOfSig
        then set_pending (VmThrowable (''NoSuchMethodError: '' @ valueOfSig))
        else if \<not> has_method vm className ''<init>'' constructorSig
        then set_pending (VmThrowable (''NoSuchMethodError: '' @ constructorSig))
        else case call_value_of vm enumName code of
          Inl t \<Rightarrow> set_pending t
        | Inr enumCode \<Rightarrow>
            andThen (tox4j_assert ''util/exceptions.cpp:82'' ''enumCode'' (enumCode \<noteq> None)) (\<lambda>_.
            case new_object vm className (the enumCode) of
              Inl t \<Rightarrow> set_pending t
            | Inr exception \<Rightarrow>
                andThen (tox4j_assert ''util/exceptions.cpp:87'' ''exception'' (exception \<noteq> None)) (\<lambda>_.
                set_pending (ThrownObject (the exception)))))))"

section \<open>What a well-behaved virtual machine provides\<close>

text \<open>
  The classes the native code throws exist, the \<open>Code\<close> enum of an exception class has the
  constant asked for, and \<open>valueOf\<close> and the constructor do what the Java language says.
\<close>

definition vm_basic :: "jvm \<Rightarrow> bool" where
  "vm_basic vm \<longleftrightarrow> find_class vm killed_class \<and> find_class vm illegal_state_class"

definition vm_has_exception :: "jvm \<Rightarrow> string \<Rightarrow> string \<Rightarrow> bool" where
  "vm_has_exception vm className code \<longleftrightarrow>
     find_class vm className \<and> find_class vm (className @ ''$Code'') \<and>
     has_static_method vm (className @ ''$Code'') ''valueOf''
       (''(Ljava/lang/String;)L'' @ className @ ''$Code'' @ '';'') \<and>
     has_method vm className ''<init>'' (''(L'' @ className @ ''$Code'' @ '';)V'') \<and>
     call_value_of vm (className @ ''$Code'') code =
       Inr (Some (EnumCode (className @ ''$Code'') code)) \<and>
     new_object vm className (EnumCode (className @ ''$Code'') code) =
       Inr (Some (ExceptionObject className (EnumCode (className @ ''$Code'') code)))"

text \<open>The exception object that carries \<open>code\<close>.\<close>

definition tox_throwable :: "string \<Rightarrow> string \<Rightarrow> throwable" where
  "tox_throwable className code =
     ThrownObject (ExceptionObject className (EnumCode (className @ ''$Code'') code))"

text \<open>The exception of \<open>throw_illegal_state_exception\<close>.\<close>

definition illegal_state :: "jint \<Rightarrow> string \<Rightarrow> throwable" where
  "illegal_state n msg = NewThrowable illegal_state_class (fullMessage n msg)"

text \<open>A virtual machine that has every class, method and constant.\<close>

definition complete_vm :: jvm where
  "complete_vm =
     \<lparr>find_class = (\<lambda>_. True), has_static_method = (\<lambda>_ _ _. True), has_method = (\<lambda>_ _ _. True),
      call_value_of = (\<lambda>c k. Inr (Some (EnumCode c k))),
      new_object = (\<lambda>c e. Inr (Some (ExceptionObject c e)))\<rparr>"

lemma complete_vm_basic [simp]: "vm_basic complete_vm"
  by (simp add: vm_basic_def complete_vm_def)

lemma complete_vm_has_exception [simp]: "vm_has_exception complete_vm c k"
  by (simp add: vm_has_exception_def complete_vm_def)

section \<open>Weakest preconditions\<close>

lemma wp_jni_call [wp_simps]: "wp (jni_call f) Q s \<longleftrightarrow> pending s = None \<and> Q () s"
  by (simp add: wp_def jni_call_def)

lemma wp_set_pending [wp_simps]: "wp (set_pending t) Q s \<longleftrightarrow> Q () (s\<lparr>pending := Some t\<rparr>)"
  by (simp add: set_pending_def wp_simps)

lemma wp_exception_check [wp_simps]:
  "wp exception_check Q s \<longleftrightarrow> Q (pending s \<noteq> None) s"
  by (simp add: exception_check_def wp_simps)

lemma wp_tox4j_fatal_error [wp_simps]: "wp (tox4j_fatal_error m) Q s \<longleftrightarrow> False"
  by (simp add: tox4j_fatal_error_def wp_simps)

lemma wp_tox4j_assert [wp_simps]: "wp (tox4j_assert l t c) Q s \<longleftrightarrow> c \<and> Q () s"
  by (simp add: tox4j_assert_def wp_simps)

lemma tox4j_assert_True [simp]: "tox4j_assert l t True = ret ()"
  by (simp add: tox4j_assert_def)

lemma wp_throw_exception [wp_simps]:
  "wp (throw_exception n c m) Q s \<longleftrightarrow>
     pending s = None \<and> find_class (jvm_of s) c \<and>
     Q () (s\<lparr>pending := Some (NewThrowable c (fullMessage n m))\<rparr>)"
  by (auto simp: throw_exception_def wp_simps)

lemma wp_throw_illegal_state_exception [wp_simps]:
  "wp (throw_illegal_state_exception n m) Q s \<longleftrightarrow>
     pending s = None \<and> find_class (jvm_of s) illegal_state_class \<and>
     Q () (s\<lparr>pending := Some (NewThrowable illegal_state_class (fullMessage n m))\<rparr>)"
  by (simp add: throw_illegal_state_exception_def wp_simps)

lemma wp_throw_tox_killed_exception [wp_simps]:
  "wp (throw_tox_killed_exception n m) Q s \<longleftrightarrow>
     pending s = None \<and> find_class (jvm_of s) killed_class \<and>
     Q () (s\<lparr>pending := Some (NewThrowable killed_class (fullMessage n m))\<rparr>)"
  by (simp add: throw_tox_killed_exception_def wp_simps)

lemma throw_exception_Done:
  "pending s = None \<Longrightarrow> find_class (jvm_of s) c \<Longrightarrow>
   throw_exception n c m s = Done ((), s\<lparr>pending := Some (NewThrowable c (fullMessage n m))\<rparr>)"
  by (simp add: throw_exception_def andThen_def jni_call_def set_pending_def)

lemma throw_tox_exception_named_Done:
  assumes "pending s = None"
    and "vm_has_exception (jvm_of s) (exception_class_name module prefix method) code"
  shows "throw_tox_exception_named module prefix method code s =
    Done ((), s\<lparr>pending :=
      Some (tox_throwable (exception_class_name module prefix method) code)\<rparr>)"
  using assms
  by (simp add: throw_tox_exception_named_def vm_has_exception_def Let_def andThen_def
      jni_call_def set_pending_def tox_throwable_def)

lemma fullMessage_inject: "fullMessage n m = fullMessage n' m \<longleftrightarrow> n = n'"
  by (auto simp: fullMessage_def intro: signed_word_eqI)

lemma tox_throwable_inject [simp]:
  "tox_throwable c k = tox_throwable c' k' \<longleftrightarrow> c = c' \<and> k = k'"
  by (auto simp: tox_throwable_def)

end
