(* ===== verification/Instance_Manager.thy ===== *)
theory Instance_Manager
  imports Exceptions
begin

text \<open>
  \<open>util/instance_manager.h\<close>: the table of native objects behind the integer instance
  numbers that Java holds. One operation per member function; \<open>this\<close> is the record
  \<open>instance_manager\<close>, passed and returned explicitly. The operations here run one at a
  time; the theory \<open>Instance_Locking\<close> models their interleaving.
\<close>

section \<open>State\<close>

record ('o, 'e) instance_pointers =
  object_p :: "'o option"
  events_p :: "'e option"

definition null_pointers :: "('o, 'e) instance_pointers" where
  "null_pointers = \<lparr>object_p = None, events_p = None\<rparr>"

text \<open>
  \<open>locks\<close> says which instance mutexes are held; \<open>deleted\<close> lists the objects on which the
  deleter of \<open>ObjectP\<close> (\<open>tox_kill\<close>, \<open>toxav_kill\<close>) has run, in order.
\<close>

record ('o, 'e) instance_manager =
  instances :: "('o, 'e) instance_pointers list"
  locks :: "bool list"
  freelist :: "jint list"
  deleted :: "'o list"

definition empty_manager :: "('o, 'e) instance_manager" where
  "empty_manager = \<lparr>instances = [], locks = [], freelist = [], deleted = []\<rparr>"

text \<open>\<open>std::vector::operator[]\<close>: an index past the end has no meaning.\<close>

definition vec_at :: "'a list \<Rightarrow> nat \<Rightarrow> ('s, 'a) prog" where
  "vec_at xs i = (if i < length xs then ret (xs ! i) else fail (UB ''vector index out of range''))"

definition pointers_bool :: "('o, 'e) instance_pointers \<Rightarrow> ('s, bool) prog" where
  "pointers_bool p =
     andThen (cassert ''!object_p == !events_p'' ((object_p p = None) = (events_p p = None)))
       (\<lambda>_. ret (object_p p \<noteq> None))"

definition instance_index :: "jint \<Rightarrow> nat" where
  "instance_index instanceNumber = unat (instanceNumber - 1)"

section \<open>Operations\<close>

definition check_instance_number ::
  "('o, 'e) instance_manager \<Rightarrow> jint \<Rightarrow> bool \<Rightarrow> ('z jenv_scheme, bool) prog" where
  "check_instance_number m instanceNumber allow_zero =
    (if sint instanceNumber < 0
     then andThen (throw_illegal_state_exception instanceNumber ''instance number out of range'')
            (\<lambda>_. ret False)
     else if instanceNumber = 0
     then andThen (if \<not> allow_zero
                   then throw_illegal_state_exception instanceNumber
                          ''function called on null instance''
                   else ret ())
            (\<lambda>_. ret False)
     else if unat instanceNumber > length (instances m)
     then andThen (throw_illegal_state_exception instanceNumber
                     ''function called on invalid instance'')
            (\<lambda>_. ret False)
     else if instanceNumber \<in> set (freelist m)
     then andThen (throw_illegal_state_exception instanceNumber
                     ''accessed instance thought to be garbage collected'')
            (\<lambda>_. ret False)
     else ret True)"

text \<open>Destroying or overwriting a \<open>unique_ptr\<close> runs its deleter when it holds an object.\<close>

definition run_deleter :: "'o option \<Rightarrow> 'o list \<Rightarrow> 'o list" where
  "run_deleter p ds = (case p of None \<Rightarrow> ds | Some x \<Rightarrow> ds @ [x])"

definition add ::
  "('o, 'e) instance_manager \<Rightarrow> 'o option \<Rightarrow> 'e option \<Rightarrow>
   ('z jenv_scheme, jint \<times> ('o, 'e) instance_manager) prog" where
  "add m objectp eventsp =
    andThen (tox4j_assert ''util/instance_manager.h:195'' ''object_p'' (objectp \<noteq> None)) (\<lambda>_.
    andThen (tox4j_assert ''util/instance_manager.h:196'' ''events_p'' (eventsp \<noteq> None)) (\<lambda>_.
    let instance_p = \<lparr>object_p = objectp, events_p = eventsp\<rparr> in
    if freelist m \<noteq> []
    then
      let instanceNumber = last (freelist m);
          m1 = m\<lparr>freelist := butlast (freelist m)\<rparr>
      in
      andThen (tox4j_assert ''util/instance_manager.h:211'' ''instanceNumber >= 1''
                 (sint instanceNumber \<ge> 1)) (\<lambda>_.
      andThen (vec_at (instances m1) (instance_index instanceNumber)) (\<lambda>old.
      andThen (pointers_bool old) (\<lambda>occupied.
      andThen (tox4j_assert ''util/instance_manager.h:213'' ''!instances[instanceNumber - 1]''
                 (\<not> occupied)) (\<lambda>_.
      ret (instanceNumber,
           m1\<lparr>instances := (instances m1)[instance_index instanceNumber := instance_p],
              deleted := run_deleter (object_p old) (deleted m1)\<rparr>)))))
    else
      let m1 = m\<lparr>instances := instances m @ [instance_p], locks := locks m @ [False]\<rparr>
      in
      andThen (tox4j_assert ''util/instance_manager.h:225'' ''instances.size () == locks.size ()''
                 (length (instances m1) = length (locks m1))) (\<lambda>_.
      ret (word_of_nat (length (instances m1)), m1))))"

text \<open>
  \<open>std::mutex\<close> is not recursive: a thread that locks it while holding it has no defined
  behaviour.
\<close>

definition lock_instance ::
  "('o, 'e) instance_manager \<Rightarrow> jint \<Rightarrow> ('s, ('o, 'e) instance_manager) prog" where
  "lock_instance m n =
     andThen (vec_at (locks m) (instance_index n)) (\<lambda>held.
       if held then fail (UB ''std::mutex locked twice by one thread'')
       else ret (m\<lparr>locks := (locks m)[instance_index n := True]\<rparr>))"

definition unlock_instance :: "jint \<Rightarrow> ('o, 'e) instance_manager \<Rightarrow> ('o, 'e) instance_manager" where
  "unlock_instance n m = m\<lparr>locks := (locks m)[instance_index n := False]\<rparr>"

definition kill ::
  "('o, 'e) instance_manager \<Rightarrow> jint \<Rightarrow> ('z jenv_scheme, ('o, 'e) instance_manager) prog" where
  "kill m instanceNumber =
    andThen (check_instance_number m instanceNumber True) (\<lambda>proceed.
    if \<not> proceed then ret m
    else
      andThen (lock_instance m instanceNumber) (\<lambda>m1.
      andThen (vec_at (instances m1) (instance_index instanceNumber)) (\<lambda>dying.
      ret (unlock_instance instanceNumber
             (m1\<lparr>instances := (instances m1)[instance_index instanceNumber := null_pointers],
                 deleted := run_deleter (object_p dying) (deleted m1)\<rparr>)))))"

definition leaked_message :: "jint \<Rightarrow> string" where
  "leaked_message n = ''Leaked Tox instance #'' @ to_string_int (sint n)"

definition finalize ::
  "('o, 'e) instance_manager \<Rightarrow> jint \<Rightarrow> ('z jenv_scheme, ('o, 'e) instance_manager) prog" where
  "finalize m instanceNumber =
    andThen (check_instance_number m instanceNumber True) (\<lambda>proceed.
    if \<not> proceed then ret m
    else
      andThen (vec_at (instances m) (instance_index instanceNumber)) (\<lambda>p.
      andThen (pointers_bool p) (\<lambda>alive.
      if alive
      then andThen (throw_illegal_state_exception instanceNumber (leaked_message instanceNumber))
             (\<lambda>_. ret m)
      else
        andThen (tox4j_assert ''util/instance_manager.h:283'' ''instanceNumber != 0''
                   (instanceNumber \<noteq> 0)) (\<lambda>_.
        ret (m\<lparr>freelist := freelist m @ [instanceNumber]\<rparr>)))))"

subsection \<open>Access\<close>

text \<open>
  A manager lives inside a larger state (the process has one for Tox and one for ToxAV
  objects); a lens says where.
\<close>

record ('s, 'm) lens =
  lget :: "'s \<Rightarrow> 'm"
  lput :: "'m \<Rightarrow> 's \<Rightarrow> 's"

definition on_manager :: "('s, 'm) lens \<Rightarrow> ('m \<Rightarrow> ('s, 'r \<times> 'm) prog) \<Rightarrow> ('s, 'r) prog" where
  "on_manager L f =
     andThen (reads (lget L)) (\<lambda>m.
     andThen (f m) (\<lambda>(r, m'). andThen (modifies (lput L m')) (\<lambda>_. ret r)))"

text \<open>
  The lambda inside \<open>with_instance\<close>: the two raw pointers, and whether the result owns
  the instance lock.
\<close>

definition get_locked ::
  "('o, 'e) instance_manager \<Rightarrow> jint \<Rightarrow>
   ('z jenv_scheme, ('o option \<times> 'e option \<times> bool) \<times> ('o, 'e) instance_manager) prog" where
  "get_locked m instanceNumber =
    andThen (check_instance_number m instanceNumber False) (\<lambda>proceed.
    if \<not> proceed then ret ((None, None, False), m)
    else
      andThen (lock_instance m instanceNumber) (\<lambda>m1.
      andThen (vec_at (instances m1) (instance_index instanceNumber)) (\<lambda>p.
      ret ((object_p p, events_p p, True), m1))))"

definition release_locked :: "jint \<Rightarrow> bool \<Rightarrow> ('o, 'e) instance_manager \<Rightarrow> ('o, 'e) instance_manager" where
  "release_locked n owns m = (if owns then unlock_instance n m else m)"

text \<open>The effect of \<open>func\<close> on the object and the events, which it reaches through pointers.\<close>

definition write_back ::
  "jint \<Rightarrow> 'o \<Rightarrow> 'e \<Rightarrow> ('o, 'e) instance_manager \<Rightarrow> ('o, 'e) instance_manager" where
  "write_back n x ev m =
     m\<lparr>instances := (instances m)[instance_index n := \<lparr>object_p = Some x, events_p = Some ev\<rparr>]\<rparr>"

definition killed_message :: string where
  "killed_message = ''function called on killed tox instance''"

definition with_instance ::
  "('z jenv_scheme, ('o, 'e) instance_manager) lens \<Rightarrow> 'r \<Rightarrow> jint \<Rightarrow>
   ('o \<Rightarrow> 'e \<Rightarrow> ('z jenv_scheme, 'r \<times> 'o \<times> 'e) prog) \<Rightarrow> ('z jenv_scheme, 'r) prog" where
  "with_instance L return_type instanceNumber func =
    andThen (on_manager L (\<lambda>m. get_locked m instanceNumber)) (\<lambda>(object, events, owns).
    andThen (cassert ''!object == !events'' ((object = None) = (events = None))) (\<lambda>_.
    if object = None
    then
      andThen exception_check (\<lambda>thrown.
      andThen (if \<not> thrown then throw_tox_killed_exception instanceNumber killed_message
               else ret ()) (\<lambda>_.
      andThen (modifies (\<lambda>s. lput L (release_locked instanceNumber owns (lget L s)) s)) (\<lambda>_.
      ret return_type)))
    else
      andThen (func (the object) (the events)) (\<lambda>(r, x, ev).
      andThen (modifies (\<lambda>s. lput L
                 (release_locked instanceNumber owns (write_back instanceNumber x ev (lget L s))) s)) (\<lambda>_.
      ret r))))"

section \<open>Invariant and abstraction\<close>

definition paired :: "('o, 'e) instance_pointers \<Rightarrow> bool" where
  "paired p \<longleftrightarrow> (object_p p = None) = (events_p p = None)"

definition in_table :: "('o, 'e) instance_manager \<Rightarrow> jint \<Rightarrow> bool" where
  "in_table m n \<longleftrightarrow> 1 \<le> unat n \<and> unat n \<le> length (instances m)"

definition manager_inv :: "('o, 'e) instance_manager \<Rightarrow> bool" where
  "manager_inv m \<longleftrightarrow>
     length (instances m) < 2 ^ 31 \<and>
     length (locks m) = length (instances m) \<and>
     (\<forall>p \<in> set (instances m). paired p) \<and>
     distinct (freelist m) \<and>
     (\<forall>n \<in> set (freelist m). in_table m n \<and>
        object_p (instances m ! instance_index n) = None)"

definition unlocked :: "('o, 'e) instance_manager \<Rightarrow> bool" where
  "unlocked m \<longleftrightarrow> True \<notin> set (locks m)"

text \<open>What an instance number stands for.\<close>

datatype ('o, 'e) slot =
    Unused
  | Live 'o 'e
  | Killed
  | Finalized

definition slot_of :: "('o, 'e) instance_manager \<Rightarrow> jint \<Rightarrow> ('o, 'e) slot" where
  "slot_of m n =
    (if \<not> in_table m n then Unused
     else if n \<in> set (freelist m) then Finalized
     else case (object_p (instances m ! instance_index n), events_p (instances m ! instance_index n)) of
            (Some x, Some ev) \<Rightarrow> Live x ev
          | _ \<Rightarrow> Killed)"

text \<open>The objects the manager owns.\<close>

definition owned :: "('o, 'e) instance_pointers \<Rightarrow> 'o list" where
  "owned p = (case object_p p of None \<Rightarrow> [] | Some x \<Rightarrow> [x])"

definition live_objects :: "('o, 'e) instance_manager \<Rightarrow> 'o multiset" where
  "live_objects m = mset (concat (map owned (instances m)))"

text \<open>The complaint of \<open>check_instance_number\<close>, if it has one.\<close>

definition complaint :: "('o, 'e) slot \<Rightarrow> jint \<Rightarrow> bool \<Rightarrow> string option" where
  "complaint slot n allow_zero =
    (if sint n < 0 then Some ''instance number out of range''
     else if n = 0 then (if allow_zero then None else Some ''function called on null instance'')
     else case slot of
            Unused \<Rightarrow> Some ''function called on invalid instance''
          | Finalized \<Rightarrow> Some ''accessed instance thought to be garbage collected''
          | _ \<Rightarrow> None)"

definition raise_opt :: "throwable option \<Rightarrow> 'z jenv_scheme \<Rightarrow> 'z jenv_scheme" where
  "raise_opt t s = (case t of None \<Rightarrow> s | Some x \<Rightarrow> s\<lparr>pending := Some x\<rparr>)"

text \<open>A native method starts without a pending exception, in a usable virtual machine.\<close>

definition call_ready :: "'z jenv_scheme \<Rightarrow> bool" where
  "call_ready s \<longleftrightarrow> pending s = None \<and> vm_basic (jvm_of s)"

section \<open>Instance numbers\<close>

lemma instance_index_eq: "in_table m n \<Longrightarrow> instance_index n = unat n - 1"
  by (simp add: instance_index_def in_table_def unat_pred)

lemma instance_index_less: "in_table m n \<Longrightarrow> instance_index n < length (instances m)"
  by (simp add: instance_index_eq) (simp add: in_table_def less_eq_Suc_le)

lemma instance_index_inject:
  "in_table m n \<Longrightarrow> in_table m n' \<Longrightarrow> instance_index n = instance_index n' \<longleftrightarrow> n = n'"
  by (auto simp: instance_index_eq in_table_def word_unat_eq_iff)

lemma in_table_sint: "manager_inv m \<Longrightarrow> in_table m n \<Longrightarrow> 1 \<le> sint n"
proof -
  assume "manager_inv m" "in_table m n"
  then have n: "unat n < 2 ^ (LENGTH(32) - 1)" "1 \<le> unat n"
    by (auto simp: manager_inv_def in_table_def)
  from n(1) have "sint n = int (unat n)" by (rule sint_nonneg_eq)
  with n(2) show ?thesis by linarith
qed

lemma not_in_table_iff:
  "manager_inv m \<Longrightarrow> \<not> in_table m n \<longleftrightarrow> n = 0 \<or> length (instances m) < unat n"
  by (auto simp: in_table_def not_le unat_eq_0 Suc_le_eq)

lemma in_table_0 [simp]: "\<not> in_table m 0"
  by (simp add: in_table_def)

lemma slot_of_0 [simp]: "slot_of m 0 = Unused"
  by (simp add: slot_of_def)

lemma manager_invD:
  assumes "manager_inv m"
  shows "length (instances m) < 2 ^ 31" and "length (locks m) = length (instances m)"
    and "in_table m n \<Longrightarrow> paired (instances m ! instance_index n)"
    and "distinct (freelist m)"
    and "n \<in> set (freelist m) \<Longrightarrow> in_table m n"
    and "n \<in> set (freelist m) \<Longrightarrow> object_p (instances m ! instance_index n) = None"
  using assms by (auto simp: manager_inv_def instance_index_less)

lemma slot_of_cases [consumes 1]:
  assumes "manager_inv m"
  obtains (unused) "\<not> in_table m n" "slot_of m n = Unused"
  | (finalized) "in_table m n" "n \<in> set (freelist m)" "slot_of m n = Finalized"
      "object_p (instances m ! instance_index n) = None"
      "events_p (instances m ! instance_index n) = None"
  | (killed) "in_table m n" "n \<notin> set (freelist m)" "slot_of m n = Killed"
      "object_p (instances m ! instance_index n) = None"
      "events_p (instances m ! instance_index n) = None"
  | (live) x ev where "in_table m n" "n \<notin> set (freelist m)" "slot_of m n = Live x ev"
      "object_p (instances m ! instance_index n) = Some x"
      "events_p (instances m ! instance_index n) = Some ev"
proof (cases "in_table m n")
  case False
  then show ?thesis by (auto intro: unused simp: slot_of_def)
next
  case True
  note pr = manager_invD(3) [OF assms True]
  show ?thesis
  proof (cases "n \<in> set (freelist m)")
    case free: True
    with True pr manager_invD(6) [OF assms free] show ?thesis
      by (auto intro!: finalized simp: slot_of_def paired_def)
  next
    case False
    with True pr show ?thesis
      by (cases "object_p (instances m ! instance_index n)";
          cases "events_p (instances m ! instance_index n)")
        (auto intro: killed live simp: slot_of_def paired_def)
  qed
qed

section \<open>What each operation does\<close>

lemma raise_opt_simps [simp]:
  "raise_opt None s = s"
  "raise_opt (Some t) s = s\<lparr>pending := Some t\<rparr>"
  by (simp_all add: raise_opt_def)

lemma throw_illegal_state_Done:
  "call_ready s \<Longrightarrow>
   throw_illegal_state_exception n msg s = Done ((), s\<lparr>pending := Some (illegal_state n msg)\<rparr>)"
  by (simp add: throw_illegal_state_exception_def throw_exception_Done call_ready_def
      vm_basic_def illegal_state_def)

lemma vec_at_in_table:
  "in_table m n \<Longrightarrow> vec_at (instances m) (instance_index n) = ret (instances m ! instance_index n)"
  by (simp add: vec_at_def instance_index_less)

lemma check_instance_number_eq:
  assumes "manager_inv m" and "call_ready s"
  shows "check_instance_number m n allow_zero s =
    Done (slot_of m n \<notin> {Unused, Finalized},
          raise_opt (map_option (illegal_state n) (complaint (slot_of m n) n allow_zero)) s)"
proof -
  note t = throw_illegal_state_Done [OF assms(2)]
  have len: "length (instances m) < 2 ^ 31" using assms(1) by (simp add: manager_inv_def)
  from assms(1) show ?thesis
  proof (cases rule: slot_of_cases [where n = n])
    case unused
    show ?thesis
    proof (cases "n = 0")
      case True
      with unused show ?thesis
        by (simp add: check_instance_number_def complaint_def andThen_def t)
    next
      case False
      with unused not_in_table_iff [OF assms(1)] have "length (instances m) < unat n" by blast
      with unused False show ?thesis
        by (simp add: check_instance_number_def complaint_def andThen_def t)
    qed
  next
    case finalized
    with in_table_sint [OF assms(1), of n] show ?thesis
      by (auto simp: check_instance_number_def complaint_def andThen_def t in_table_def not_less)
  next
    case killed
    with in_table_sint [OF assms(1), of n] show ?thesis
      by (auto simp: check_instance_number_def complaint_def in_table_def not_less)
  next
    case (live x ev)
    with in_table_sint [OF assms(1), of n] show ?thesis
      by (auto simp: check_instance_number_def complaint_def in_table_def not_less)
  qed
qed

subsection \<open>Changes of one table entry\<close>

definition slot_of_pointers :: "('o, 'e) instance_pointers \<Rightarrow> ('o, 'e) slot" where
  "slot_of_pointers p =
     (case (object_p p, events_p p) of (Some x, Some ev) \<Rightarrow> Live x ev | _ \<Rightarrow> Killed)"

lemma in_table_simps [simp]:
  "in_table (m\<lparr>instances := (instances m)[i := p]\<rparr>) n = in_table m n"
  "in_table (m\<lparr>locks := l\<rparr>) n = in_table m n"
  "in_table (m\<lparr>deleted := d\<rparr>) n = in_table m n"
  "in_table (m\<lparr>freelist := f\<rparr>) n = in_table m n"
  by (simp_all add: in_table_def)

lemma slot_of_simps [simp]:
  "slot_of (m\<lparr>locks := l\<rparr>) = slot_of m"
  "slot_of (m\<lparr>deleted := d\<rparr>) = slot_of m"
  by (simp_all add: slot_of_def fun_eq_iff)

lemma slot_of_instances_update:
  assumes "in_table m n" and "n \<notin> set (freelist m)"
  shows "slot_of (m\<lparr>instances := (instances m)[instance_index n := p]\<rparr>) =
         (slot_of m)(n := slot_of_pointers p)"
proof (rule ext)
  fix k
  show "slot_of (m\<lparr>instances := (instances m)[instance_index n := p]\<rparr>) k =
        ((slot_of m)(n := slot_of_pointers p)) k"
  proof (cases "k = n")
    case True
    with assms show ?thesis
      by (simp add: slot_of_def slot_of_pointers_def instance_index_less)
  next
    case False
    then show ?thesis
    proof (cases "in_table m k")
      case True
      with False assms(1) have "instance_index k \<noteq> instance_index n"
        by (simp add: instance_index_inject)
      with False show ?thesis by (simp add: slot_of_def)
    qed (simp add: slot_of_def)
  qed
qed

lemma manager_inv_simps [simp]:
  "manager_inv (m\<lparr>deleted := d\<rparr>) = manager_inv m"
  "length l = length (locks m) \<Longrightarrow> manager_inv (m\<lparr>locks := l\<rparr>) = manager_inv m"
  by (simp_all add: manager_inv_def)

lemma manager_inv_instances_update:
  assumes "manager_inv m" and "in_table m n" and "n \<notin> set (freelist m)" and "paired p"
  shows "manager_inv (m\<lparr>instances := (instances m)[instance_index n := p]\<rparr>)"
proof -
  have other: "instance_index n \<noteq> instance_index k" if "k \<in> set (freelist m)" for k
    using that assms instance_index_inject [of m n k] manager_invD(5) [OF assms(1) that] by auto
  with assms show ?thesis
    by (auto simp: manager_inv_def nth_list_update_neq dest!: set_update_subset_insert [THEN subsetD])
qed

lemma owned_simps [simp]:
  "owned null_pointers = []"
  "owned \<lparr>object_p = Some x, events_p = ep\<rparr> = [x]"
  by (simp_all add: owned_def null_pointers_def)

lemma live_objects_simps [simp]:
  "live_objects (m\<lparr>locks := l\<rparr>) = live_objects m"
  "live_objects (m\<lparr>deleted := d\<rparr>) = live_objects m"
  "live_objects (m\<lparr>freelist := f\<rparr>) = live_objects m"
  by (simp_all add: live_objects_def)

lemma live_objects_update:
  assumes "in_table m n"
  shows "live_objects (m\<lparr>instances := (instances m)[instance_index n := p]\<rparr>)
           + mset (owned (instances m ! instance_index n)) = live_objects m + mset (owned p)"
  using mset_concat_update [of "instance_index n" "map owned (instances m)" "owned p"]
    instance_index_less [OF assms]
  by (simp add: live_objects_def map_update)

lemma unlocked_simps [simp]:
  "unlocked (m\<lparr>instances := x\<rparr>) = unlocked m"
  "unlocked (m\<lparr>freelist := f\<rparr>) = unlocked m"
  "unlocked (m\<lparr>deleted := d\<rparr>) = unlocked m"
  by (simp_all add: unlocked_def)

lemma unlocked_nth: "unlocked m \<Longrightarrow> i < length (locks m) \<Longrightarrow> \<not> locks m ! i"
  by (metis (full_types) nth_mem unlocked_def)

lemma unlocked_list_update: "unlocked m \<Longrightarrow> (locks m)[i := False] = locks m"
  by (metis (full_types) linorder_not_less list_update_beyond list_update_id unlocked_nth)

lemma paired_simps [simp]:
  "paired null_pointers"
  "paired \<lparr>object_p = Some x, events_p = Some ev\<rparr>"
  "slot_of_pointers null_pointers = Killed"
  "slot_of_pointers \<lparr>object_p = Some x, events_p = Some ev\<rparr> = Live x ev"
  by (simp_all add: paired_def null_pointers_def slot_of_pointers_def)

lemma pointers_bool_paired: "paired p \<Longrightarrow> pointers_bool p = ret (object_p p \<noteq> None)"
  by (rule ext) (simp add: pointers_bool_def paired_def)

lemma lock_instance_eq:
  assumes "manager_inv m" and "unlocked m" and "in_table m n"
  shows "lock_instance m n = ret (m\<lparr>locks := (locks m)[instance_index n := True]\<rparr>)"
proof -
  have "instance_index n < length (locks m)"
    using assms by (simp add: manager_invD(2) instance_index_less)
  with unlocked_nth [OF assms(2)] show ?thesis
    by (intro ext) (simp add: lock_instance_def vec_at_def)
qed

section \<open>Specification\<close>

text \<open>
  The contract of the manager, over a map from instance numbers to slots: the new map and
  the exception raised, if any.
\<close>

type_synonym ('o, 'e) slots = "jint \<Rightarrow> ('o, 'e) slot"

definition spec_kill ::
  "('o, 'e) slots \<Rightarrow> jint \<Rightarrow> ('o, 'e) slots \<times> throwable option" where
  "spec_kill \<sigma> n =
    (case \<sigma> n of
       Live _ _ \<Rightarrow> (\<sigma>(n := Killed), None)
     | Killed \<Rightarrow> (\<sigma>, None)
     | slot \<Rightarrow> (\<sigma>, map_option (illegal_state n) (complaint slot n True)))"

definition spec_finalize ::
  "('o, 'e) slots \<Rightarrow> jint \<Rightarrow> ('o, 'e) slots \<times> throwable option" where
  "spec_finalize \<sigma> n =
    (case \<sigma> n of
       Live _ _ \<Rightarrow> (\<sigma>, Some (illegal_state n (leaked_message n)))
     | Killed \<Rightarrow> (\<sigma>(n := Finalized), None)
     | slot \<Rightarrow> (\<sigma>, map_option (illegal_state n) (complaint slot n True)))"

definition dying_objects :: "('o, 'e) slot \<Rightarrow> 'o list" where
  "dying_objects slot = (case slot of Live x _ \<Rightarrow> [x] | _ \<Rightarrow> [])"

lemma complaint_in_table:
  "manager_inv m \<Longrightarrow> in_table m n \<Longrightarrow> slot \<notin> {Unused, Finalized} \<Longrightarrow> complaint slot n az = None"
  using in_table_sint [of m n] by (cases slot) (auto simp: complaint_def)

lemma kill_refines:
  assumes "manager_inv m" and "unlocked m" and "call_ready s"
  shows "\<exists>m'. kill m n s = Done (m', raise_opt (snd (spec_kill (slot_of m) n)) s) \<and>
     slot_of m' = fst (spec_kill (slot_of m) n) \<and> manager_inv m' \<and> unlocked m' \<and>
     deleted m' = deleted m @ dying_objects (slot_of m n) \<and>
     live_objects m' + mset (dying_objects (slot_of m n)) = live_objects m"
proof -
  note chk = check_instance_number_eq [OF assms(1,3), of n True]
  let ?i = "instance_index n"
  let ?m' = "m\<lparr>instances := (instances m)[?i := null_pointers],
               deleted := run_deleter (object_p (instances m ! ?i)) (deleted m)\<rparr>"
  have run: "kill m n s = Done (?m', s)" if "in_table m n" "n \<notin> set (freelist m)"
      "slot_of m n \<notin> {Unused, Finalized}"
    using that chk assms
    by (simp add: kill_def andThen_def lock_instance_eq vec_at_def instance_index_less
        unlock_instance_def unlocked_list_update complaint_in_table)
  from assms(1) show ?thesis
  proof (cases rule: slot_of_cases [where n = n])
    case unused
    with chk assms show ?thesis by (simp add: kill_def andThen_def spec_kill_def dying_objects_def)
  next
    case finalized
    with chk assms show ?thesis by (simp add: kill_def andThen_def spec_kill_def dying_objects_def)
  next
    case killed
    with run assms live_objects_update [OF killed(1), of null_pointers] show ?thesis
      by (simp add: owned_def [of "_ ! _"] slot_of_instances_update manager_inv_instances_update spec_kill_def
          dying_objects_def run_deleter_def fun_upd_idem)
  next
    case (live x ev)
    with run assms live_objects_update [OF live(1), of null_pointers] show ?thesis
      by (simp add: owned_def [of "_ ! _"] slot_of_instances_update manager_inv_instances_update spec_kill_def
          dying_objects_def run_deleter_def)
  qed
qed

lemma finalize_killed:
  assumes "manager_inv m" and "call_ready s" and "slot_of m n = Killed"
  shows "finalize m n s = Done (m\<lparr>freelist := freelist m @ [n]\<rparr>, s)"
    and "slot_of (m\<lparr>freelist := freelist m @ [n]\<rparr>) = (slot_of m)(n := Finalized)"
    and "manager_inv (m\<lparr>freelist := freelist m @ [n]\<rparr>)"
proof -
  from assms(1,3) have killed: "in_table m n" "n \<notin> set (freelist m)"
      "object_p (instances m ! instance_index n) = None"
    by (auto elim: slot_of_cases [where n = n])
  then have "n \<noteq> 0" by auto
  moreover have "complaint (slot_of m n) n True = None"
    using assms(3) killed by (intro complaint_in_table [OF assms(1)]) auto
  ultimately show "finalize m n s = Done (m\<lparr>freelist := freelist m @ [n]\<rparr>, s)"
    using killed assms check_instance_number_eq [OF assms(1,2), of n True]
      manager_invD(3) [OF assms(1) killed(1)]
    by (simp add: finalize_def andThen_def vec_at_in_table pointers_bool_paired)
  show "slot_of (m\<lparr>freelist := freelist m @ [n]\<rparr>) = (slot_of m)(n := Finalized)"
    using killed by (auto simp: slot_of_def fun_eq_iff in_table_def)
  show "manager_inv (m\<lparr>freelist := freelist m @ [n]\<rparr>)"
    using assms(1) killed by (auto simp: manager_inv_def in_table_def)
qed

lemma finalize_refines:
  assumes "manager_inv m" and "unlocked m" and "call_ready s"
  shows "\<exists>m'. finalize m n s = Done (m', raise_opt (snd (spec_finalize (slot_of m) n)) s) \<and>
     slot_of m' = fst (spec_finalize (slot_of m) n) \<and> manager_inv m' \<and> unlocked m' \<and>
     deleted m' = deleted m \<and> live_objects m' = live_objects m"
proof -
  note chk = check_instance_number_eq [OF assms(1,3), of n True]
  from assms(1) show ?thesis
  proof (cases rule: slot_of_cases [where n = n])
    case unused
    with chk assms show ?thesis by (simp add: finalize_def andThen_def spec_finalize_def)
  next
    case finalized
    with chk assms show ?thesis by (simp add: finalize_def andThen_def spec_finalize_def)
  next
    case killed
    with finalize_killed [OF assms(1,3), of n] assms(2) show ?thesis by (simp add: spec_finalize_def)
  next
    case (live x ev)
    moreover have "complaint (Live x ev) n True = None"
      using complaint_in_table [OF assms(1) live(1), of "Live x ev"] by simp
    ultimately have "finalize m n s =
        Done (m, s\<lparr>pending := Some (illegal_state n (leaked_message n))\<rparr>)"
      using chk assms manager_invD(3) [OF assms(1) live(1)]
      by (simp add: finalize_def andThen_def vec_at_in_table pointers_bool_paired
          throw_illegal_state_Done)
    with live assms show ?thesis by (simp add: spec_finalize_def)
  qed
qed

subsection \<open>Adding an instance\<close>

definition new_number :: "('o, 'e) instance_manager \<Rightarrow> jint" where
  "new_number m =
     (if freelist m = [] then word_of_nat (Suc (length (instances m))) else last (freelist m))"

definition has_room :: "('o, 'e) instance_manager \<Rightarrow> bool" where
  "has_room m \<longleftrightarrow> freelist m \<noteq> [] \<or> Suc (length (instances m)) < 2 ^ 31"

lemma unat_new_number:
  "freelist m = [] \<Longrightarrow> has_room m \<Longrightarrow> unat (new_number m) = Suc (length (instances m))"
  by (simp add: new_number_def has_room_def unat_of_nat del: of_nat_Suc)

lemma add_fresh:
  fixes x :: 'o and ev :: 'e and m :: "('o, 'e) instance_manager"
  assumes inv: "manager_inv m" and "unlocked m" and "has_room m" and fl: "freelist m = []"
  defines "m' \<equiv> m\<lparr>instances := instances m @ [\<lparr>object_p = Some x, events_p = Some ev\<rparr>],
                  locks := locks m @ [False]\<rparr>"
  shows "add m (Some x) (Some ev) s = Done ((new_number m, m'), s)"
    and "slot_of m' = (slot_of m)(new_number m := Live x ev)"
    and "manager_inv m'" and "unlocked m'" and "deleted m' = deleted m"
    and "live_objects m' = add_mset x (live_objects m)"
    and "slot_of m (new_number m) = Unused"
proof -
  let ?n = "new_number m" and ?k = "length (instances m)"
  have n: "unat ?n = Suc ?k" using unat_new_number assms(3) fl by blast
  have idx: "instance_index ?n = ?k" by (simp add: instance_index_def unat_pred n)
  show "add m (Some x) (Some ev) s = Done ((?n, m'), s)"
    using inv fl by (simp add: add_def m'_def new_number_def manager_invD(2))
  show "slot_of m' = (slot_of m)(?n := Live x ev)"
  proof (rule ext)
    fix j
    show "slot_of m' j = ((slot_of m)(?n := Live x ev)) j"
    proof (cases "j = ?n")
      case True
      with n idx fl show ?thesis by (simp add: slot_of_def in_table_def m'_def)
    next
      case False
      with n have "unat j \<noteq> Suc ?k" by (metis word_unat_eq_iff)
      moreover have "in_table m j \<Longrightarrow> instance_index j < ?k" by (rule instance_index_less)
      ultimately show ?thesis using False fl
        by (auto simp: slot_of_def in_table_def m'_def nth_append)
    qed
  qed
  show "manager_inv m'"
    using inv fl assms(3) by (auto simp: manager_inv_def m'_def has_room_def)
  show "unlocked m'" using assms(2) by (simp add: unlocked_def m'_def)
  show "deleted m' = deleted m" by (simp add: m'_def)
  show "live_objects m' = add_mset x (live_objects m)" by (simp add: m'_def live_objects_def)
  show "slot_of m ?n = Unused" using n by (simp add: slot_of_def in_table_def)
qed

lemma manager_inv_pop:
  assumes inv: "manager_inv m" and fl: "freelist m \<noteq> []"
  shows "manager_inv (m\<lparr>freelist := butlast (freelist m)\<rparr>)"
    and "last (freelist m) \<notin> set (butlast (freelist m))"
    and "in_table m (last (freelist m))"
    and "slot_of (m\<lparr>freelist := butlast (freelist m)\<rparr>) = (slot_of m)(last (freelist m) := Killed)"
proof -
  let ?n = "last (freelist m)"
  have n: "?n \<in> set (freelist m)" using fl by simp
  show last: "?n \<notin> set (butlast (freelist m))"
    using fl manager_invD(4) [OF inv] by (simp add: distinct_butlast_last)
  show tab: "in_table m ?n" using inv n by (rule manager_invD(5))
  show "manager_inv (m\<lparr>freelist := butlast (freelist m)\<rparr>)"
    using inv by (auto simp: manager_inv_def distinct_butlast dest: in_set_butlastD)
  have "object_p (instances m ! instance_index ?n) = None" using inv n by (rule manager_invD(6))
  then show "slot_of (m\<lparr>freelist := butlast (freelist m)\<rparr>) = (slot_of m)(?n := Killed)"
    using last tab set_butlast_Un_last [OF fl] by (auto simp: slot_of_def fun_eq_iff)
qed

lemma add_reuse:
  fixes x :: 'o and ev :: 'e and m :: "('o, 'e) instance_manager"
  assumes inv: "manager_inv m" and "unlocked m" and fl: "freelist m \<noteq> []"
  defines "m' \<equiv> m\<lparr>freelist := butlast (freelist m),
      instances := (instances m)[instance_index (new_number m) :=
        \<lparr>object_p = Some x, events_p = Some ev\<rparr>]\<rparr>"
  shows "add m (Some x) (Some ev) s = Done ((new_number m, m'), s)"
    and "slot_of m' = (slot_of m)(new_number m := Live x ev)"
    and "manager_inv m'" and "unlocked m'" and "deleted m' = deleted m"
    and "live_objects m' = add_mset x (live_objects m)"
    and "slot_of m (new_number m) = Finalized"
proof -
  let ?n = "new_number m"
  have n: "?n = last (freelist m)" using fl by (simp add: new_number_def)
  note pop = manager_inv_pop [OF inv fl, folded n]
  have nfree: "?n \<in> set (freelist m)" using fl n by simp
  let ?m1 = "m\<lparr>freelist := butlast (freelist m)\<rparr>"
  have m': "m' = ?m1\<lparr>instances := (instances ?m1)[instance_index ?n :=
      \<lparr>object_p = Some x, events_p = Some ev\<rparr>]\<rparr>"
    by (simp add: m'_def)
  show "add m (Some x) (Some ev) s = Done ((?n, m'), s)"
    using fl n pop(3) in_table_sint [OF inv pop(3)] manager_invD(6) [OF inv nfree]
      manager_invD(3) [OF inv pop(3)]
    by (simp add: add_def m'_def vec_at_in_table pointers_bool_paired run_deleter_def Let_def)
  show "slot_of m' = (slot_of m)(?n := Live x ev)"
    unfolding m' using pop by (subst slot_of_instances_update) simp_all
  show "manager_inv m'"
    unfolding m' using pop by (intro manager_inv_instances_update) simp_all
  show "unlocked m'" "deleted m' = deleted m" using assms(2) by (simp_all add: m'_def)
  show "live_objects m' = add_mset x (live_objects m)"
    using live_objects_update [OF pop(3)] manager_invD(6) [OF inv nfree]
    by (simp add: m' live_objects_def owned_def)
  show "slot_of m ?n = Finalized" using nfree pop(3) by (simp add: slot_of_def)
qed

lemma add_refines:
  assumes "manager_inv m" and "unlocked m" and "has_room m"
  shows "\<exists>m'. add m (Some x) (Some ev) s = Done ((new_number m, m'), s) \<and>
     slot_of m (new_number m) \<in> {Unused, Finalized} \<and>
     slot_of m' = (slot_of m)(new_number m := Live x ev) \<and>
     manager_inv m' \<and> unlocked m' \<and> deleted m' = deleted m \<and>
     live_objects m' = add_mset x (live_objects m)"
proof (cases "freelist m = []")
  case True
  note fresh = add_fresh(1-6) [OF assms True, where x = x and ev = ev]
  from fresh(2-) add_fresh(7) [OF assms True] show ?thesis
    by (intro exI conjI) (rule fresh(1), simp_all)
next
  case False
  note reuse = add_reuse(1-6) [OF assms(1,2) False, where x = x and ev = ev]
  from reuse(2-) add_reuse(7) [OF assms(1,2) False] show ?thesis
    by (intro exI conjI) (rule reuse(1), simp_all)
qed

subsection \<open>Access to an instance\<close>

text \<open>The exception an access raises instead of calling the function, if any.\<close>

definition access_error :: "('o, 'e) slot \<Rightarrow> jint \<Rightarrow> throwable option" where
  "access_error slot n =
    (case slot of
       Live _ _ \<Rightarrow> None
     | Killed \<Rightarrow> Some (NewThrowable killed_class (fullMessage n killed_message))
     | _ \<Rightarrow> map_option (illegal_state n) (complaint slot n False))"

definition lock_held :: "jint \<Rightarrow> ('o, 'e) instance_manager \<Rightarrow> ('o, 'e) instance_manager" where
  "lock_held n m = m\<lparr>locks := (locks m)[instance_index n := True]\<rparr>"

lemma access_error_dead:
  "slot \<in> {Unused, Finalized} \<Longrightarrow>
   \<exists>msg. complaint slot n False = Some msg \<and> access_error slot n = Some (illegal_state n msg)"
  by (auto simp: access_error_def complaint_def)

lemma get_locked_eq:
  assumes "manager_inv m" and "unlocked m" and "call_ready s"
  shows "get_locked m n s =
    (case slot_of m n of
       Live x ev \<Rightarrow> Done (((Some x, Some ev, True), lock_held n m), s)
     | Killed \<Rightarrow> Done (((None, None, True), lock_held n m), s)
     | _ \<Rightarrow> Done (((None, None, False), m), raise_opt (access_error (slot_of m n) n) s))"
proof -
  note chk = check_instance_number_eq [OF assms(1,3), of n False]
  from assms(1) show ?thesis
  proof (cases rule: slot_of_cases [where n = n])
    case unused
    with chk show ?thesis by (simp add: get_locked_def andThen_def access_error_def)
  next
    case finalized
    with chk show ?thesis by (simp add: get_locked_def andThen_def access_error_def)
  next
    case killed
    moreover have "complaint (slot_of m n) n False = None"
      using killed by (intro complaint_in_table [OF assms(1)]) auto
    ultimately show ?thesis using chk assms
      by (simp add: get_locked_def andThen_def lock_instance_eq vec_at_def instance_index_less
          lock_held_def)
  next
    case (live x ev)
    moreover have "complaint (slot_of m n) n False = None"
      using live by (intro complaint_in_table [OF assms(1)]) auto
    ultimately show ?thesis using chk assms
      by (simp add: get_locked_def andThen_def lock_instance_eq vec_at_def instance_index_less
          lock_held_def)
  qed
qed

lemma unlock_lock_held:
  "unlocked m \<Longrightarrow> unlock_instance n (lock_held n m) = m"
  by (simp add: unlock_instance_def lock_held_def unlocked_list_update)

lemma write_back_held:
  fixes x' :: 'o and ev' :: 'e and m :: "('o, 'e) instance_manager"
  assumes "manager_inv m" and "unlocked m" and "slot_of m n = Live x ev"
  defines "m' \<equiv> unlock_instance n (write_back n x' ev' (lock_held n m))"
  shows "slot_of m' = (slot_of m)(n := Live x' ev')"
    and "manager_inv m'" and "unlocked m'"
    and "instances m' = (instances m)[instance_index n := \<lparr>object_p = Some x', events_p = Some ev'\<rparr>]"
    and "deleted m' = deleted m" and "freelist m' = freelist m"
proof -
  from assms(1,3) have n: "in_table m n" "n \<notin> set (freelist m)"
    by (auto elim: slot_of_cases [where n = n])
  have m': "m' = m\<lparr>instances := (instances m)[instance_index n :=
      \<lparr>object_p = Some x', events_p = Some ev'\<rparr>]\<rparr>"
    using unlocked_list_update [OF assms(2)]
    by (simp add: m'_def unlock_instance_def write_back_def lock_held_def)
  show "slot_of m' = (slot_of m)(n := Live x' ev')"
    unfolding m' using n by (simp add: slot_of_instances_update)
  show "manager_inv m'"
    unfolding m' using n assms(1) by (intro manager_inv_instances_update) simp_all
  show "unlocked m'" using assms(2) by (simp add: m')
qed (simp_all add: assms unlock_instance_def write_back_def lock_held_def)

section \<open>The manager as part of a state\<close>

locale manager_lens =
  fixes L :: "('z jenv_scheme, ('o, 'e) instance_manager) lens"
  assumes get_put [simp]: "lget L (lput L m s) = m"
    and put_get [simp]: "lput L (lget L s) s = s"
    and put_put [simp]: "lput L m (lput L m' s) = lput L m s"
    and pending_put [simp]: "pending (lput L m s) = pending s"
    and jvm_put [simp]: "jvm_of (lput L m s) = jvm_of s"
    and get_pending [simp]: "lget L (s\<lparr>pending := t\<rparr>) = lget L s"
    and put_pending [simp]: "lput L m (s\<lparr>pending := t\<rparr>) = (lput L m s)\<lparr>pending := t\<rparr>"
begin

definition manager_ok :: "'z jenv_scheme \<Rightarrow> bool" where
  "manager_ok s \<longleftrightarrow> manager_inv (lget L s) \<and> unlocked (lget L s)"

abbreviation slots_in :: "'z jenv_scheme \<Rightarrow> ('o, 'e) slots" where
  "slots_in s \<equiv> slot_of (lget L s)"

lemma with_instance_dead:
  assumes "manager_ok s" and "call_ready s" and "access_error (slots_in s n) n \<noteq> None"
  shows "with_instance L d n func s = Done (d, raise_opt (access_error (slots_in s n) n) s)"
proof -
  from assms(1) have m: "manager_inv (lget L s)" "unlocked (lget L s)"
    by (simp_all add: manager_ok_def)
  note g = get_locked_eq [OF m assms(2), of n]
  show ?thesis
  proof (cases "slots_in s n")
    case (Live x ev)
    with assms(3) show ?thesis by (simp add: access_error_def)
  next
    case Killed
    with g m assms(2) show ?thesis
      by (simp add: with_instance_def on_manager_def andThen_def exception_check_def
          throw_tox_killed_exception_def throw_exception_Done call_ready_def vm_basic_def
          access_error_def release_locked_def unlock_lock_held)
  next
    case Unused
    with access_error_dead [of "slots_in s n" n]
    obtain msg where "access_error (slots_in s n) n = Some (illegal_state n msg)" by auto
    with Unused g show ?thesis
      by (simp add: with_instance_def on_manager_def andThen_def exception_check_def
          release_locked_def raise_opt_def)
  next
    case Finalized
    with access_error_dead [of "slots_in s n" n]
    obtain msg where "access_error (slots_in s n) n = Some (illegal_state n msg)" by auto
    with Finalized g show ?thesis
      by (simp add: with_instance_def on_manager_def andThen_def exception_check_def
          release_locked_def raise_opt_def)
  qed
qed

lemma with_instance_live:
  assumes "manager_ok s" and "call_ready s" and "slots_in s n = Live x ev"
  shows "with_instance L d n func s =
    andThen (func x ev) (\<lambda>(r, x', ev').
      andThen (modifies (\<lambda>s. lput L (unlock_instance n (write_back n x' ev' (lget L s))) s))
        (\<lambda>_. ret r))
      (lput L (lock_held n (lget L s)) s)"
proof -
  from assms(1) have m: "manager_inv (lget L s)" "unlocked (lget L s)"
    by (simp_all add: manager_ok_def)
  from get_locked_eq [OF m assms(2), of n] assms(3) show ?thesis
    by (simp add: with_instance_def on_manager_def andThen_def release_locked_def
        split: outcome.split prod.split)
qed

text \<open>
  A function that leaves the manager alone (all of them do: they see only the object and
  the events): the access replaces exactly the accessed object and its events.
\<close>

lemma with_instance_frame:
  assumes ok: "manager_ok s" "call_ready s" and live: "slots_in s n = Live x ev"
    and run: "func x ev (lput L (lock_held n (lget L s)) s) = Done ((r, x', ev'), t)"
    and frame: "lget L t = lock_held n (lget L s)"
  shows "\<exists>s'. with_instance L d n func s = Done (r, s') \<and> manager_ok s' \<and>
     slots_in s' = (slots_in s)(n := Live x' ev') \<and> pending s' = pending t \<and>
     jvm_of s' = jvm_of t \<and> deleted (lget L s') = deleted (lget L s) \<and>
     s' = lput L (lget L s') t"
proof -
  let ?m = "unlock_instance n (write_back n x' ev' (lock_held n (lget L s)))"
  from ok(1) have m: "manager_inv (lget L s)" "unlocked (lget L s)"
    by (simp_all add: manager_ok_def)
  note w = write_back_held [OF m live, of x' ev']
  have "with_instance L d n func s = Done (r, lput L ?m t)"
    using run frame by (subst with_instance_live [OF ok live]) (simp add: andThen_def)
  with w show ?thesis by (intro exI [of _ "lput L ?m t"]) (simp add: manager_ok_def)
qed

end

end
