(* ===== verification/Instance_Locking.thy ===== *)
theory Instance_Locking
  imports Instance_Manager
begin

text \<open>
  The locking of \<open>util/instance_manager.h\<close> under any interleaving of any number of
  threads: the manager mutex, one mutex per instance, and where each member function
  takes and releases them. Every step of a thread that holds the manager mutex works on
  the same definitions as the sequential model.
\<close>

section \<open>Threads and their steps\<close>

text \<open>
  Where a thread is: outside, waiting for the manager mutex (\<open>Want\<close>), holding it
  (\<open>Add_crit\<close>, \<open>Kill_check\<close>, \<open>Kill_lock\<close>, \<open>Kill_crit\<close>, \<open>Finalize_crit\<close>,
  \<open>With_check\<close>, \<open>With_lock\<close>, \<open>With_got\<close>) or holding only an instance mutex
  (\<open>With_call\<close>, \<open>With_dead\<close>). \<open>With_got\<close> has copied the raw pointers out of the table.
\<close>

datatype ('o, 'e) call =
    Call_add 'o 'e
  | Call_kill jint
  | Call_finalize jint
  | Call_with jint

datatype ('o, 'e) pc =
    Idle
  | Want "('o, 'e) call"
  | Add_crit 'o 'e
  | Kill_check jint
  | Kill_lock jint
  | Kill_crit jint
  | Finalize_crit jint
  | With_check jint
  | With_lock jint
  | With_got jint "'o option" "'e option"
  | With_call jint 'o 'e
  | With_dead jint

fun entered :: "('o, 'e) call \<Rightarrow> ('o, 'e) pc" where
  "entered (Call_add x ev) = Add_crit x ev"
| "entered (Call_kill n) = Kill_check n"
| "entered (Call_finalize n) = Finalize_crit n"
| "entered (Call_with n) = With_check n"

fun has_mutex :: "('o, 'e) pc \<Rightarrow> bool" where
  "has_mutex (Add_crit _ _) = True"
| "has_mutex (Kill_check _) = True"
| "has_mutex (Kill_lock _) = True"
| "has_mutex (Kill_crit _) = True"
| "has_mutex (Finalize_crit _) = True"
| "has_mutex (With_check _) = True"
| "has_mutex (With_lock _) = True"
| "has_mutex (With_got _ _ _) = True"
| "has_mutex _ = False"

fun has_instance :: "('o, 'e) pc \<Rightarrow> jint option" where
  "has_instance (Kill_crit n) = Some n"
| "has_instance (With_got n _ _) = Some n"
| "has_instance (With_call n _ _) = Some n"
| "has_instance (With_dead n) = Some n"
| "has_instance _ = None"

record ('o, 'e) locking =
  mgr :: "('o, 'e) instance_manager"
  pcs :: "nat \<Rightarrow> ('o, 'e) pc"
  mutex :: "nat option"
  ilock :: "nat \<Rightarrow> nat option"
  envs :: "nat \<Rightarrow> jenv"

definition moved_out :: "jint \<Rightarrow> ('o, 'e) instance_manager \<Rightarrow> ('o, 'e) instance_manager" where
  "moved_out n m =
     m\<lparr>instances := (instances m)[instance_index n := null_pointers],
       deleted := run_deleter (object_p (instances m ! instance_index n)) (deleted m)\<rparr>"

text \<open>
  The steps of thread \<open>i\<close>. The function inside an access is code of the caller, in the end of
  toxcore: it may change its object in any number of \<open>with_func\<close> steps, also for ever, and may
  return after any of them. What is said about the end of calls is therefore relative to the
  number of these steps.
\<close>

inductive lstep :: "nat \<Rightarrow> ('o, 'e) locking \<Rightarrow> ('o, 'e) locking \<Rightarrow> bool" for i where
  enter_call: "pcs s i = Idle \<Longrightarrow>
    lstep i s (s\<lparr>pcs := (pcs s)(i := Want c), envs := (envs s)(i := (envs s i)\<lparr>pending := None\<rparr>)\<rparr>)"
| lock_manager: "pcs s i = Want c \<Longrightarrow> mutex s = None \<Longrightarrow>
    lstep i s (s\<lparr>pcs := (pcs s)(i := entered c), mutex := Some i\<rparr>)"
| add_instance: "pcs s i = Add_crit x ev \<Longrightarrow> has_room (mgr s) \<Longrightarrow>
    add (mgr s) (Some x) (Some ev) (envs s i) = Done ((n, m'), e') \<Longrightarrow>
    lstep i s (s\<lparr>pcs := (pcs s)(i := Idle), mutex := None, mgr := m', envs := (envs s)(i := e')\<rparr>)"
| finalize_instance: "pcs s i = Finalize_crit n \<Longrightarrow>
    finalize (mgr s) n (envs s i) = Done (m', e') \<Longrightarrow>
    lstep i s (s\<lparr>pcs := (pcs s)(i := Idle), mutex := None, mgr := m', envs := (envs s)(i := e')\<rparr>)"
| kill_check: "pcs s i = Kill_check n \<Longrightarrow>
    check_instance_number (mgr s) n True (envs s i) = Done (True, e') \<Longrightarrow>
    lstep i s (s\<lparr>pcs := (pcs s)(i := Kill_lock n), envs := (envs s)(i := e')\<rparr>)"
| kill_refused: "pcs s i = Kill_check n \<Longrightarrow>
    check_instance_number (mgr s) n True (envs s i) = Done (False, e') \<Longrightarrow>
    lstep i s (s\<lparr>pcs := (pcs s)(i := Idle), mutex := None, envs := (envs s)(i := e')\<rparr>)"
| kill_lock: "pcs s i = Kill_lock n \<Longrightarrow> ilock s (instance_index n) = None \<Longrightarrow>
    lstep i s (s\<lparr>pcs := (pcs s)(i := Kill_crit n), ilock := (ilock s)(instance_index n := Some i)\<rparr>)"
| kill_destroy: "pcs s i = Kill_crit n \<Longrightarrow>
    lstep i s (s\<lparr>pcs := (pcs s)(i := Idle), mgr := moved_out n (mgr s),
                 ilock := (ilock s)(instance_index n := None), mutex := None\<rparr>)"
| with_check: "pcs s i = With_check n \<Longrightarrow>
    check_instance_number (mgr s) n False (envs s i) = Done (True, e') \<Longrightarrow>
    lstep i s (s\<lparr>pcs := (pcs s)(i := With_lock n), envs := (envs s)(i := e')\<rparr>)"
| with_refused: "pcs s i = With_check n \<Longrightarrow>
    check_instance_number (mgr s) n False (envs s i) = Done (False, e') \<Longrightarrow>
    lstep i s (s\<lparr>pcs := (pcs s)(i := Idle), mutex := None, envs := (envs s)(i := e')\<rparr>)"
| with_lock: "pcs s i = With_lock n \<Longrightarrow> ilock s (instance_index n) = None \<Longrightarrow>
    p = instances (mgr s) ! instance_index n \<Longrightarrow>
    lstep i s (s\<lparr>pcs := (pcs s)(i := With_got n (object_p p) (events_p p)),
                 ilock := (ilock s)(instance_index n := Some i)\<rparr>)"
| with_unlock_manager: "pcs s i = With_got n (Some x) (Some ev) \<Longrightarrow>
    lstep i s (s\<lparr>pcs := (pcs s)(i := With_call n x ev), mutex := None\<rparr>)"
| with_unlock_killed: "pcs s i = With_got n None None \<Longrightarrow>
    lstep i s (s\<lparr>pcs := (pcs s)(i := With_dead n), mutex := None\<rparr>)"
| with_func: "pcs s i = With_call n x ev \<Longrightarrow>
    lstep i s (s\<lparr>pcs := (pcs s)(i := With_call n x' ev'), mgr := write_back n x' ev' (mgr s)\<rparr>)"
| with_return: "pcs s i = With_call n x ev \<Longrightarrow>
    lstep i s (s\<lparr>pcs := (pcs s)(i := Idle), ilock := (ilock s)(instance_index n := None)\<rparr>)"
| with_throw: "pcs s i = With_dead n \<Longrightarrow>
    throw_tox_killed_exception n killed_message (envs s i) = Done ((), e') \<Longrightarrow>
    lstep i s (s\<lparr>pcs := (pcs s)(i := Idle), ilock := (ilock s)(instance_index n := None),
                 envs := (envs s)(i := e')\<rparr>)"

definition idle_locking :: "(nat \<Rightarrow> jenv) \<Rightarrow> ('o, 'e) locking" where
  "idle_locking es = \<lparr>mgr = empty_manager, pcs = (\<lambda>_. Idle), mutex = None,
                      ilock = (\<lambda>_. None), envs = es\<rparr>"

inductive lreach :: "(nat \<Rightarrow> jenv) \<Rightarrow> ('o, 'e) locking \<Rightarrow> bool" for es where
  lreach_start: "lreach es (idle_locking es)"
| lreach_step: "lreach es s \<Longrightarrow> lstep i s t \<Longrightarrow> lreach es t"

section \<open>Invariant\<close>

text \<open>What a thread's position says about the slot of its instance.\<close>

fun pc_ok :: "('o, 'e) slots \<Rightarrow> ('o, 'e) pc \<Rightarrow> bool" where
  "pc_ok \<sigma> (Kill_lock n) \<longleftrightarrow> \<sigma> n \<notin> {Unused, Finalized}"
| "pc_ok \<sigma> (Kill_crit n) \<longleftrightarrow> \<sigma> n \<notin> {Unused, Finalized}"
| "pc_ok \<sigma> (With_lock n) \<longleftrightarrow> \<sigma> n \<notin> {Unused, Finalized}"
| "pc_ok \<sigma> (With_got n xp evp) \<longleftrightarrow>
     (\<exists>x ev. xp = Some x \<and> evp = Some ev \<and> \<sigma> n = Live x ev) \<or> (xp = None \<and> evp = None \<and> \<sigma> n = Killed)"
| "pc_ok \<sigma> (With_call n x ev) \<longleftrightarrow> \<sigma> n = Live x ev"
| "pc_ok \<sigma> (With_dead n) \<longleftrightarrow> True"
| "pc_ok \<sigma> _ \<longleftrightarrow> True"

definition mutex_inv :: "('o, 'e) locking \<Rightarrow> bool" where
  "mutex_inv s \<longleftrightarrow> (\<forall>j. has_mutex (pcs s j) \<longleftrightarrow> mutex s = Some j)"

definition ilock_inv :: "('o, 'e) locking \<Rightarrow> bool" where
  "ilock_inv s \<longleftrightarrow>
     (\<forall>j n. has_instance (pcs s j) = Some n \<longleftrightarrow> ilock s (instance_index n) = Some j)"

definition slots_inv :: "('o, 'e) locking \<Rightarrow> bool" where
  "slots_inv s \<longleftrightarrow> manager_inv (mgr s) \<and> unlocked (mgr s) \<and>
     (\<forall>j. pc_ok (slot_of (mgr s)) (pcs s j))"

definition envs_inv :: "('o, 'e) locking \<Rightarrow> bool" where
  "envs_inv s \<longleftrightarrow>
     (\<forall>j. vm_basic (jvm_of (envs s j)) \<and> (pcs s j \<noteq> Idle \<longrightarrow> pending (envs s j) = None))"

definition locking_inv :: "('o, 'e) locking \<Rightarrow> bool" where
  "locking_inv s \<longleftrightarrow> mutex_inv s \<and> ilock_inv s \<and> slots_inv s \<and> envs_inv s"

lemma instance_index_inj [simp]: "instance_index n = instance_index n' \<longleftrightarrow> n = n'"
  by (simp add: instance_index_def word_unat_eq_iff [symmetric])

lemma has_mutex_entered [simp]: "has_mutex (entered c)"
  by (cases c) simp_all

lemma has_instance_entered [simp]: "has_instance (entered c) = None"
  by (cases c) simp_all

lemma pc_ok_entered [simp]: "pc_ok \<sigma> (entered c)"
  by (cases c) simp_all

lemma entered_not_Idle [simp]: "entered c \<noteq> Idle"
  by (cases c) simp_all

lemma mutex_inv_step: "lstep i s t \<Longrightarrow> mutex_inv s \<Longrightarrow> mutex_inv t"
  by (induction rule: lstep.induct) (simp_all add: mutex_inv_def, (metis has_mutex.simps option.sel)+)

lemma ilock_inv_step: "lstep i s t \<Longrightarrow> ilock_inv s \<Longrightarrow> ilock_inv t"
  by (induction rule: lstep.induct) (simp_all add: ilock_inv_def, (metis has_instance.simps option.sel option.distinct(1))+)

lemma ilock_invD:
  "ilock_inv s \<Longrightarrow> has_instance (pcs s j) = Some n \<Longrightarrow> ilock s (instance_index n) = Some j"
  by (simp add: ilock_inv_def)

lemma pc_ok_no_mutex:
  "\<not> has_mutex p \<Longrightarrow> pc_ok \<sigma> p \<longleftrightarrow> (\<forall>n x ev. p = With_call n x ev \<longrightarrow> \<sigma> n = Live x ev)"
  by (cases p) auto

lemma slots_inv_pc:
  assumes "slots_inv s" and "pc_ok (slot_of (mgr s)) p"
    and "mgr t = mgr s" and "pcs t = (pcs s)(i := p)"
  shows "slots_inv t"
  using assms by (simp add: slots_inv_def)

text \<open>While a thread holds the manager mutex, the others depend on live slots only.\<close>

lemma slots_inv_mutex:
  assumes "slots_inv s" and "mutex_inv s" and "has_mutex (pcs s i)"
    and m': "mgr t = m'" "manager_inv m'" "unlocked m'"
    and pcs: "pcs t = (pcs s)(i := Idle)"
    and live: "\<And>j n x ev. j \<noteq> i \<Longrightarrow> pcs s j = With_call n x ev \<Longrightarrow>
      slot_of (mgr s) n = Live x ev \<Longrightarrow> slot_of m' n = Live x ev"
  shows "slots_inv t"
proof -
  have "pc_ok (slot_of m') (pcs s j)" if "j \<noteq> i" for j
  proof -
    from that assms(2,3) have nm: "\<not> has_mutex (pcs s j)"
      by (metis mutex_inv_def option.sel)
    from assms(1) have "pc_ok (slot_of (mgr s)) (pcs s j)" by (simp add: slots_inv_def)
    with nm live [OF that] show ?thesis by (simp add: pc_ok_no_mutex)
  qed
  with m' pcs show ?thesis by (simp add: slots_inv_def)
qed

lemma envs_call_ready: "envs_inv s \<Longrightarrow> pcs s i \<noteq> Idle \<Longrightarrow> call_ready (envs s i)"
  by (simp add: envs_inv_def call_ready_def)

lemma check_True:
  assumes "locking_inv s" and "pcs s i \<noteq> Idle"
    and "check_instance_number (mgr s) n az (envs s i) = Done (b, e')"
  shows "b = (slot_of (mgr s) n \<notin> {Unused, Finalized})"
    and "jvm_of e' = jvm_of (envs s i)" and "b \<Longrightarrow> e' = envs s i"
proof -
  have inv: "manager_inv (mgr s)" "call_ready (envs s i)"
    using assms(1,2) by (simp_all add: locking_inv_def slots_inv_def envs_call_ready)
  note eq = check_instance_number_eq [OF inv, of n az]
  from eq assms(3) show b: "b = (slot_of (mgr s) n \<notin> {Unused, Finalized})"
    and "jvm_of e' = jvm_of (envs s i)"
    by (auto simp: raise_opt_def split: option.splits)
  assume b
  with b inv(1) have "complaint (slot_of (mgr s) n) n az = None"
    by (intro complaint_in_table [OF inv(1)]) (auto elim: slot_of_cases [where n = n])
  with eq assms(3) show "e' = envs s i" by simp
qed

lemma add_result:
  assumes "manager_inv m" and "unlocked m" and "has_room m"
    and "add m (Some x) (Some ev) e = Done ((n, m'), e')"
  shows "e' = e" and "manager_inv m'" and "unlocked m'"
    and "slot_of m k = Live y ey \<Longrightarrow> slot_of m' k = Live y ey"
  using add_refines [OF assms(1-3), of x ev e] assms(4) by auto

lemma finalize_result:
  assumes "manager_inv m" and "unlocked m" and "call_ready e"
    and "finalize m n e = Done (m', e')"
  shows "jvm_of e' = jvm_of e" and "manager_inv m'" and "unlocked m'"
    and "slot_of m k = Live y ey \<Longrightarrow> slot_of m' k = Live y ey"
  using finalize_refines [OF assms(1-3), of n] assms(4)
  by (auto simp: raise_opt_def spec_finalize_def split: option.splits slot.splits)

lemma moved_out_result:
  assumes "manager_inv m" and "unlocked m" and "slot_of m n \<notin> {Unused, Finalized}"
  shows "manager_inv (moved_out n m)" and "unlocked (moved_out n m)"
    and "slot_of (moved_out n m) = (slot_of m)(n := Killed)"
proof -
  from assms(1,3) have n: "in_table m n" "n \<notin> set (freelist m)"
    by (auto elim: slot_of_cases [where n = n])
  with assms show "manager_inv (moved_out n m)" "unlocked (moved_out n m)"
      "slot_of (moved_out n m) = (slot_of m)(n := Killed)"
    by (simp_all add: moved_out_def manager_inv_instances_update slot_of_instances_update)
qed

lemma write_back_result:
  assumes "manager_inv m" and "unlocked m" and "slot_of m n = Live x ev"
  shows "manager_inv (write_back n x' ev' m)" and "unlocked (write_back n x' ev' m)"
    and "slot_of (write_back n x' ev' m) = (slot_of m)(n := Live x' ev')"
proof -
  from assms(1,3) have n: "in_table m n" "n \<notin> set (freelist m)"
    by (auto elim: slot_of_cases [where n = n])
  with assms show "manager_inv (write_back n x' ev' m)" "unlocked (write_back n x' ev' m)"
      "slot_of (write_back n x' ev' m) = (slot_of m)(n := Live x' ev')"
    by (simp_all add: write_back_def manager_inv_instances_update slot_of_instances_update)
qed

lemma with_lock_pointers:
  assumes "manager_inv m" and "slot_of m n \<notin> {Unused, Finalized}"
  shows "pc_ok (slot_of m) (With_got n (object_p (instances m ! instance_index n))
    (events_p (instances m ! instance_index n)))"
  using assms by (auto elim: slot_of_cases [where n = n])

lemma pc_ok_other_instance:
  "pc_ok \<sigma> p \<Longrightarrow> has_instance p \<noteq> Some n \<Longrightarrow> pc_ok (\<sigma>(n := Live x ev)) p"
  by (cases p) auto

lemma slots_inv_step:
  assumes "lstep i s t" and inv: "locking_inv s"
  shows "slots_inv t"
  using assms(1)
proof cases
  have sl: "slots_inv s" and mu: "mutex_inv s" and il: "ilock_inv s"
    using inv by (simp_all add: locking_inv_def)
  then have m: "manager_inv (mgr s)" "unlocked (mgr s)" by (simp_all add: slots_inv_def)
  note keep = slots_inv_pc [OF sl, where i = i]
  note change = slots_inv_mutex [OF sl mu, where i = i]
  have ok: "pc_ok (slot_of (mgr s)) (pcs s i)" using sl by (simp add: slots_inv_def)
  {
    case (add_instance x ev n m' e')
    note r = add_result [OF m add_instance(3,4)]
    show ?thesis by (rule change [where m' = m']) (use add_instance r in simp_all)
  next
    case (finalize_instance n m' e')
    have "call_ready (envs s i)"
      using inv finalize_instance(2) by (simp add: locking_inv_def envs_call_ready)
    note r = finalize_result [OF m this finalize_instance(3)]
    show ?thesis by (rule change [where m' = m']) (use finalize_instance r in simp_all)
  next
    case (kill_check n e')
    with check_True(1) [OF inv _ kill_check(3)] show ?thesis
      by (intro keep [where p = "Kill_lock n"]) simp_all
  next
    case (with_check n e')
    with check_True(1) [OF inv _ with_check(3)] show ?thesis
      by (intro keep [where p = "With_lock n"]) simp_all
  next
    case (kill_lock n)
    with ok show ?thesis by (intro keep [where p = "Kill_crit n"]) simp_all
  next
    case (with_lock n p)
    with with_lock_pointers [OF m(1), of n] ok show ?thesis
      by (intro keep [where p = "With_got n (object_p p) (events_p p)"]) simp_all
  next
    case (kill_destroy n)
    with ok have "slot_of (mgr s) n \<notin> {Unused, Finalized}" by simp
    note r = moved_out_result [OF m this]
    have other: "k \<noteq> n" if "j \<noteq> i" "pcs s j = With_call k x ev" for j k x ev
    proof -
      have "ilock s (instance_index k) = Some j"
        using ilock_invD [OF il, of j k] that(2) by simp
      moreover have "ilock s (instance_index n) = Some i"
        using ilock_invD [OF il, of i n] kill_destroy(2) by simp
      ultimately show ?thesis using that(1) by auto
    qed
    show ?thesis
      by (rule change [where m' = "moved_out n (mgr s)"]) (use kill_destroy r other in auto)
  next
    case (with_func n x ev x' ev')
    with ok have "slot_of (mgr s) n = Live x ev" by simp
    note r = write_back_result [OF m this, of x' ev']
    have "has_instance (pcs s j) \<noteq> Some n" if "j \<noteq> i" for j
      using il that with_func(2) by (metis has_instance.simps(3) ilock_inv_def option.sel)
    with sl r with_func show ?thesis
      by (auto simp: slots_inv_def pc_ok_other_instance)
  }
qed (use assms(2) in \<open>auto simp: locking_inv_def slots_inv_def dest: spec [of _ i]\<close>)

lemma envs_inv_set:
  assumes "envs_inv s" and "envs t = (envs s)(i := e)" and "pcs t = (pcs s)(i := p)"
    and "jvm_of e = jvm_of (envs s i)" and "p \<noteq> Idle \<Longrightarrow> pending e = None"
  shows "envs_inv t"
  using assms by (auto simp: envs_inv_def)

lemma throw_killed_jvm:
  "throw_tox_killed_exception n msg e = Done ((), e') \<Longrightarrow> jvm_of e' = jvm_of e"
  by (auto simp: throw_tox_killed_exception_def throw_exception_def andThen_Done_iff
      jni_call_def set_pending_def split: if_splits)

lemma envs_inv_step:
  assumes "lstep i s t" and inv: "locking_inv s"
  shows "envs_inv t"
  using assms(1)
proof cases
  have en: "envs_inv s" and m: "manager_inv (mgr s)" "unlocked (mgr s)"
    using inv by (simp_all add: locking_inv_def slots_inv_def)
  note set = envs_inv_set [OF en, where i = i]
  {
    case (enter_call c)
    then show ?thesis by (intro set [where p = "Want c" and e = "(envs s i)\<lparr>pending := None\<rparr>"]) simp_all
  next
    case (add_instance x ev n m' e')
    with add_result(1) [OF m add_instance(3,4)] show ?thesis
      by (intro set [where p = Idle and e = e']) simp_all
  next
    case (finalize_instance n m' e')
    have "call_ready (envs s i)" using en finalize_instance(2) by (simp add: envs_call_ready)
    from finalize_result(1) [OF m this finalize_instance(3)] finalize_instance show ?thesis
      by (intro set [where p = Idle and e = e']) simp_all
  next
    case (kill_check n e')
    with check_True [OF inv _ kill_check(3)] en show ?thesis
      by (intro set [where p = "Kill_lock n" and e = e']) (simp_all add: envs_inv_def)
  next
    case (kill_refused n e')
    with check_True(2) [OF inv _ kill_refused(3)] show ?thesis
      by (intro set [where p = Idle and e = e']) simp_all
  next
    case (with_check n e')
    with check_True [OF inv _ with_check(3)] en show ?thesis
      by (intro set [where p = "With_lock n" and e = e']) (simp_all add: envs_inv_def)
  next
    case (with_refused n e')
    with check_True(2) [OF inv _ with_refused(3)] show ?thesis
      by (intro set [where p = Idle and e = e']) simp_all
  next
    case (with_throw n e')
    with throw_killed_jvm [OF with_throw(3)] show ?thesis
      by (intro set [where p = Idle and e = e']) simp_all
  }
qed (use assms(2) in \<open>auto simp: locking_inv_def envs_inv_def\<close>)

lemma locking_inv_step: "lstep i s t \<Longrightarrow> locking_inv s \<Longrightarrow> locking_inv t"
  using mutex_inv_step [of i s t] ilock_inv_step [of i s t] slots_inv_step [of i s t]
    envs_inv_step [of i s t]
  by (simp add: locking_inv_def)

lemma locking_inv_idle:
  "(\<And>j. vm_basic (jvm_of (es j))) \<Longrightarrow> locking_inv (idle_locking es)"
  by (simp add: locking_inv_def mutex_inv_def ilock_inv_def slots_inv_def envs_inv_def
      idle_locking_def empty_manager_def manager_inv_def unlocked_def)

lemma lreach_inv:
  assumes "lreach es s" and "\<And>j. vm_basic (jvm_of (es j))"
  shows "locking_inv s"
  using assms(1) by induction (use assms(2) in \<open>auto intro: locking_inv_idle locking_inv_step\<close>)

section \<open>Progress\<close>

text \<open>How many steps a thread is away from the end of its call, at most.\<close>

fun remaining :: "('o, 'e) pc \<Rightarrow> nat" where
  "remaining Idle = 0"
| "remaining (Want _) = 5"
| "remaining (Add_crit _ _) = 1"
| "remaining (Kill_check _) = 3"
| "remaining (Kill_lock _) = 2"
| "remaining (Kill_crit _) = 1"
| "remaining (Finalize_crit _) = 1"
| "remaining (With_check _) = 4"
| "remaining (With_lock _) = 3"
| "remaining (With_got _ _ _) = 2"
| "remaining (With_call _ _ _) = 1"
| "remaining (With_dead _) = 1"

definition advances :: "nat \<Rightarrow> ('o, 'e) locking \<Rightarrow> bool" where
  "advances j s \<longleftrightarrow> (\<exists>t. lstep j s t \<and> remaining (pcs t j) < remaining (pcs s j))"

lemma advancesI: "lstep j s t \<Longrightarrow> remaining (pcs t j) < remaining (pcs s j) \<Longrightarrow> advances j s"
  by (auto simp: advances_def)

lemma remaining_entered: "remaining (entered c) < 5"
  by (cases c) simp_all

lemma in_call_advances:
  assumes inv: "locking_inv s" and "has_instance (pcs s j) = Some n" and "\<not> has_mutex (pcs s j)"
  shows "advances j s"
proof (cases "pcs s j")
  case (With_call k x ev)
  then show ?thesis by (intro advancesI [OF lstep.with_return]) simp_all
next
  case (With_dead k)
  with inv have "call_ready (envs s j)" by (simp add: locking_inv_def envs_call_ready)
  then have "throw_tox_killed_exception k killed_message (envs s j) =
      Done ((), (envs s j)\<lparr>pending := Some (NewThrowable killed_class (fullMessage k killed_message))\<rparr>)"
    by (simp add: throw_tox_killed_exception_def throw_exception_Done call_ready_def vm_basic_def)
  from With_dead advancesI [OF lstep.with_throw [OF With_dead this]] show ?thesis by simp
qed (use assms(2,3) in simp_all)

text \<open>Whoever stands in the way of a thread that waits for an instance mutex can go on.\<close>

lemma instance_wait_advances:
  assumes inv: "locking_inv s" and j: "has_mutex (pcs s j)"
    and free: "ilock s (instance_index n) = None \<Longrightarrow> advances j s"
    and not_self: "has_instance (pcs s j) = None"
  shows "\<exists>k. pcs s k \<noteq> Idle \<and> advances k s"
proof (cases "ilock s (instance_index n)")
  case None
  with free j show ?thesis by (intro exI [of _ j]) auto
next
  case (Some k)
  then have k: "has_instance (pcs s k) = Some n"
    using inv by (simp add: locking_inv_def ilock_inv_def)
  with not_self have "k \<noteq> j" by auto
  then have "\<not> has_mutex (pcs s k)"
    using inv j by (metis locking_inv_def mutex_inv_def option.sel)
  with in_call_advances [OF inv k] k show ?thesis by (intro exI [of _ k]) auto
qed

lemma check_returns:
  assumes "locking_inv s" and "pcs s j \<noteq> Idle"
  obtains b e' where "check_instance_number (mgr s) n az (envs s j) = Done (b, e')"
proof -
  have "manager_inv (mgr s)" "call_ready (envs s j)"
    using assms by (simp_all add: locking_inv_def slots_inv_def envs_call_ready)
  from that [OF check_instance_number_eq [OF this]] show ?thesis .
qed

lemma mutex_holder_advances:
  assumes inv: "locking_inv s" and hold: "has_mutex (pcs s j)" and room: "has_room (mgr s)"
  shows "\<exists>k. pcs s k \<noteq> Idle \<and> advances k s"
proof -
  have busy: "pcs s j \<noteq> Idle" using hold by auto
  have m: "manager_inv (mgr s)" "unlocked (mgr s)" "call_ready (envs s j)"
    using inv busy by (simp_all add: locking_inv_def slots_inv_def envs_call_ready)
  have self: ?thesis if "advances j s" using that busy by blast
  show ?thesis
  proof (cases "pcs s j")
    case (Add_crit x ev)
    from add_refines [OF m(1,2) room, of x ev "envs s j"] obtain m' where
      "add (mgr s) (Some x) (Some ev) (envs s j) = Done ((new_number (mgr s), m'), envs s j)" by blast
    from Add_crit advancesI [OF lstep.add_instance [OF Add_crit room this]] show ?thesis
      by (intro self) simp
  next
    case (Finalize_crit n)
    from finalize_refines [OF m, of n] obtain m' e' where
      "finalize (mgr s) n (envs s j) = Done (m', e')" by blast
    from Finalize_crit advancesI [OF lstep.finalize_instance [OF Finalize_crit this]] show ?thesis
      by (intro self) simp
  next
    case (Kill_check n)
    obtain b e' where c: "check_instance_number (mgr s) n True (envs s j) = Done (b, e')"
      by (rule check_returns [OF inv busy])
    show ?thesis
    proof (cases b)
      case True
      with c Kill_check advancesI [OF lstep.kill_check [OF Kill_check]] show ?thesis
        by (intro self) simp
    next
      case False
      with c Kill_check advancesI [OF lstep.kill_refused [OF Kill_check]] show ?thesis
        by (intro self) simp
    qed
  next
    case (With_check n)
    obtain b e' where c: "check_instance_number (mgr s) n False (envs s j) = Done (b, e')"
      by (rule check_returns [OF inv busy])
    show ?thesis
    proof (cases b)
      case True
      with c With_check advancesI [OF lstep.with_check [OF With_check]] show ?thesis
        by (intro self) simp
    next
      case False
      with c With_check advancesI [OF lstep.with_refused [OF With_check]] show ?thesis
        by (intro self) simp
    qed
  next
    case (Kill_lock n)
    from advancesI [OF lstep.kill_lock [OF Kill_lock]] Kill_lock show ?thesis
      by (intro instance_wait_advances [OF inv hold, of n]) simp_all
  next
    case (With_lock n)
    from advancesI [OF lstep.with_lock [OF With_lock _ refl]] With_lock show ?thesis
      by (intro instance_wait_advances [OF inv hold, of n]) simp_all
  next
    case (Kill_crit n)
    from advancesI [OF lstep.kill_destroy [OF Kill_crit]] Kill_crit show ?thesis
      by (intro self) simp
  next
    case (With_got n xp evp)
    with inv have "pc_ok (slot_of (mgr s)) (With_got n xp evp)"
      by (metis locking_inv_def slots_inv_def)
    with With_got lstep.with_unlock_manager [of s j n] lstep.with_unlock_killed [of s j n]
    show ?thesis by (intro self) (auto intro: advancesI)
  qed (use hold in simp_all)
qed

text \<open>As long as some thread is inside, some thread can go on.\<close>

lemma inside_advances:
  assumes inv: "locking_inv s" and i: "pcs s i \<noteq> Idle" and "has_room (mgr s)"
  shows "\<exists>k. pcs s k \<noteq> Idle \<and> advances k s"
proof (cases "mutex s")
  case (Some j)
  with inv have "has_mutex (pcs s j)" by (simp add: locking_inv_def mutex_inv_def)
  from mutex_holder_advances [OF inv this assms(3)] show ?thesis .
next
  case None
  with inv have nm: "\<not> has_mutex (pcs s i)" by (simp add: locking_inv_def mutex_inv_def)
  with i consider (want) c where "pcs s i = Want c" | (call) n where "has_instance (pcs s i) = Some n"
    by (cases "pcs s i") auto
  then have "advances i s"
  proof cases
    case want
    with None remaining_entered [of c] show ?thesis
      by (intro advancesI [OF lstep.lock_manager]) simp_all
  next
    case call
    from in_call_advances [OF inv this nm] show ?thesis .
  qed
  with i show ?thesis by blast
qed

section \<open>Runs\<close>

text \<open>
  Longer pieces of a run, for one thread while the manager mutex is free. \<open>P\<close> says which
  transitions of its position are allowed.
\<close>

inductive lpath :: "(('o, 'e) pc \<Rightarrow> ('o, 'e) pc \<Rightarrow> bool) \<Rightarrow> nat \<Rightarrow> ('o, 'e) locking \<Rightarrow> ('o, 'e) locking \<Rightarrow> bool"
  for P i where
  lpath_refl: "lpath P i s s"
| lpath_step: "lpath P i s t \<Longrightarrow> lstep i t u \<Longrightarrow> P (pcs t i) (pcs u i) \<Longrightarrow> lpath P i s u"

lemma lpath_two: "lstep i s t \<Longrightarrow> lstep i t u \<Longrightarrow> P (pcs s i) (pcs t i) \<Longrightarrow> P (pcs t i) (pcs u i) \<Longrightarrow> lpath P i s u"
  by (meson lpath.intros)

lemma lpath_trans: "lpath P i t u \<Longrightarrow> lpath P i s t \<Longrightarrow> lpath P i s u"
  by (induction rule: lpath.induct) (auto intro: lpath_step)

lemma lreach_path: "lpath P i s t \<Longrightarrow> lreach es s \<Longrightarrow> lreach es t"
  by (induction rule: lpath.induct) (auto intro: lreach_step)

definition inside :: "('o, 'e) pc \<Rightarrow> bool" where
  "inside p \<longleftrightarrow> p \<noteq> Idle \<and> (\<forall>n x ev. p \<noteq> With_call n x ev)"

lemma reach_add:
  assumes inv: "locking_inv s" and P: "\<And>p q. inside p \<Longrightarrow> P p q" "P Idle (Want (Call_add x ev))"
    and s: "pcs s i = Idle" "mutex s = None" "freelist (mgr s) = []" "has_room (mgr s)"
  shows "\<exists>t. lpath P i s t \<and> pcs t = pcs s \<and> mutex t = None \<and> ilock t = ilock s \<and>
    freelist (mgr t) = [] \<and> length (instances (mgr t)) = Suc (length (instances (mgr s))) \<and>
    slot_of (mgr t) = (slot_of (mgr s))(new_number (mgr s) := Live x ev)"
proof -
  let ?e = "(envs s i)\<lparr>pending := None\<rparr>"
  let ?s1 = "s\<lparr>pcs := (pcs s)(i := Want (Call_add x ev)), envs := (envs s)(i := ?e)\<rparr>"
  let ?s2 = "?s1\<lparr>pcs := (pcs s)(i := Add_crit x ev), mutex := Some i\<rparr>"
  let ?m = "(mgr s)\<lparr>instances := instances (mgr s) @ [\<lparr>object_p = Some x, events_p = Some ev\<rparr>],
              locks := locks (mgr s) @ [False]\<rparr>"
  let ?s3 = "?s2\<lparr>pcs := (pcs ?s2)(i := Idle), mutex := None, mgr := ?m, envs := (envs ?s2)(i := ?e)\<rparr>"
  have m: "manager_inv (mgr s)" "unlocked (mgr s)"
    using inv by (simp_all add: locking_inv_def slots_inv_def)
  note fresh = add_fresh [OF m s(4,3)]
  have "lstep i s ?s1" using s(1) by (rule lstep.enter_call)
  moreover have "lstep i ?s1 ?s2"
    using lstep.lock_manager [of ?s1 i "Call_add x ev"] s by simp
  ultimately have "lpath P i s ?s2" by (rule lpath_two) (use P s(1) in \<open>simp_all add: inside_def\<close>)
  moreover have "lstep i ?s2 ?s3"
    by (rule lstep.add_instance [where n = "new_number (mgr s)"]) (simp_all add: s fresh(1))
  ultimately have "lpath P i s ?s3" by (rule lpath_step) (use P in \<open>simp add: inside_def\<close>)
  with s fresh(2) show ?thesis by (intro exI [of _ ?s3]) (simp add: fun_upd_idem)
qed

lemma reach_wait:
  assumes inv: "locking_inv s" and P: "\<And>p q. inside p \<Longrightarrow> P p q" "P Idle (Want (Call_with n))"
    and s: "pcs s i = Idle" "mutex s = None" "slot_of (mgr s) n = Live x ev"
  shows "\<exists>t. lpath P i s t \<and> pcs t = (pcs s)(i := With_lock n) \<and> mutex t = Some i \<and>
    ilock t = ilock s \<and> mgr t = mgr s"
proof -
  let ?e = "(envs s i)\<lparr>pending := None\<rparr>"
  let ?s1 = "s\<lparr>pcs := (pcs s)(i := Want (Call_with n)), envs := (envs s)(i := ?e)\<rparr>"
  let ?s2 = "?s1\<lparr>pcs := (pcs s)(i := With_check n), mutex := Some i\<rparr>"
  let ?s3 = "?s2\<lparr>pcs := (pcs ?s2)(i := With_lock n), envs := (envs ?s2)(i := ?e)\<rparr>"
  have m: "manager_inv (mgr s)" "call_ready ?e"
    using inv by (simp_all add: locking_inv_def slots_inv_def envs_inv_def call_ready_def)
  have "complaint (slot_of (mgr s) n) n False = None"
    using m(1) s(3) by (intro complaint_in_table [OF m(1)]) (auto elim: slot_of_cases [where n = n])
  with check_instance_number_eq [OF m, of n False] s(3)
  have chk: "check_instance_number (mgr s) n False ?e = Done (True, ?e)" by simp
  have "lstep i s ?s1" using s(1) by (rule lstep.enter_call)
  moreover have "lstep i ?s1 ?s2"
    using lstep.lock_manager [of ?s1 i "Call_with n"] s by simp
  ultimately have "lpath P i s ?s2" by (rule lpath_two) (use P s(1) in \<open>simp_all add: inside_def\<close>)
  moreover have "lstep i ?s2 ?s3"
    by (rule lstep.with_check) (simp_all add: chk)
  ultimately have "lpath P i s ?s3" by (rule lpath_step) (use P in \<open>simp add: inside_def\<close>)
  then show ?thesis by (intro exI [of _ ?s3]) simp
qed

lemma reach_call:
  assumes inv: "locking_inv s" and P: "\<And>p q. inside p \<Longrightarrow> P p q" "P Idle (Want (Call_with n))"
    and s: "pcs s i = Idle" "mutex s = None" "slot_of (mgr s) n = Live x ev"
      "ilock s (instance_index n) = None"
  shows "\<exists>t. lpath P i s t \<and> pcs t = (pcs s)(i := With_call n x ev) \<and> mutex t = None \<and>
    ilock t = (ilock s)(instance_index n := Some i) \<and> mgr t = mgr s"
proof -
  obtain t where t: "lpath P i s t"
    "pcs t = (pcs s)(i := With_lock n)" "mutex t = Some i" "ilock t = ilock s" "mgr t = mgr s"
    using reach_wait [of s P n i x ev] inv P s(1-3) by blast
  let ?t1 = "t\<lparr>pcs := (pcs s)(i := With_got n (Some x) (Some ev)),
               ilock := (ilock t)(instance_index n := Some i)\<rparr>"
  let ?t2 = "?t1\<lparr>pcs := (pcs s)(i := With_call n x ev), mutex := None\<rparr>"
  have "manager_inv (mgr s)" using inv by (simp add: locking_inv_def slots_inv_def)
  then have p: "object_p (instances (mgr s) ! instance_index n) = Some x"
      "events_p (instances (mgr s) ! instance_index n) = Some ev"
    using s(3) by (auto elim: slot_of_cases [where n = n])
  have "lstep i t ?t1"
    using lstep.with_lock [of t i n "instances (mgr t) ! instance_index n"] t s p by simp
  moreover have "lstep i ?t1 ?t2"
    using lstep.with_unlock_manager [of ?t1 i n x ev] by simp
  ultimately have "lpath P i t ?t2" by (rule lpath_two) (use P t(2) in \<open>simp_all add: inside_def\<close>)
  from lpath_trans [OF this t(1)] t show ?thesis by (intro exI [of _ ?t2]) simp
qed

text \<open>
  A run with two instances: thread 0 is inside a call on instance 1, thread 1 waits for
  that instance, thread 2 wants to call instance 2.
\<close>

definition example_envs :: "nat \<Rightarrow> jenv" where
  "example_envs = (\<lambda>_. \<lparr>jvm_of = complete_vm, pending = None\<rparr>)"

lemma example_envs_basic [simp]: "vm_basic (jvm_of (example_envs j))"
  by (simp add: example_envs_def)

lemma example_call:
  "\<exists>s :: (nat, nat) locking. lreach example_envs s \<and>
     pcs s = (\<lambda>_. Idle)(0 := With_call 1 10 11) \<and> mutex s = None \<and> length (instances (mgr s)) = 2 \<and>
     slot_of (mgr s) 1 = Live 10 11 \<and> slot_of (mgr s) 2 = Live 20 21"
proof -
  let ?s0 = "idle_locking example_envs :: (nat, nat) locking"
  have s0: "pcs ?s0 = (\<lambda>_. Idle)" "mutex ?s0 = None" "ilock ?s0 = (\<lambda>_. None)"
      "freelist (mgr ?s0) = []" "length (instances (mgr ?s0)) = 0"
    by (simp_all add: idle_locking_def empty_manager_def)
  obtain s1 :: "(nat, nat) locking" where s1: "lreach example_envs s1" "pcs s1 = (\<lambda>_. Idle)"
      "mutex s1 = None" "ilock s1 = (\<lambda>_. None)" "freelist (mgr s1) = []"
      "length (instances (mgr s1)) = 1" "slot_of (mgr s1) 1 = Live 10 11"
    using reach_add [OF locking_inv_idle [of example_envs, OF example_envs_basic], of "\<lambda>_ _. True" "10 :: nat" "11 :: nat" 0] s0
    by (auto simp: has_room_def new_number_def dest!: lreach_path [OF _ lreach_start])
  obtain s2 :: "(nat, nat) locking" where s2: "lreach example_envs s2" "pcs s2 = (\<lambda>_. Idle)"
      "mutex s2 = None" "ilock s2 = (\<lambda>_. None)"
      "length (instances (mgr s2)) = 2" "slot_of (mgr s2) 1 = Live 10 11" "slot_of (mgr s2) 2 = Live 20 21"
    using reach_add [OF lreach_inv [OF s1(1) example_envs_basic], of "\<lambda>_ _. True" 20 21 0] s1(2-)
    by (auto simp: has_room_def new_number_def dest!: lreach_path [OF _ s1(1)])
  from reach_call [OF lreach_inv [OF s2(1) example_envs_basic], of "\<lambda>_ _. True" 1 0 10 11] s2(2-)
  show ?thesis by (auto simp: has_room_def dest!: lreach_path [OF _ s2(1)])
qed

lemma example_wait:
  "\<exists>s :: (nat, nat) locking. lreach example_envs s \<and> pcs s 0 = With_call 1 10 11 \<and>
     pcs s 1 = With_lock 1 \<and> pcs s 2 = Want (Call_with 2) \<and> slot_of (mgr s) 2 = Live 20 21"
proof -
  obtain s :: "(nat, nat) locking" where s: "lreach example_envs s"
     "pcs s = (\<lambda>_. Idle)(0 := With_call 1 10 11)" "mutex s = None"
     "slot_of (mgr s) 1 = Live 10 11" "slot_of (mgr s) 2 = Live 20 21"
    using example_call by blast
  let ?t = "s\<lparr>pcs := (pcs s)(2 := Want (Call_with 2)),
             envs := (envs s)(2 := (envs s 2)\<lparr>pending := None\<rparr>)\<rparr>"
  have "lstep 2 s ?t" using s(2) by (intro lstep.enter_call) simp
  with s(1) have t: "lreach example_envs ?t" by (rule lreach_step)
  obtain u where u: "lpath (\<lambda>_ _. True) 1 ?t u" "pcs u = (pcs ?t)(1 := With_lock 1)" "mgr u = mgr ?t"
    using reach_wait [OF lreach_inv [OF t example_envs_basic], of "\<lambda>_ _. True" 1 1 10 11] s(2-) by auto
  with lreach_path [OF u(1) t] s show ?thesis by (intro exI [of _ u]) simp
qed

section \<open>Correctness of the locking\<close>

text \<open>
  C2. Mutual exclusion: no two threads are ever inside a call on the same instance,
  whatever the interleaving of adds, kills, finalizes and accesses.
\<close>

theorem instance_mutual_exclusion:
  assumes "lreach es s" and "\<And>j. vm_basic (jvm_of (es j))"
    and "pcs s i = With_call n x ev" and "pcs s j = With_call n x' ev'"
  shows "i = j"
proof -
  from assms(1,2) have "locking_inv s" by (rule lreach_inv)
  with assms(3,4) ilock_invD [of s i n] ilock_invD [of s j n] show ?thesis
    by (simp add: locking_inv_def)
qed

theorem instance_mutual_exclusion_witness:
  "\<exists>s :: (nat, nat) locking. lreach example_envs s \<and> pcs s 0 = With_call 1 10 11 \<and>
     (\<forall>j. pcs s j = With_call 1 10 11 \<longrightarrow> 0 = j)"
proof -
  obtain s :: "(nat, nat) locking" where s: "lreach example_envs s" "pcs s 0 = With_call 1 10 11"
      "pcs s 1 = With_lock 1" "pcs s 2 = Want (Call_with 2)" "slot_of (mgr s) 2 = Live 20 21"
    using example_wait by blast
  have "\<forall>j. pcs s j = With_call 1 10 11 \<longrightarrow> 0 = j"
    using instance_mutual_exclusion [OF s(1) example_envs_basic s(2)] by blast
  with s show ?thesis by blast
qed

text \<open>
  C3. No use after free: while a thread runs a function on the raw pointers of instance
  \<open>n\<close>, having released the manager mutex, the manager still owns exactly that object and
  those events under \<open>n\<close>; no concurrent kill can have deleted them.
\<close>

theorem object_owned_during_call:
  assumes "lreach es s" and "\<And>j. vm_basic (jvm_of (es j))"
    and "pcs s i = With_call n x ev"
  shows "slot_of (mgr s) n = Live x ev \<and> x \<in># live_objects (mgr s)"
proof -
  from assms(1,2) have inv: "locking_inv s" by (rule lreach_inv)
  with assms(3) have live: "slot_of (mgr s) n = Live x ev"
    by (metis locking_inv_def pc_ok.simps(5) slots_inv_def)
  from inv have m: "manager_inv (mgr s)" by (simp add: locking_inv_def slots_inv_def)
  from m live have n: "in_table (mgr s) n"
      "object_p (instances (mgr s) ! instance_index n) = Some x"
    by (auto elim: slot_of_cases [where n = n])
  have "x \<in> set (owned (instances (mgr s) ! instance_index n))"
    using n(2) by (simp add: owned_def)
  then have "x \<in> set (concat (map owned (instances (mgr s))))"
    using nth_mem [OF instance_index_less [OF n(1)]] by auto
  with live show ?thesis by (simp add: live_objects_def)
qed

theorem object_owned_during_call_witness:
  "\<exists>s :: (nat, nat) locking. lreach example_envs s \<and> pcs s 0 = With_call 1 10 11 \<and>
     slot_of (mgr s) 1 = Live 10 11 \<and> 10 \<in># live_objects (mgr s)"
proof -
  obtain s :: "(nat, nat) locking" where s: "lreach example_envs s" "pcs s 0 = With_call 1 10 11"
      "pcs s 1 = With_lock 1" "pcs s 2 = Want (Call_with 2)" "slot_of (mgr s) 2 = Live 20 21"
    using example_wait by blast
  from object_owned_during_call [OF s(1) example_envs_basic s(2)] s show ?thesis by blast
qed

text \<open>
  C19. No deadlock: as long as some thread is inside the manager, some thread can take a
  step that brings its own call closer to its end.
\<close>

theorem locking_no_deadlock:
  assumes "lreach es s" and "\<And>j. vm_basic (jvm_of (es j))"
    and "pcs s i \<noteq> Idle" and "has_room (mgr s)"
  shows "\<exists>k. pcs s k \<noteq> Idle \<and> advances k s"
  using inside_advances [OF lreach_inv [OF assms(1,2)] assms(3,4)] .

theorem locking_no_deadlock_witness:
  "\<exists>s :: (nat, nat) locking. lreach example_envs s \<and> pcs s 0 = With_call 1 10 11 \<and>
     (\<exists>k. pcs s k \<noteq> Idle \<and> advances k s)"
proof -
  obtain s :: "(nat, nat) locking" where s: "lreach example_envs s"
     "pcs s = (\<lambda>_. Idle)(0 := With_call 1 10 11)" "length (instances (mgr s)) = 2"
    using example_call by blast
  then have "has_room (mgr s)" by (simp add: has_room_def)
  note s = s(1,2) this
  from locking_no_deadlock [OF s(1) example_envs_basic, where i = 0] s(2,3) have
    "\<exists>k. pcs s k \<noteq> Idle \<and> advances k s" by simp
  with s(1,2) show ?thesis by (intro exI [of _ s]) simp
qed

text \<open>
  C20. A thread that waits for a busy instance does so while it holds the manager mutex: as
  long as the call on instance \<open>n\<close> runs, neither the waiting thread nor any thread that
  wants to enter the manager, for whatever instance, can take a step. So calls on
  different instances run concurrently only while nobody waits for a busy one.
\<close>

theorem busy_instance_blocks_manager:
  assumes "lreach es s" and "\<And>j. vm_basic (jvm_of (es j))"
    and "pcs s i = With_call n x ev" and "pcs s j = With_lock n" and "pcs s k = Want c"
  shows "(\<nexists>t. lstep j s t) \<and> (\<nexists>t. lstep k s t)"
proof -
  from assms(1,2) have inv: "locking_inv s" by (rule lreach_inv)
  with assms(3) have busy: "ilock s (instance_index n) = Some i"
    by (simp add: locking_inv_def ilock_invD)
  from inv assms(4) have "mutex s = Some j"
    by (metis has_mutex.simps(7) locking_inv_def mutex_inv_def)
  with busy assms(4,5) show ?thesis by (auto elim: lstep.cases)
qed

theorem busy_instance_blocks_manager_witness:
  "\<exists>s :: (nat, nat) locking. lreach example_envs s \<and> slot_of (mgr s) 2 = Live 20 21 \<and>
     pcs s 2 = Want (Call_with 2) \<and> (\<nexists>t. lstep 1 s t) \<and> (\<nexists>t. lstep 2 s t)"
proof -
  obtain s :: "(nat, nat) locking" where s: "lreach example_envs s" "pcs s 0 = With_call 1 10 11"
      "pcs s 1 = With_lock 1" "pcs s 2 = Want (Call_with 2)" "slot_of (mgr s) 2 = Live 20 21"
    using example_wait by blast
  from busy_instance_blocks_manager [OF s(1) example_envs_basic s(2-4)] s show ?thesis by blast
qed

end
