(* ===== verification/Log_Locking.thy ===== *)
theory Log_Locking
  imports Instance_Locking
begin

text \<open>
  The mutex of the debug log (\<open>util/debug_log.cpp\<close>) beside the mutexes of an instance manager.
  An entry of the log keeps the mutex from its creation to its destruction, so a thread
  holds it during the whole toxcore call, and in a constructor also while the new object is
  added to the manager.
\<close>

section \<open>Threads and their steps\<close>

text \<open>
  Where a thread is with its log entry: it has none yet, it waits for the mutex in \<open>new_entry\<close>, it
  has an entry, or it is past it (the log is disabled or full, or the entry was destroyed).
\<close>

datatype log_pc = No_entry | Opening | Open | Closed

record ('o, 'e) logging =
  base :: "('o, 'e) locking"
  log_owner :: "nat option"
  lpcs :: "nat \<Rightarrow> log_pc"

text \<open>
  What a thread may do to a manager: constructors call \<open>add\<close> in the scope of their entry, the other
  calls open theirs when they have the instance; \<open>kill\<close> and \<open>finalize\<close> are not logged.
\<close>

definition may_step :: "log_pc \<Rightarrow> ('o, 'e) pc \<Rightarrow> ('o, 'e) pc \<Rightarrow> bool" where
  "may_step l p q \<longleftrightarrow>
    (case p of
       Idle \<Rightarrow> (case q of Want c \<Rightarrow> (case c of Call_add x ev \<Rightarrow> l = Open \<or> l = Closed | _ \<Rightarrow> l = No_entry)
                | _ \<Rightarrow> l = No_entry)
     | With_call n x ev \<Rightarrow> (case q of Idle \<Rightarrow> l = Closed | _ \<Rightarrow> l = Open \<or> l = Closed)
     | _ \<Rightarrow> True)"

text \<open>The places where an entry is opened: a constructor, or a call on an instance.\<close>

fun opens_entry :: "('o, 'e) pc \<Rightarrow> bool" where
  "opens_entry Idle = True"
| "opens_entry (With_call n x ev) = True"
| "opens_entry _ = False"

text \<open>
  \<open>entry_wanted\<close> to \<open>entry_taken\<close> is \<open>new_entry\<close>. An entry may also be opened after one was closed: by the
  callbacks that run during a call, when the entry of the call itself is null.
\<close>

inductive gstep :: "nat \<Rightarrow> ('o, 'e) logging \<Rightarrow> ('o, 'e) logging \<Rightarrow> bool" for i where
  manager_step: "lstep i (base s) b \<Longrightarrow> may_step (lpcs s i) (pcs (base s) i) (pcs b i) \<Longrightarrow>
    gstep i s (s\<lparr>base := b\<rparr>)"
| log_disabled: "opens_entry (pcs (base s) i) \<Longrightarrow> lpcs s i = No_entry \<Longrightarrow>
    gstep i s (s\<lparr>lpcs := (lpcs s)(i := Closed)\<rparr>)"
| entry_wanted: "opens_entry (pcs (base s) i) \<Longrightarrow> lpcs s i = No_entry \<or> lpcs s i = Closed \<Longrightarrow>
    gstep i s (s\<lparr>lpcs := (lpcs s)(i := Opening)\<rparr>)"
| entry_taken: "lpcs s i = Opening \<Longrightarrow> log_owner s = None \<Longrightarrow>
    gstep i s (s\<lparr>lpcs := (lpcs s)(i := Open), log_owner := Some i\<rparr>)"
| entry_destroyed: "opens_entry (pcs (base s) i) \<Longrightarrow> lpcs s i = Open \<Longrightarrow>
    gstep i s (s\<lparr>lpcs := (lpcs s)(i := Closed), log_owner := None\<rparr>)"
| returned: "pcs (base s) i = Idle \<Longrightarrow> lpcs s i = Closed \<Longrightarrow>
    gstep i s (s\<lparr>lpcs := (lpcs s)(i := No_entry)\<rparr>)"

inductive_cases gstepE: "gstep i s t"

definition idle_logging :: "(nat \<Rightarrow> jenv) \<Rightarrow> ('o, 'e) logging" where
  "idle_logging es = \<lparr>base = idle_locking es, log_owner = None, lpcs = (\<lambda>_. No_entry)\<rparr>"

inductive greach :: "(nat \<Rightarrow> jenv) \<Rightarrow> ('o, 'e) logging \<Rightarrow> bool" for es where
  greach_start: "greach es (idle_logging es)"
| greach_step: "greach es s \<Longrightarrow> gstep i s t \<Longrightarrow> greach es t"

inductive gsteps :: "('o, 'e) logging \<Rightarrow> ('o, 'e) logging \<Rightarrow> bool" where
  gsteps_refl: "gsteps s s"
| gsteps_step: "gsteps s t \<Longrightarrow> gstep i t u \<Longrightarrow> gsteps s u"

section \<open>Invariant\<close>

definition log_inv :: "('o, 'e) logging \<Rightarrow> bool" where
  "log_inv s \<longleftrightarrow> (\<forall>j. lpcs s j = Open \<longleftrightarrow> log_owner s = Some j)"

lemma log_inv_step: "gstep i s t \<Longrightarrow> log_inv s \<Longrightarrow> log_inv t"
  by (induction rule: gstep.induct) (simp_all add: log_inv_def, (metis log_pc.distinct option.inject)+)

lemma greach_log_inv: "greach es s \<Longrightarrow> log_inv s"
  by (induction rule: greach.induct) (auto simp: log_inv_def idle_logging_def dest: log_inv_step [unfolded log_inv_def])

lemma gstep_base: "gstep i s t \<Longrightarrow> base t = base s \<or> lstep i (base s) (base t)"
  by (induction rule: gstep.induct) auto

lemma greach_base: "greach es s \<Longrightarrow> lreach es (base s)"
proof (induction rule: greach.induct)
  case greach_start
  show ?case by (simp add: idle_logging_def lreach_start)
next
  case (greach_step s i t)
  then show ?case using gstep_base [of i s t] by (auto intro: lreach_step)
qed

section \<open>A deadlock\<close>

text \<open>
  Thread \<open>a\<close> is in a constructor, has the log and wants the manager; thread \<open>b\<close> has the manager and
  waits for an instance; thread \<open>c\<close> has that instance and waits for the log.
\<close>

definition deadlocked :: "nat \<Rightarrow> nat \<Rightarrow> nat \<Rightarrow> jint \<Rightarrow> 'o \<Rightarrow> 'e \<Rightarrow> 'o \<Rightarrow> 'e \<Rightarrow> ('o, 'e) logging \<Rightarrow> bool" where
  "deadlocked a b c n x ev y ev' s \<longleftrightarrow>
     pcs (base s) a = Want (Call_add x ev) \<and> lpcs s a = Open \<and>
     pcs (base s) b = With_lock n \<and>
     pcs (base s) c = With_call n y ev' \<and> lpcs s c = Opening"

lemma deadlocked_owners:
  assumes "deadlocked a b c n x ev y ev' s" and "locking_inv (base s)" and "log_inv s"
  shows "log_owner s = Some a" and "mutex (base s) = Some b" and "ilock (base s) (instance_index n) = Some c"
proof -
  show "log_owner s = Some a" using assms(1,3) by (simp add: deadlocked_def log_inv_def)
  have "has_mutex (pcs (base s) b)" using assms(1) by (simp add: deadlocked_def)
  with assms(2) show "mutex (base s) = Some b" by (simp add: locking_inv_def mutex_inv_def)
  have "has_instance (pcs (base s) c) = Some n" using assms(1) by (simp add: deadlocked_def)
  with assms(2) show "ilock (base s) (instance_index n) = Some c" by (simp add: locking_inv_def ilock_inv_def)
qed

lemma lstep_other: "lstep i s t \<Longrightarrow> j \<noteq> i \<Longrightarrow> pcs t j = pcs s j"
  by (induction rule: lstep.induct) auto

lemma gstep_other: "gstep i s t \<Longrightarrow> j \<noteq> i \<Longrightarrow> pcs (base t) j = pcs (base s) j \<and> lpcs t j = lpcs s j"
  by (induction rule: gstep.induct) (auto dest: lstep_other)

lemma deadlocked_stuck:
  assumes d: "deadlocked a b c n x ev y ev' s" and inv: "locking_inv (base s)" "log_inv s"
  shows "\<not> gstep a s t" and "\<not> gstep b s t" and "\<not> gstep c s t"
proof -
  note own = deadlocked_owners [OF d inv]
  show "\<not> gstep a s t"
    using d own by (auto simp: deadlocked_def may_step_def elim!: gstepE lstep.cases)
  show "\<not> gstep b s t"
    using d own by (auto simp: deadlocked_def may_step_def elim!: gstepE lstep.cases)
  show "\<not> gstep c s t"
    using d own by (auto simp: deadlocked_def may_step_def elim!: gstepE lstep.cases)
qed

lemma deadlocked_step:
  assumes "deadlocked a b c n x ev y ev' s" and "locking_inv (base s)" "log_inv s" and "gstep i s t"
  shows "deadlocked a b c n x ev y ev' t"
proof -
  have "i \<noteq> a" "i \<noteq> b" "i \<noteq> c" using deadlocked_stuck [OF assms(1-3)] assms(4) by auto
  with gstep_other [OF assms(4)] assms(1) show ?thesis by (simp add: deadlocked_def)
qed

lemma deadlocked_forever:
  assumes "gsteps s t" and "greach es s" and vm: "\<And>j. vm_basic (jvm_of (es j))"
    and "deadlocked a b c n x ev y ev' s"
  shows "greach es t \<and> deadlocked a b c n x ev y ev' t"
  using assms(1,2,4)
proof (induction rule: gsteps.induct)
  case (gsteps_step s t i u)
  then have t: "greach es t" "deadlocked a b c n x ev y ev' t" by simp_all
  note inv = lreach_inv [OF greach_base [OF t(1)] vm] greach_log_inv [OF t(1)]
  show ?case using deadlocked_step [OF t(2) inv gsteps_step.hyps(2)] greach_step [OF t(1) gsteps_step.hyps(2)] by simp
qed simp

text \<open>
  C25. With the log enabled three threads can block each other for ever: one in a constructor
  that has the log and wants the manager mutex, one that has the manager mutex and waits
  for a busy instance, and the one inside the call on that instance, which waits for the
  log. Whatever all other threads do, none of the three takes another step.
\<close>

theorem log_deadlock:
  assumes "greach es s" and "\<And>j. vm_basic (jvm_of (es j))"
    and "pcs (base s) a = Want (Call_add x ev)" and "lpcs s a = Open"
    and "pcs (base s) b = With_lock n"
    and "pcs (base s) c = With_call n y ev'" and "lpcs s c = Opening"
    and "gsteps s t"
  shows "pcs (base t) a = Want (Call_add x ev) \<and> pcs (base t) b = With_lock n \<and>
    pcs (base t) c = With_call n y ev' \<and>
    \<not> (\<exists>u. gstep a t u) \<and> \<not> (\<exists>u. gstep b t u) \<and> \<not> (\<exists>u. gstep c t u)"
proof -
  have "deadlocked a b c n x ev y ev' s" using assms(3-7) by (simp add: deadlocked_def)
  from deadlocked_forever [OF assms(8,1,2) this]
  have t: "greach es t" "deadlocked a b c n x ev y ev' t" by simp_all
  note inv = lreach_inv [OF greach_base [OF t(1)] assms(2)] greach_log_inv [OF t(1)]
  from t(2) deadlocked_stuck [OF t(2) inv] show ?thesis by (auto simp: deadlocked_def)
qed

section \<open>A run into the deadlock\<close>

lemma greach_path:
  assumes "lpath (may_step (lpcs s i)) i b b'" and "base s = b" and "greach es s"
  shows "greach es (s\<lparr>base := b'\<rparr>)"
  using assms
proof (induction rule: lpath.induct)
  case (lpath_step b t u)
  then have "greach es (s\<lparr>base := t\<rparr>)" by simp
  moreover have "gstep i (s\<lparr>base := t\<rparr>) (s\<lparr>base := t\<rparr>\<lparr>base := u\<rparr>)"
    using lpath_step.hyps by (intro manager_step) simp_all
  ultimately show ?case using greach_step by fastforce
next
  case (lpath_refl b)
  then show ?case by (metis logging.surjective logging.update_convs(1))
qed

lemma may_step_inside: "inside p \<Longrightarrow> may_step l p q"
  by (cases p) (auto simp: inside_def may_step_def)

lemma may_step_calls:
  "may_step No_entry Idle (Want (Call_with n))" "may_step Closed Idle (Want (Call_add x ev))"
  "may_step Open Idle (Want (Call_add x ev))"
  by (simp_all add: may_step_def)

lemma example_deadlock:
  "\<exists>s :: (nat, nat) logging. greach example_envs s \<and>
     pcs (base s) = (\<lambda>_. Idle)(0 := Want (Call_add 20 21), 1 := With_lock 1, 2 := With_call 1 10 11) \<and>
     lpcs s = (\<lambda>_. No_entry)(0 := Open, 2 := Opening)"
proof -
  note inv = lreach_inv [OF greach_base example_envs_basic]
  let ?s1 = "(idle_logging example_envs)\<lparr>lpcs := (\<lambda>_. No_entry)(0 := Closed)\<rparr> :: (nat, nat) logging"
  have "gstep 0 (idle_logging example_envs) ?s1"
    using log_disabled [of "idle_logging example_envs" 0] by (simp add: idle_logging_def idle_locking_def)
  then have s1: "greach example_envs ?s1" by (rule greach_step [OF greach_start])
  obtain b1 where b1: "lpath (may_step (lpcs ?s1 0)) 0 (base ?s1) b1" "pcs b1 = (\<lambda>_. Idle)" "mutex b1 = None"
      "ilock b1 = (\<lambda>_. None)" "slot_of (mgr b1) 1 = Live 10 11"
    using reach_add [where P = "may_step Closed" and i = 0, OF inv [OF s1] may_step_inside may_step_calls(2) [of 10 11]]
    by (auto simp: idle_logging_def idle_locking_def empty_manager_def has_room_def new_number_def)
  let ?s2 = "?s1\<lparr>base := b1\<rparr>" and ?l = "(\<lambda>_. No_entry)(0 := Opening)"
  have "gstep 0 ?s2 (?s2\<lparr>lpcs := ?l\<rparr>)" using entry_wanted [of ?s2 0] b1(2) by simp
  moreover have "gstep 0 (?s2\<lparr>lpcs := ?l\<rparr>) (?s2\<lparr>lpcs := (\<lambda>_. No_entry)(0 := Open), log_owner := Some 0\<rparr>)"
    using entry_taken [of "?s2\<lparr>lpcs := ?l\<rparr>" 0] by (simp add: idle_logging_def)
  ultimately have s3: "greach example_envs (?s2\<lparr>lpcs := (\<lambda>_. No_entry)(0 := Open), log_owner := Some 0\<rparr>)"
    using greach_path [OF b1(1) refl s1] by (meson greach_step)
  let ?s3 = "?s2\<lparr>lpcs := (\<lambda>_. No_entry)(0 := Open), log_owner := Some 0\<rparr>"
  obtain b2 where b2: "lpath (may_step (lpcs ?s3 2)) 2 (base ?s3) b2"
      "pcs b2 = (\<lambda>_. Idle)(2 := With_call 1 10 11)" "mutex b2 = None" "slot_of (mgr b2) 1 = Live 10 11"
    using reach_call [where P = "may_step No_entry" and i = 2, OF inv [OF s3] may_step_inside may_step_calls(1) [of 1],
        of 10 11] b1(2-)
    by auto
  let ?s4 = "?s3\<lparr>base := b2\<rparr>"
  let ?s5 = "?s4\<lparr>lpcs := (\<lambda>_. No_entry)(0 := Open, 2 := Opening)\<rparr>"
  have "gstep 2 ?s4 ?s5" using entry_wanted [of ?s4 2] b2(2) by simp
  then have s5: "greach example_envs ?s5" using greach_path [OF b2(1) refl s3] by (meson greach_step)
  obtain b3 where b3: "lpath (may_step (lpcs ?s5 1)) 1 (base ?s5) b3"
      "pcs b3 = (\<lambda>_. Idle)(2 := With_call 1 10 11, 1 := With_lock 1)"
    using reach_wait [where P = "may_step No_entry" and i = 1, OF inv [OF s5] may_step_inside may_step_calls(1) [of 1],
        of 10 11] b2(2-)
    by auto
  let ?b4 = "b3\<lparr>pcs := (pcs b3)(0 := Want (Call_add 20 21)),
      envs := (envs b3)(0 := (envs b3 0)\<lparr>pending := None\<rparr>)\<rparr>"
  have "lstep 0 b3 ?b4" using b3(2) by (intro lstep.enter_call) simp
  then have "gstep 0 (?s5\<lparr>base := b3\<rparr>) (?s5\<lparr>base := b3\<rparr>\<lparr>base := ?b4\<rparr>)"
    using b3(2) may_step_calls(3) by (intro manager_step) simp_all
  then have "greach example_envs (?s5\<lparr>base := ?b4\<rparr>)"
    using greach_path [OF b3(1) refl s5] greach_step by fastforce
  moreover have "pcs ?b4 = (\<lambda>_. Idle)(0 := Want (Call_add 20 21), 1 := With_lock 1, 2 := With_call 1 10 11)"
    using b3(2) by auto
  ultimately show ?thesis by (intro exI [of _ "?s5\<lparr>base := ?b4\<rparr>"]) simp
qed

theorem log_deadlock_witness:
  "\<exists>s t :: (nat, nat) logging. greach example_envs s \<and> gstep 3 s t \<and>
     pcs (base t) 2 = With_call 1 10 11 \<and>
     \<not> (\<exists>u. gstep 0 t u) \<and> \<not> (\<exists>u. gstep 1 t u) \<and> \<not> (\<exists>u. gstep 2 t u)"
proof -
  obtain s :: "(nat, nat) logging" where s: "greach example_envs s"
     "pcs (base s) = (\<lambda>_. Idle)(0 := Want (Call_add 20 21), 1 := With_lock 1, 2 := With_call 1 10 11)"
     "lpcs s = (\<lambda>_. No_entry)(0 := Open, 2 := Opening)"
    using example_deadlock by blast
  let ?t = "s\<lparr>lpcs := (lpcs s)(3 := Closed)\<rparr>"
  have t: "gstep 3 s ?t" using s(2,3) by (intro log_disabled) simp_all
  from log_deadlock [OF s(1) example_envs_basic, of 0 20 21 1 1 2 10 11 ?t] s(2,3)
    gsteps_step [OF gsteps_refl t]
  have "pcs (base ?t) 2 = With_call 1 10 11 \<and>
     \<not> (\<exists>u. gstep 0 ?t u) \<and> \<not> (\<exists>u. gstep 1 ?t u) \<and> \<not> (\<exists>u. gstep 2 ?t u)" by simp
  with s(1) t show ?thesis by blast
qed

end
