(* ===== verification/Java_Arrays.thy ===== *)
theory Java_Arrays
  imports Exceptions
begin

text \<open>
  \<open>util/jni/*.h\<close> and \<open>util/to_bytes.h\<close>: Java arrays and strings as the native code reads
  and makes them, and the big-endian serialisation of sample buffers. A Java reference
  is an option (\<open>None\<close> is null), and \<open>jbyte\<close>/\<open>uint8_t\<close>, \<open>jshort\<close>/\<open>int16_t\<close> share their
  word, as the \<open>reinterpret_cast\<close>s of the code do.
\<close>

unbundle bit_operations_syntax

section \<open>Arrays from Java\<close>

type_synonym 'a jarray = "'a list option"

text \<open>\<open>MakeArrayFromJava\<close>: the elements are fetched by the constructor, unless null.\<close>

definition fromJavaArray :: "'a jarray \<Rightarrow> ('z jenv_scheme, 'a jarray) prog" where
  "fromJavaArray jArray =
     andThen (if jArray \<noteq> None then jni_call ''GetArrayElements'' else ret ()) (\<lambda>_. ret jArray)"

definition array_size :: "'a jarray \<Rightarrow> ('z jenv_scheme, nat) prog" where
  "array_size arr =
     (case arr of None \<Rightarrow> ret 0
      | Some xs \<Rightarrow> andThen (jni_call ''GetArrayLength'') (\<lambda>_. ret (length xs)))"

abbreviation array_len :: "'a jarray \<Rightarrow> nat" where
  "array_len arr \<equiv> (case arr of None \<Rightarrow> 0 | Some xs \<Rightarrow> length xs)"

text \<open>A Java array has fewer than $2^{31}$ elements.\<close>

definition java_array :: "'a jarray \<Rightarrow> bool" where
  "java_array arr \<longleftrightarrow> array_len arr < 2 ^ 31"

section \<open>Arrays to Java\<close>

text \<open>
  \<open>MakeArrayToJava::make\<close>: the size is converted to \<open>jsize\<close>; \<open>New<Type>Array\<close> has no
  defined result for a negative size.
\<close>

definition make_array :: "jint \<Rightarrow> 'a list \<Rightarrow> ('z jenv_scheme, 'a jarray) prog" where
  "make_array sz data =
     andThen (jni_call ''NewArray'') (\<lambda>_.
     if sint sz < 0 then fail (UB ''negative array size'')
     else andThen (jni_call ''SetArrayRegion'') (\<lambda>_. ret (Some (take (unat sz) data))))"

definition toJavaArray :: "'a list \<Rightarrow> ('z jenv_scheme, 'a jarray) prog" where
  "toJavaArray data = make_array (word_of_nat (length data)) data"

section \<open>Strings\<close>

text \<open>
  A \<open>jstring\<close> is read as modified UTF-8, which has no embedded NUL: the C string and the
  counted string are the same bytes.
\<close>

type_synonym jstring = "string option"

definition utf_chars :: "jstring \<Rightarrow> ('z jenv_scheme, string option) prog" where
  "utf_chars str =
     andThen (if str \<noteq> None then jni_call ''GetStringUTFChars'' else ret ()) (\<lambda>_. ret str)"

definition utf_to_string :: "jstring \<Rightarrow> string" where
  "utf_to_string str = (case str of None \<Rightarrow> '''' | Some cs \<Rightarrow> cs)"

section \<open>Serialisation of integers\<close>

text \<open>An output iterator into a \<open>std::string\<close>: the buffer and the position.\<close>

type_synonym out_iter = "uint8 list \<times> nat"

definition put_byte :: "uint32 \<Rightarrow> out_iter \<Rightarrow> ('s, out_iter) prog" where
  "put_byte w out =
     (if snd out < length (fst out)
      then ret ((fst out)[snd out := ucast w], Suc (snd out))
      else fail (UB ''write past the end of a string''))"

definition to_bytes_uint32 :: "out_iter \<Rightarrow> uint32 \<Rightarrow> ('s, out_iter) prog" where
  "to_bytes_uint32 output value =
     andThen (put_byte (drop_bit (8 * 3) value AND 0xff) output) (\<lambda>output.
     andThen (put_byte (drop_bit (8 * 2) value AND 0xff) output) (\<lambda>output.
     andThen (put_byte (drop_bit (8 * 1) value AND 0xff) output) (\<lambda>output.
     put_byte (drop_bit (8 * 0) value AND 0xff) output)))"

text \<open>The operand is promoted to \<open>int\<close>, and \<open>>>\<close> on a negative \<open>int\<close> keeps the sign.\<close>

definition to_bytes_int16 :: "out_iter \<Rightarrow> jshort \<Rightarrow> ('s, out_iter) prog" where
  "to_bytes_int16 output value =
    (let promoted = scast value :: uint32 in
     andThen (put_byte (signed_drop_bit (8 * 1) promoted AND 0xff) output) (\<lambda>output.
     put_byte (signed_drop_bit (8 * 0) promoted AND 0xff) output))"

fun to_bytes_loop ::
  "(out_iter \<Rightarrow> 'v \<Rightarrow> ('s, out_iter) prog) \<Rightarrow> 'v list \<Rightarrow> out_iter \<Rightarrow> ('s, out_iter) prog" where
  "to_bytes_loop put [] output = ret output"
| "to_bytes_loop put (value # rest) output =
     andThen (put output value) (\<lambda>output. to_bytes_loop put rest output)"

text \<open>\<open>std::string::resize\<close> keeps a prefix and pads with NUL.\<close>

definition resize :: "nat \<Rightarrow> uint8 list \<Rightarrow> uint8 list" where
  "resize n bytes = take n bytes @ replicate (n - length bytes) 0"

definition to_bytes ::
  "(out_iter \<Rightarrow> 'v \<Rightarrow> ('s, out_iter) prog) \<Rightarrow> nat \<Rightarrow> 'v list \<Rightarrow> uint8 list \<Rightarrow> ('s, uint8 list) prog" where
  "to_bytes put size_of values bytes =
     andThen (to_bytes_loop put values (resize (length values * size_of) bytes, 0))
       (\<lambda>output. ret (fst output))"

text \<open>
  What the Java side does with such bytes (\<open>toShortArray\<close> of \<open>ToxAvEventDispatch.kt\<close>): \<open>ByteBuffer\<close> reads are
  big-endian.
\<close>

fun from_bytes_int16 :: "uint8 list \<Rightarrow> jshort list" where
  "from_bytes_int16 (hi # lo # rest) = (push_bit 8 (ucast hi) OR ucast lo) # from_bytes_int16 rest"
| "from_bytes_int16 _ = []"

fun from_bytes_uint32 :: "uint8 list \<Rightarrow> uint32 list" where
  "from_bytes_uint32 (a # b # c # d # rest) =
     (push_bit 24 (ucast a) OR push_bit 16 (ucast b) OR push_bit 8 (ucast c) OR ucast d)
       # from_bytes_uint32 rest"
| "from_bytes_uint32 _ = []"

section \<open>Lemmas\<close>

lemma fromJavaArray_Done: "pending s = None \<Longrightarrow> fromJavaArray a s = Done (a, s)"
  by (simp add: fromJavaArray_def jni_call_def andThen_def)

lemma array_size_Done: "pending s = None \<Longrightarrow> array_size a s = Done (array_len a, s)"
  by (cases a) (simp_all add: array_size_def jni_call_def andThen_def)

lemma utf_chars_Done: "pending s = None \<Longrightarrow> utf_chars str s = Done (str, s)"
  by (simp add: utf_chars_def jni_call_def andThen_def)

lemma wp_fromJavaArray [wp_simps]:
  "wp (fromJavaArray a) Q s \<longleftrightarrow> (a = None \<or> pending s = None) \<and> Q a s"
  by (auto simp: fromJavaArray_def wp_simps)

lemma wp_array_size [wp_simps]:
  "wp (array_size a) Q s \<longleftrightarrow> (a = None \<or> pending s = None) \<and> Q (array_len a) s"
  by (cases a) (auto simp: array_size_def wp_simps)

lemma wp_utf_chars [wp_simps]:
  "wp (utf_chars a) Q s \<longleftrightarrow> (a = None \<or> pending s = None) \<and> Q a s"
  by (auto simp: utf_chars_def wp_simps)

lemma length_word_of_nat:
  assumes "length data < 2 ^ 31"
  shows "unat (word_of_nat (length data) :: jint) = length data"
    and "\<not> sint (word_of_nat (length data) :: jint) < 0"
proof -
  show u: "unat (word_of_nat (length data) :: jint) = length data"
    using assms by (simp add: unat_of_nat)
  show "\<not> sint (word_of_nat (length data) :: jint) < 0"
    using assms by (simp add: sint_neg_iff u)
qed

lemma toJavaArray_Done:
  assumes "pending s = None" and "length data < 2 ^ 31"
  shows "toJavaArray data s = Done (Some data, s)"
  using assms(1) length_word_of_nat [OF assms(2)]
  by (simp add: toJavaArray_def make_array_def jni_call_def andThen_def)

lemma wp_toJavaArray:
  "length data < 2 ^ 31 \<Longrightarrow>
   wp (toJavaArray data) Q s \<longleftrightarrow> pending s = None \<and> Q (Some data) s"
  using length_word_of_nat [of data]
  by (auto simp: toJavaArray_def make_array_def wp_simps)

subsection \<open>The serialisation loop\<close>

lemma resize_length [simp]: "length (resize n bytes) = n"
  by (simp add: resize_def)

text \<open>
  A serialiser of fixed width: given room, it writes the bytes \<open>enc v\<close> at the position of
  the iterator and moves on. The loop over a buffer of the right size then never writes
  out of range, and a decoder of one element decodes the whole buffer.
\<close>

locale fixed_width =
  fixes put :: "out_iter \<Rightarrow> 'v \<Rightarrow> ('s, out_iter) prog"
    and size_of :: nat
    and enc :: "'v \<Rightarrow> uint8 list"
    and decode :: "uint8 list \<Rightarrow> 'v list"
  assumes width: "length (enc v) = size_of"
    and put_room: "i + size_of \<le> length buf \<Longrightarrow>
      put (buf, i) v s = Done ((take i buf @ enc v @ drop (i + size_of) buf, i + size_of), s)"
    and decode_step: "decode (enc v @ rest) = v # decode rest"
    and decode_end: "decode [] = []"
begin

lemma loop_writes:
  assumes "length buf = length pre + length values * size_of" and "take (length pre) buf = pre"
  shows "to_bytes_loop put values (buf, length pre) s =
    Done ((pre @ concat (map enc values), length buf), s)"
  using assms
proof (induction "values" arbitrary: buf pre)
  case Nil
  then show ?case by simp
next
  case (Cons v vs)
  let ?buf = "take (length pre) buf @ enc v @ drop (length pre + size_of) buf"
  have room: "length pre + size_of \<le> length buf" using Cons.prems(1) by simp
  have eq: "length (pre @ enc v) = length pre + size_of" by (simp add: width)
  have "to_bytes_loop put vs (?buf, length (pre @ enc v)) s =
      Done (((pre @ enc v) @ concat (map enc vs), length ?buf), s)"
    using Cons.prems by (intro Cons.IH) (simp_all add: width)
  with room show ?case
    by (simp add: put_room andThen_def eq width)
qed

lemma to_bytes_eq: "to_bytes put size_of values bytes s = Done (concat (map enc values), s)"
  using loop_writes [of "resize (length values * size_of) bytes" "[]" "values" s]
  by (simp add: to_bytes_def andThen_def)

lemma decode_concat: "decode (concat (map enc values)) = values"
  by (induction "values") (simp_all add: decode_step decode_end)

lemma to_bytes_round_trip:
  "\<exists>out. to_bytes put size_of values bytes s = Done (out, s) \<and>
     length out = length values * size_of \<and> decode out = values"
  by (simp add: to_bytes_eq decode_concat length_concat o_def width sum_list_triv)

end

subsection \<open>Shorts and 32-bit integers\<close>

definition be16 :: "jshort \<Rightarrow> uint8 list" where
  "be16 v = [ucast (drop_bit 8 v), ucast v]"

definition be32 :: "uint32 \<Rightarrow> uint8 list" where
  "be32 v = [ucast (drop_bit 24 v), ucast (drop_bit 16 v), ucast (drop_bit 8 v), ucast v]"

lemma low_byte [simp]: "ucast (w AND 0xff :: uint32) = (ucast w :: uint8)"
proof -
  have "w AND 0xff = take_bit 8 w" by (simp add: take_bit_eq_mask mask_eq_exp_minus_1)
  then show ?thesis by (auto intro!: bit_word_eqI simp: bit_simps)
qed

lemma promoted_bytes:
  "(ucast (signed_drop_bit 8 (scast v :: uint32)) :: uint8) = ucast (drop_bit 8 v)"
  "(ucast (scast v :: uint32) :: uint8) = ucast v" for v :: jshort
  by (rule bit_word_eqI; auto simp: bit_simps)+

lemma put_byte_room:
  "i < length buf \<Longrightarrow>
   put_byte w (buf, i) s = Done ((take i buf @ ucast w # drop (Suc i) buf, Suc i), s)"
  by (simp add: put_byte_def upd_conv_take_nth_drop)

lemma to_bytes_int16_room:
  assumes "i + 2 \<le> length buf"
  shows "to_bytes_int16 (buf, i) v s = Done ((take i buf @ be16 v @ drop (i + 2) buf, i + 2), s)"
  using assms
  by (simp add: to_bytes_int16_def Let_def andThen_def put_byte_room be16_def promoted_bytes
      min_def Suc_diff_le)

lemma to_bytes_uint32_room:
  assumes "i + 4 \<le> length buf"
  shows "to_bytes_uint32 (buf, i) v s = Done ((take i buf @ be32 v @ drop (i + 4) buf, i + 4), s)"
  using assms
  by (simp add: to_bytes_uint32_def andThen_def put_byte_room be32_def min_def Suc_diff_le
      numeral_eq_Suc)

lemma from_be16: "from_bytes_int16 (be16 v @ rest) = v # from_bytes_int16 rest"
  by (simp add: be16_def) (rule bit_word_eqI, auto simp: bit_simps)

lemma from_be32: "from_bytes_uint32 (be32 v @ rest) = v # from_bytes_uint32 rest"
proof -
  have "bit (push_bit 24 (ucast (ucast (drop_bit 24 v) :: uint8) :: uint32) OR
        push_bit 16 (ucast (ucast (drop_bit 16 v) :: uint8)) OR
        push_bit 8 (ucast (ucast (drop_bit 8 v) :: uint8)) OR ucast (ucast v :: uint8)) n \<longleftrightarrow> bit v n"
    if "n < LENGTH(32)" for n
  proof -
    from that consider "n < 8" | "8 \<le> n" "n < 16" | "16 \<le> n" "n < 24" | "24 \<le> n" "n < 32"
      by force
    then show ?thesis by cases (auto simp: bit_simps)
  qed
  from bit_word_eqI [OF this] show ?thesis by (simp add: be32_def)
qed

interpretation shorts: fixed_width to_bytes_int16 2 be16 from_bytes_int16
  by unfold_locales (simp_all add: to_bytes_int16_room from_be16, simp add: be16_def)

interpretation words: fixed_width to_bytes_uint32 4 be32 from_bytes_uint32
  by unfold_locales (simp_all add: to_bytes_uint32_room from_be32, simp add: be32_def)

end
