(* ===== verification/Enums.thy ===== *)
theory Enums
  imports Exceptions
begin

text \<open>
  \<open>ToxCore/generated/enums.cpp\<close> and \<open>ToxAv/generated/enums.cpp\<close>: the enumerations that
  cross the language boundary. A C enumeration is a datatype with the enumerators of the
  \<open>switch\<close> statements and one more constructor for any other value the C type can hold.
  \<open>ordinal\<close> and \<open>valueOf\<close> translate to and from Java ordinals; \<open>print_arg\<close> gives the text
  that is logged. The contract they share is the locale \<open>enum_codec\<close>.
\<close>

section \<open>ToxCore\<close>

datatype TOX_CONNECTION =
    TOX_CONNECTION_NONE
  | TOX_CONNECTION_TCP
  | TOX_CONNECTION_UDP
  | TOX_CONNECTION_OTHER jint

fun ordinal_TOX_CONNECTION :: "TOX_CONNECTION \<Rightarrow> ('z jenv_scheme, jint) prog" where
  "ordinal_TOX_CONNECTION TOX_CONNECTION_NONE = ret 0"
| "ordinal_TOX_CONNECTION TOX_CONNECTION_TCP = ret 1"
| "ordinal_TOX_CONNECTION TOX_CONNECTION_UDP = ret 2"
| "ordinal_TOX_CONNECTION (TOX_CONNECTION_OTHER _) = tox4j_fatal_error ''Invalid enumerator from toxcore''"

definition valueOf_TOX_CONNECTION :: "jint \<Rightarrow> ('z jenv_scheme, TOX_CONNECTION) prog" where
  "valueOf_TOX_CONNECTION n =
    (if n = 0 then ret TOX_CONNECTION_NONE
     else if n = 1 then ret TOX_CONNECTION_TCP
     else if n = 2 then ret TOX_CONNECTION_UDP
     else tox4j_fatal_error ''Invalid enumerator from Java'')"

fun print_arg_TOX_CONNECTION :: "TOX_CONNECTION \<Rightarrow> string" where
  "print_arg_TOX_CONNECTION TOX_CONNECTION_NONE = ''TOX_CONNECTION_NONE''"
| "print_arg_TOX_CONNECTION TOX_CONNECTION_TCP = ''TOX_CONNECTION_TCP''"
| "print_arg_TOX_CONNECTION TOX_CONNECTION_UDP = ''TOX_CONNECTION_UDP''"
| "print_arg_TOX_CONNECTION (TOX_CONNECTION_OTHER arg) = ''(TOX_CONNECTION)'' @ to_string_int (sint arg)"

datatype TOX_FILE_CONTROL =
    TOX_FILE_CONTROL_RESUME
  | TOX_FILE_CONTROL_PAUSE
  | TOX_FILE_CONTROL_CANCEL
  | TOX_FILE_CONTROL_OTHER jint

fun ordinal_TOX_FILE_CONTROL :: "TOX_FILE_CONTROL \<Rightarrow> ('z jenv_scheme, jint) prog" where
  "ordinal_TOX_FILE_CONTROL TOX_FILE_CONTROL_RESUME = ret 0"
| "ordinal_TOX_FILE_CONTROL TOX_FILE_CONTROL_PAUSE = ret 1"
| "ordinal_TOX_FILE_CONTROL TOX_FILE_CONTROL_CANCEL = ret 2"
| "ordinal_TOX_FILE_CONTROL (TOX_FILE_CONTROL_OTHER _) = tox4j_fatal_error ''Invalid enumerator from toxcore''"

definition valueOf_TOX_FILE_CONTROL :: "jint \<Rightarrow> ('z jenv_scheme, TOX_FILE_CONTROL) prog" where
  "valueOf_TOX_FILE_CONTROL n =
    (if n = 0 then ret TOX_FILE_CONTROL_RESUME
     else if n = 1 then ret TOX_FILE_CONTROL_PAUSE
     else if n = 2 then ret TOX_FILE_CONTROL_CANCEL
     else tox4j_fatal_error ''Invalid enumerator from Java'')"

fun print_arg_TOX_FILE_CONTROL :: "TOX_FILE_CONTROL \<Rightarrow> string" where
  "print_arg_TOX_FILE_CONTROL TOX_FILE_CONTROL_RESUME = ''TOX_FILE_CONTROL_RESUME''"
| "print_arg_TOX_FILE_CONTROL TOX_FILE_CONTROL_PAUSE = ''TOX_FILE_CONTROL_PAUSE''"
| "print_arg_TOX_FILE_CONTROL TOX_FILE_CONTROL_CANCEL = ''TOX_FILE_CONTROL_CANCEL''"
| "print_arg_TOX_FILE_CONTROL (TOX_FILE_CONTROL_OTHER arg) = ''(TOX_FILE_CONTROL)'' @ to_string_int (sint arg)"

datatype TOX_MESSAGE_TYPE =
    TOX_MESSAGE_TYPE_NORMAL
  | TOX_MESSAGE_TYPE_ACTION
  | TOX_MESSAGE_TYPE_OTHER jint

fun ordinal_TOX_MESSAGE_TYPE :: "TOX_MESSAGE_TYPE \<Rightarrow> ('z jenv_scheme, jint) prog" where
  "ordinal_TOX_MESSAGE_TYPE TOX_MESSAGE_TYPE_NORMAL = ret 0"
| "ordinal_TOX_MESSAGE_TYPE TOX_MESSAGE_TYPE_ACTION = ret 1"
| "ordinal_TOX_MESSAGE_TYPE (TOX_MESSAGE_TYPE_OTHER _) = tox4j_fatal_error ''Invalid enumerator from toxcore''"

definition valueOf_TOX_MESSAGE_TYPE :: "jint \<Rightarrow> ('z jenv_scheme, TOX_MESSAGE_TYPE) prog" where
  "valueOf_TOX_MESSAGE_TYPE n =
    (if n = 0 then ret TOX_MESSAGE_TYPE_NORMAL
     else if n = 1 then ret TOX_MESSAGE_TYPE_ACTION
     else tox4j_fatal_error ''Invalid enumerator from Java'')"

fun print_arg_TOX_MESSAGE_TYPE :: "TOX_MESSAGE_TYPE \<Rightarrow> string" where
  "print_arg_TOX_MESSAGE_TYPE TOX_MESSAGE_TYPE_NORMAL = ''TOX_MESSAGE_TYPE_NORMAL''"
| "print_arg_TOX_MESSAGE_TYPE TOX_MESSAGE_TYPE_ACTION = ''TOX_MESSAGE_TYPE_ACTION''"
| "print_arg_TOX_MESSAGE_TYPE (TOX_MESSAGE_TYPE_OTHER arg) = ''(TOX_MESSAGE_TYPE)'' @ to_string_int (sint arg)"

datatype TOX_PROXY_TYPE =
    TOX_PROXY_TYPE_NONE
  | TOX_PROXY_TYPE_HTTP
  | TOX_PROXY_TYPE_SOCKS5
  | TOX_PROXY_TYPE_OTHER jint

fun ordinal_TOX_PROXY_TYPE :: "TOX_PROXY_TYPE \<Rightarrow> ('z jenv_scheme, jint) prog" where
  "ordinal_TOX_PROXY_TYPE TOX_PROXY_TYPE_NONE = ret 0"
| "ordinal_TOX_PROXY_TYPE TOX_PROXY_TYPE_HTTP = ret 1"
| "ordinal_TOX_PROXY_TYPE TOX_PROXY_TYPE_SOCKS5 = ret 2"
| "ordinal_TOX_PROXY_TYPE (TOX_PROXY_TYPE_OTHER _) = tox4j_fatal_error ''Invalid enumerator from toxcore''"

definition valueOf_TOX_PROXY_TYPE :: "jint \<Rightarrow> ('z jenv_scheme, TOX_PROXY_TYPE) prog" where
  "valueOf_TOX_PROXY_TYPE n =
    (if n = 0 then ret TOX_PROXY_TYPE_NONE
     else if n = 1 then ret TOX_PROXY_TYPE_HTTP
     else if n = 2 then ret TOX_PROXY_TYPE_SOCKS5
     else tox4j_fatal_error ''Invalid enumerator from Java'')"

fun print_arg_TOX_PROXY_TYPE :: "TOX_PROXY_TYPE \<Rightarrow> string" where
  "print_arg_TOX_PROXY_TYPE TOX_PROXY_TYPE_NONE = ''TOX_PROXY_TYPE_NONE''"
| "print_arg_TOX_PROXY_TYPE TOX_PROXY_TYPE_HTTP = ''TOX_PROXY_TYPE_HTTP''"
| "print_arg_TOX_PROXY_TYPE TOX_PROXY_TYPE_SOCKS5 = ''TOX_PROXY_TYPE_SOCKS5''"
| "print_arg_TOX_PROXY_TYPE (TOX_PROXY_TYPE_OTHER arg) = ''(TOX_PROXY_TYPE)'' @ to_string_int (sint arg)"

datatype TOX_SAVEDATA_TYPE =
    TOX_SAVEDATA_TYPE_NONE
  | TOX_SAVEDATA_TYPE_TOX_SAVE
  | TOX_SAVEDATA_TYPE_SECRET_KEY
  | TOX_SAVEDATA_TYPE_OTHER jint

fun ordinal_TOX_SAVEDATA_TYPE :: "TOX_SAVEDATA_TYPE \<Rightarrow> ('z jenv_scheme, jint) prog" where
  "ordinal_TOX_SAVEDATA_TYPE TOX_SAVEDATA_TYPE_NONE = ret 0"
| "ordinal_TOX_SAVEDATA_TYPE TOX_SAVEDATA_TYPE_TOX_SAVE = ret 1"
| "ordinal_TOX_SAVEDATA_TYPE TOX_SAVEDATA_TYPE_SECRET_KEY = ret 2"
| "ordinal_TOX_SAVEDATA_TYPE (TOX_SAVEDATA_TYPE_OTHER _) = tox4j_fatal_error ''Invalid enumerator from toxcore''"

definition valueOf_TOX_SAVEDATA_TYPE :: "jint \<Rightarrow> ('z jenv_scheme, TOX_SAVEDATA_TYPE) prog" where
  "valueOf_TOX_SAVEDATA_TYPE n =
    (if n = 0 then ret TOX_SAVEDATA_TYPE_NONE
     else if n = 1 then ret TOX_SAVEDATA_TYPE_TOX_SAVE
     else if n = 2 then ret TOX_SAVEDATA_TYPE_SECRET_KEY
     else tox4j_fatal_error ''Invalid enumerator from Java'')"

fun print_arg_TOX_SAVEDATA_TYPE :: "TOX_SAVEDATA_TYPE \<Rightarrow> string" where
  "print_arg_TOX_SAVEDATA_TYPE TOX_SAVEDATA_TYPE_NONE = ''TOX_SAVEDATA_TYPE_NONE''"
| "print_arg_TOX_SAVEDATA_TYPE TOX_SAVEDATA_TYPE_TOX_SAVE = ''TOX_SAVEDATA_TYPE_TOX_SAVE''"
| "print_arg_TOX_SAVEDATA_TYPE TOX_SAVEDATA_TYPE_SECRET_KEY = ''TOX_SAVEDATA_TYPE_SECRET_KEY''"
| "print_arg_TOX_SAVEDATA_TYPE (TOX_SAVEDATA_TYPE_OTHER arg) = ''(TOX_SAVEDATA_TYPE)'' @ to_string_int (sint arg)"

datatype TOX_USER_STATUS =
    TOX_USER_STATUS_NONE
  | TOX_USER_STATUS_AWAY
  | TOX_USER_STATUS_BUSY
  | TOX_USER_STATUS_OTHER jint

fun ordinal_TOX_USER_STATUS :: "TOX_USER_STATUS \<Rightarrow> ('z jenv_scheme, jint) prog" where
  "ordinal_TOX_USER_STATUS TOX_USER_STATUS_NONE = ret 0"
| "ordinal_TOX_USER_STATUS TOX_USER_STATUS_AWAY = ret 1"
| "ordinal_TOX_USER_STATUS TOX_USER_STATUS_BUSY = ret 2"
| "ordinal_TOX_USER_STATUS (TOX_USER_STATUS_OTHER _) = tox4j_fatal_error ''Invalid enumerator from toxcore''"

definition valueOf_TOX_USER_STATUS :: "jint \<Rightarrow> ('z jenv_scheme, TOX_USER_STATUS) prog" where
  "valueOf_TOX_USER_STATUS n =
    (if n = 0 then ret TOX_USER_STATUS_NONE
     else if n = 1 then ret TOX_USER_STATUS_AWAY
     else if n = 2 then ret TOX_USER_STATUS_BUSY
     else tox4j_fatal_error ''Invalid enumerator from Java'')"

fun print_arg_TOX_USER_STATUS :: "TOX_USER_STATUS \<Rightarrow> string" where
  "print_arg_TOX_USER_STATUS TOX_USER_STATUS_NONE = ''TOX_USER_STATUS_NONE''"
| "print_arg_TOX_USER_STATUS TOX_USER_STATUS_AWAY = ''TOX_USER_STATUS_AWAY''"
| "print_arg_TOX_USER_STATUS TOX_USER_STATUS_BUSY = ''TOX_USER_STATUS_BUSY''"
| "print_arg_TOX_USER_STATUS (TOX_USER_STATUS_OTHER arg) = ''(TOX_USER_STATUS)'' @ to_string_int (sint arg)"

section \<open>ToxAv\<close>

datatype TOXAV_CALL_CONTROL =
    TOXAV_CALL_CONTROL_RESUME
  | TOXAV_CALL_CONTROL_PAUSE
  | TOXAV_CALL_CONTROL_CANCEL
  | TOXAV_CALL_CONTROL_MUTE_AUDIO
  | TOXAV_CALL_CONTROL_UNMUTE_AUDIO
  | TOXAV_CALL_CONTROL_HIDE_VIDEO
  | TOXAV_CALL_CONTROL_SHOW_VIDEO
  | TOXAV_CALL_CONTROL_OTHER jint

fun ordinal_TOXAV_CALL_CONTROL :: "TOXAV_CALL_CONTROL \<Rightarrow> ('z jenv_scheme, jint) prog" where
  "ordinal_TOXAV_CALL_CONTROL TOXAV_CALL_CONTROL_RESUME = ret 0"
| "ordinal_TOXAV_CALL_CONTROL TOXAV_CALL_CONTROL_PAUSE = ret 1"
| "ordinal_TOXAV_CALL_CONTROL TOXAV_CALL_CONTROL_CANCEL = ret 2"
| "ordinal_TOXAV_CALL_CONTROL TOXAV_CALL_CONTROL_MUTE_AUDIO = ret 3"
| "ordinal_TOXAV_CALL_CONTROL TOXAV_CALL_CONTROL_UNMUTE_AUDIO = ret 4"
| "ordinal_TOXAV_CALL_CONTROL TOXAV_CALL_CONTROL_HIDE_VIDEO = ret 5"
| "ordinal_TOXAV_CALL_CONTROL TOXAV_CALL_CONTROL_SHOW_VIDEO = ret 6"
| "ordinal_TOXAV_CALL_CONTROL (TOXAV_CALL_CONTROL_OTHER _) = tox4j_fatal_error ''Invalid enumerator from toxcore''"

definition valueOf_TOXAV_CALL_CONTROL :: "jint \<Rightarrow> ('z jenv_scheme, TOXAV_CALL_CONTROL) prog" where
  "valueOf_TOXAV_CALL_CONTROL n =
    (if n = 0 then ret TOXAV_CALL_CONTROL_RESUME
     else if n = 1 then ret TOXAV_CALL_CONTROL_PAUSE
     else if n = 2 then ret TOXAV_CALL_CONTROL_CANCEL
     else if n = 3 then ret TOXAV_CALL_CONTROL_MUTE_AUDIO
     else if n = 4 then ret TOXAV_CALL_CONTROL_UNMUTE_AUDIO
     else if n = 5 then ret TOXAV_CALL_CONTROL_HIDE_VIDEO
     else if n = 6 then ret TOXAV_CALL_CONTROL_SHOW_VIDEO
     else tox4j_fatal_error ''Invalid enumerator from Java'')"

fun print_arg_TOXAV_CALL_CONTROL :: "TOXAV_CALL_CONTROL \<Rightarrow> string" where
  "print_arg_TOXAV_CALL_CONTROL TOXAV_CALL_CONTROL_RESUME = ''TOXAV_CALL_CONTROL_RESUME''"
| "print_arg_TOXAV_CALL_CONTROL TOXAV_CALL_CONTROL_PAUSE = ''TOXAV_CALL_CONTROL_PAUSE''"
| "print_arg_TOXAV_CALL_CONTROL TOXAV_CALL_CONTROL_CANCEL = ''TOXAV_CALL_CONTROL_CANCEL''"
| "print_arg_TOXAV_CALL_CONTROL TOXAV_CALL_CONTROL_MUTE_AUDIO = ''TOXAV_CALL_CONTROL_MUTE_AUDIO''"
| "print_arg_TOXAV_CALL_CONTROL TOXAV_CALL_CONTROL_UNMUTE_AUDIO = ''TOXAV_CALL_CONTROL_UNMUTE_AUDIO''"
| "print_arg_TOXAV_CALL_CONTROL TOXAV_CALL_CONTROL_HIDE_VIDEO = ''TOXAV_CALL_CONTROL_HIDE_VIDEO''"
| "print_arg_TOXAV_CALL_CONTROL TOXAV_CALL_CONTROL_SHOW_VIDEO = ''TOXAV_CALL_CONTROL_SHOW_VIDEO''"
| "print_arg_TOXAV_CALL_CONTROL (TOXAV_CALL_CONTROL_OTHER arg) = ''(TOXAV_CALL_CONTROL)'' @ to_string_int (sint arg)"

datatype TOXAV_FRIEND_CALL_STATE =
    TOXAV_FRIEND_CALL_STATE_ERROR
  | TOXAV_FRIEND_CALL_STATE_FINISHED
  | TOXAV_FRIEND_CALL_STATE_SENDING_A
  | TOXAV_FRIEND_CALL_STATE_SENDING_V
  | TOXAV_FRIEND_CALL_STATE_ACCEPTING_A
  | TOXAV_FRIEND_CALL_STATE_ACCEPTING_V
  | TOXAV_FRIEND_CALL_STATE_OTHER jint

fun ordinal_TOXAV_FRIEND_CALL_STATE :: "TOXAV_FRIEND_CALL_STATE \<Rightarrow> ('z jenv_scheme, jint) prog" where
  "ordinal_TOXAV_FRIEND_CALL_STATE TOXAV_FRIEND_CALL_STATE_ERROR = ret 0"
| "ordinal_TOXAV_FRIEND_CALL_STATE TOXAV_FRIEND_CALL_STATE_FINISHED = ret 1"
| "ordinal_TOXAV_FRIEND_CALL_STATE TOXAV_FRIEND_CALL_STATE_SENDING_A = ret 2"
| "ordinal_TOXAV_FRIEND_CALL_STATE TOXAV_FRIEND_CALL_STATE_SENDING_V = ret 3"
| "ordinal_TOXAV_FRIEND_CALL_STATE TOXAV_FRIEND_CALL_STATE_ACCEPTING_A = ret 4"
| "ordinal_TOXAV_FRIEND_CALL_STATE TOXAV_FRIEND_CALL_STATE_ACCEPTING_V = ret 5"
| "ordinal_TOXAV_FRIEND_CALL_STATE (TOXAV_FRIEND_CALL_STATE_OTHER _) = tox4j_fatal_error ''Invalid enumerator from toxcore''"

definition valueOf_TOXAV_FRIEND_CALL_STATE :: "jint \<Rightarrow> ('z jenv_scheme, TOXAV_FRIEND_CALL_STATE) prog" where
  "valueOf_TOXAV_FRIEND_CALL_STATE n =
    (if n = 0 then ret TOXAV_FRIEND_CALL_STATE_ERROR
     else if n = 1 then ret TOXAV_FRIEND_CALL_STATE_FINISHED
     else if n = 2 then ret TOXAV_FRIEND_CALL_STATE_SENDING_A
     else if n = 3 then ret TOXAV_FRIEND_CALL_STATE_SENDING_V
     else if n = 4 then ret TOXAV_FRIEND_CALL_STATE_ACCEPTING_A
     else if n = 5 then ret TOXAV_FRIEND_CALL_STATE_ACCEPTING_V
     else tox4j_fatal_error ''Invalid enumerator from Java'')"

fun print_arg_TOXAV_FRIEND_CALL_STATE :: "TOXAV_FRIEND_CALL_STATE \<Rightarrow> string" where
  "print_arg_TOXAV_FRIEND_CALL_STATE TOXAV_FRIEND_CALL_STATE_ERROR = ''TOXAV_FRIEND_CALL_STATE_ERROR''"
| "print_arg_TOXAV_FRIEND_CALL_STATE TOXAV_FRIEND_CALL_STATE_FINISHED = ''TOXAV_FRIEND_CALL_STATE_FINISHED''"
| "print_arg_TOXAV_FRIEND_CALL_STATE TOXAV_FRIEND_CALL_STATE_SENDING_A = ''TOXAV_FRIEND_CALL_STATE_SENDING_A''"
| "print_arg_TOXAV_FRIEND_CALL_STATE TOXAV_FRIEND_CALL_STATE_SENDING_V = ''TOXAV_FRIEND_CALL_STATE_SENDING_V''"
| "print_arg_TOXAV_FRIEND_CALL_STATE TOXAV_FRIEND_CALL_STATE_ACCEPTING_A = ''TOXAV_FRIEND_CALL_STATE_ACCEPTING_A''"
| "print_arg_TOXAV_FRIEND_CALL_STATE TOXAV_FRIEND_CALL_STATE_ACCEPTING_V = ''TOXAV_FRIEND_CALL_STATE_ACCEPTING_V''"
| "print_arg_TOXAV_FRIEND_CALL_STATE (TOXAV_FRIEND_CALL_STATE_OTHER arg) = ''(TOXAV_FRIEND_CALL_STATE)'' @ to_string_int (sint arg)"

section \<open>The contract\<close>

text \<open>
  \<open>members\<close> lists the enumerators in the order of their Java ordinals. A Java ordinal
  outside the enumeration, or an enumerator that this code does not know, is fatal.
\<close>

locale enum_codec =
  fixes ordinal :: "'e \<Rightarrow> ('z jenv_scheme, jint) prog"
    and valueOf :: "jint \<Rightarrow> ('z jenv_scheme, 'e) prog"
    and print_enum :: "'e \<Rightarrow> string"
    and members :: "'e list"
  assumes valueOf_const: "i < length members \<Longrightarrow> valueOf (word_of_nat i) = ret (members ! i)"
    and valueOf_other: "length members \<le> unat n \<Longrightarrow>
      valueOf n = tox4j_fatal_error ''Invalid enumerator from Java''"
    and ordinal_const: "i < length members \<Longrightarrow> ordinal (members ! i) = ret (word_of_nat i)"
    and ordinal_other: "e \<notin> set members \<Longrightarrow>
      ordinal e = tox4j_fatal_error ''Invalid enumerator from toxcore''"
    and few: "length members < 2 ^ 31"
    and print_inj: "print_enum e = print_enum e' \<longleftrightarrow> e = e'"
begin

lemma unat_const: "i < length members \<Longrightarrow> unat (word_of_nat i :: jint) = i"
  using few by (simp add: unat_of_nat)

lemma valueOf_eq:
  "valueOf n = (if unat n < length members then ret (members ! unat n)
                else tox4j_fatal_error ''Invalid enumerator from Java'')"
  using valueOf_const [of "unat n"] valueOf_other [of n] by simp

lemma wp_valueOf: "wp (valueOf n) Q s \<longleftrightarrow> unat n < length members \<and> Q (members ! unat n) s"
  by (simp add: valueOf_eq wp_simps)

lemma valueOf_Done: "unat n < length members \<Longrightarrow> valueOf n s = Done (members ! unat n, s)"
  by (simp add: valueOf_eq)

lemma distinct_consts: "distinct members"
proof (rule distinct_conv_nth [THEN iffD2], intro allI impI)
  fix i j assume ij: "i < length members" "j < length members" "i \<noteq> j"
  show "members ! i \<noteq> members ! j"
  proof
    assume "members ! i = members ! j"
    with ordinal_const [OF ij(1)] ordinal_const [OF ij(2)]
    have "(word_of_nat i :: jint) = word_of_nat j" by simp
    with unat_const [OF ij(1)] unat_const [OF ij(2)] ij(3) show False by simp
  qed
qed

lemma ordinal_valueOf:
  "unat n < length members \<Longrightarrow> andThen (valueOf n) ordinal = ret n"
  by (rule ext) (simp add: valueOf_eq ordinal_const)

lemma valueOf_ordinal: "e \<in> set members \<Longrightarrow> andThen (ordinal e) valueOf = ret e"
  by (auto simp: in_set_conv_nth ordinal_const valueOf_const)

end

text \<open>Case analysis of small indices and of machine constants, for the interpretations.\<close>

lemmas small_index = less_Suc_eq

definition consts_TOX_CONNECTION :: "TOX_CONNECTION list" where
  "consts_TOX_CONNECTION = [TOX_CONNECTION_NONE,
     TOX_CONNECTION_TCP,
     TOX_CONNECTION_UDP]"

lemma print_arg_TOX_CONNECTION_inject: "print_arg_TOX_CONNECTION e = print_arg_TOX_CONNECTION e' \<longleftrightarrow> e = e'"
  by (cases e; cases e'; auto intro: signed_word_eqI)

lemma valueOf_TOX_CONNECTION_other:
  "length consts_TOX_CONNECTION \<le> unat n \<Longrightarrow>
   valueOf_TOX_CONNECTION n = tox4j_fatal_error ''Invalid enumerator from Java''"
  by (auto simp: valueOf_TOX_CONNECTION_def consts_TOX_CONNECTION_def)

interpretation tox_connection: enum_codec ordinal_TOX_CONNECTION valueOf_TOX_CONNECTION print_arg_TOX_CONNECTION consts_TOX_CONNECTION
proof
  show "i < length consts_TOX_CONNECTION \<Longrightarrow> valueOf_TOX_CONNECTION (word_of_nat i) = ret (consts_TOX_CONNECTION ! i)" for i
    by (auto simp: consts_TOX_CONNECTION_def valueOf_TOX_CONNECTION_def small_index)
  show "i < length consts_TOX_CONNECTION \<Longrightarrow> ordinal_TOX_CONNECTION (consts_TOX_CONNECTION ! i) = ret (word_of_nat i)" for i
    by (auto simp: consts_TOX_CONNECTION_def small_index)
  show "e \<notin> set consts_TOX_CONNECTION \<Longrightarrow>
      ordinal_TOX_CONNECTION e = tox4j_fatal_error ''Invalid enumerator from toxcore''" for e
    by (cases e) (auto simp: consts_TOX_CONNECTION_def)
qed (rule valueOf_TOX_CONNECTION_other print_arg_TOX_CONNECTION_inject | simp add: consts_TOX_CONNECTION_def | assumption)+

definition consts_TOX_FILE_CONTROL :: "TOX_FILE_CONTROL list" where
  "consts_TOX_FILE_CONTROL = [TOX_FILE_CONTROL_RESUME,
     TOX_FILE_CONTROL_PAUSE,
     TOX_FILE_CONTROL_CANCEL]"

lemma print_arg_TOX_FILE_CONTROL_inject: "print_arg_TOX_FILE_CONTROL e = print_arg_TOX_FILE_CONTROL e' \<longleftrightarrow> e = e'"
  by (cases e; cases e'; auto intro: signed_word_eqI)

lemma valueOf_TOX_FILE_CONTROL_other:
  "length consts_TOX_FILE_CONTROL \<le> unat n \<Longrightarrow>
   valueOf_TOX_FILE_CONTROL n = tox4j_fatal_error ''Invalid enumerator from Java''"
  by (auto simp: valueOf_TOX_FILE_CONTROL_def consts_TOX_FILE_CONTROL_def)

interpretation tox_file_control: enum_codec ordinal_TOX_FILE_CONTROL valueOf_TOX_FILE_CONTROL print_arg_TOX_FILE_CONTROL consts_TOX_FILE_CONTROL
proof
  show "i < length consts_TOX_FILE_CONTROL \<Longrightarrow> valueOf_TOX_FILE_CONTROL (word_of_nat i) = ret (consts_TOX_FILE_CONTROL ! i)" for i
    by (auto simp: consts_TOX_FILE_CONTROL_def valueOf_TOX_FILE_CONTROL_def small_index)
  show "i < length consts_TOX_FILE_CONTROL \<Longrightarrow> ordinal_TOX_FILE_CONTROL (consts_TOX_FILE_CONTROL ! i) = ret (word_of_nat i)" for i
    by (auto simp: consts_TOX_FILE_CONTROL_def small_index)
  show "e \<notin> set consts_TOX_FILE_CONTROL \<Longrightarrow>
      ordinal_TOX_FILE_CONTROL e = tox4j_fatal_error ''Invalid enumerator from toxcore''" for e
    by (cases e) (auto simp: consts_TOX_FILE_CONTROL_def)
qed (rule valueOf_TOX_FILE_CONTROL_other print_arg_TOX_FILE_CONTROL_inject | simp add: consts_TOX_FILE_CONTROL_def | assumption)+

definition consts_TOX_MESSAGE_TYPE :: "TOX_MESSAGE_TYPE list" where
  "consts_TOX_MESSAGE_TYPE = [TOX_MESSAGE_TYPE_NORMAL,
     TOX_MESSAGE_TYPE_ACTION]"

lemma print_arg_TOX_MESSAGE_TYPE_inject: "print_arg_TOX_MESSAGE_TYPE e = print_arg_TOX_MESSAGE_TYPE e' \<longleftrightarrow> e = e'"
  by (cases e; cases e'; auto intro: signed_word_eqI)

lemma valueOf_TOX_MESSAGE_TYPE_other:
  "length consts_TOX_MESSAGE_TYPE \<le> unat n \<Longrightarrow>
   valueOf_TOX_MESSAGE_TYPE n = tox4j_fatal_error ''Invalid enumerator from Java''"
  by (auto simp: valueOf_TOX_MESSAGE_TYPE_def consts_TOX_MESSAGE_TYPE_def)

interpretation tox_message_type: enum_codec ordinal_TOX_MESSAGE_TYPE valueOf_TOX_MESSAGE_TYPE print_arg_TOX_MESSAGE_TYPE consts_TOX_MESSAGE_TYPE
proof
  show "i < length consts_TOX_MESSAGE_TYPE \<Longrightarrow> valueOf_TOX_MESSAGE_TYPE (word_of_nat i) = ret (consts_TOX_MESSAGE_TYPE ! i)" for i
    by (auto simp: consts_TOX_MESSAGE_TYPE_def valueOf_TOX_MESSAGE_TYPE_def small_index)
  show "i < length consts_TOX_MESSAGE_TYPE \<Longrightarrow> ordinal_TOX_MESSAGE_TYPE (consts_TOX_MESSAGE_TYPE ! i) = ret (word_of_nat i)" for i
    by (auto simp: consts_TOX_MESSAGE_TYPE_def small_index)
  show "e \<notin> set consts_TOX_MESSAGE_TYPE \<Longrightarrow>
      ordinal_TOX_MESSAGE_TYPE e = tox4j_fatal_error ''Invalid enumerator from toxcore''" for e
    by (cases e) (auto simp: consts_TOX_MESSAGE_TYPE_def)
qed (rule valueOf_TOX_MESSAGE_TYPE_other print_arg_TOX_MESSAGE_TYPE_inject | simp add: consts_TOX_MESSAGE_TYPE_def | assumption)+

definition consts_TOX_PROXY_TYPE :: "TOX_PROXY_TYPE list" where
  "consts_TOX_PROXY_TYPE = [TOX_PROXY_TYPE_NONE,
     TOX_PROXY_TYPE_HTTP,
     TOX_PROXY_TYPE_SOCKS5]"

lemma print_arg_TOX_PROXY_TYPE_inject: "print_arg_TOX_PROXY_TYPE e = print_arg_TOX_PROXY_TYPE e' \<longleftrightarrow> e = e'"
  by (cases e; cases e'; auto intro: signed_word_eqI)

lemma valueOf_TOX_PROXY_TYPE_other:
  "length consts_TOX_PROXY_TYPE \<le> unat n \<Longrightarrow>
   valueOf_TOX_PROXY_TYPE n = tox4j_fatal_error ''Invalid enumerator from Java''"
  by (auto simp: valueOf_TOX_PROXY_TYPE_def consts_TOX_PROXY_TYPE_def)

interpretation tox_proxy_type: enum_codec ordinal_TOX_PROXY_TYPE valueOf_TOX_PROXY_TYPE print_arg_TOX_PROXY_TYPE consts_TOX_PROXY_TYPE
proof
  show "i < length consts_TOX_PROXY_TYPE \<Longrightarrow> valueOf_TOX_PROXY_TYPE (word_of_nat i) = ret (consts_TOX_PROXY_TYPE ! i)" for i
    by (auto simp: consts_TOX_PROXY_TYPE_def valueOf_TOX_PROXY_TYPE_def small_index)
  show "i < length consts_TOX_PROXY_TYPE \<Longrightarrow> ordinal_TOX_PROXY_TYPE (consts_TOX_PROXY_TYPE ! i) = ret (word_of_nat i)" for i
    by (auto simp: consts_TOX_PROXY_TYPE_def small_index)
  show "e \<notin> set consts_TOX_PROXY_TYPE \<Longrightarrow>
      ordinal_TOX_PROXY_TYPE e = tox4j_fatal_error ''Invalid enumerator from toxcore''" for e
    by (cases e) (auto simp: consts_TOX_PROXY_TYPE_def)
qed (rule valueOf_TOX_PROXY_TYPE_other print_arg_TOX_PROXY_TYPE_inject | simp add: consts_TOX_PROXY_TYPE_def | assumption)+

definition consts_TOX_SAVEDATA_TYPE :: "TOX_SAVEDATA_TYPE list" where
  "consts_TOX_SAVEDATA_TYPE = [TOX_SAVEDATA_TYPE_NONE,
     TOX_SAVEDATA_TYPE_TOX_SAVE,
     TOX_SAVEDATA_TYPE_SECRET_KEY]"

lemma print_arg_TOX_SAVEDATA_TYPE_inject: "print_arg_TOX_SAVEDATA_TYPE e = print_arg_TOX_SAVEDATA_TYPE e' \<longleftrightarrow> e = e'"
  by (cases e; cases e'; auto intro: signed_word_eqI)

lemma valueOf_TOX_SAVEDATA_TYPE_other:
  "length consts_TOX_SAVEDATA_TYPE \<le> unat n \<Longrightarrow>
   valueOf_TOX_SAVEDATA_TYPE n = tox4j_fatal_error ''Invalid enumerator from Java''"
  by (auto simp: valueOf_TOX_SAVEDATA_TYPE_def consts_TOX_SAVEDATA_TYPE_def)

interpretation tox_savedata_type: enum_codec ordinal_TOX_SAVEDATA_TYPE valueOf_TOX_SAVEDATA_TYPE print_arg_TOX_SAVEDATA_TYPE consts_TOX_SAVEDATA_TYPE
proof
  show "i < length consts_TOX_SAVEDATA_TYPE \<Longrightarrow> valueOf_TOX_SAVEDATA_TYPE (word_of_nat i) = ret (consts_TOX_SAVEDATA_TYPE ! i)" for i
    by (auto simp: consts_TOX_SAVEDATA_TYPE_def valueOf_TOX_SAVEDATA_TYPE_def small_index)
  show "i < length consts_TOX_SAVEDATA_TYPE \<Longrightarrow> ordinal_TOX_SAVEDATA_TYPE (consts_TOX_SAVEDATA_TYPE ! i) = ret (word_of_nat i)" for i
    by (auto simp: consts_TOX_SAVEDATA_TYPE_def small_index)
  show "e \<notin> set consts_TOX_SAVEDATA_TYPE \<Longrightarrow>
      ordinal_TOX_SAVEDATA_TYPE e = tox4j_fatal_error ''Invalid enumerator from toxcore''" for e
    by (cases e) (auto simp: consts_TOX_SAVEDATA_TYPE_def)
qed (rule valueOf_TOX_SAVEDATA_TYPE_other print_arg_TOX_SAVEDATA_TYPE_inject | simp add: consts_TOX_SAVEDATA_TYPE_def | assumption)+

definition consts_TOX_USER_STATUS :: "TOX_USER_STATUS list" where
  "consts_TOX_USER_STATUS = [TOX_USER_STATUS_NONE,
     TOX_USER_STATUS_AWAY,
     TOX_USER_STATUS_BUSY]"

lemma print_arg_TOX_USER_STATUS_inject: "print_arg_TOX_USER_STATUS e = print_arg_TOX_USER_STATUS e' \<longleftrightarrow> e = e'"
  by (cases e; cases e'; auto intro: signed_word_eqI)

lemma valueOf_TOX_USER_STATUS_other:
  "length consts_TOX_USER_STATUS \<le> unat n \<Longrightarrow>
   valueOf_TOX_USER_STATUS n = tox4j_fatal_error ''Invalid enumerator from Java''"
  by (auto simp: valueOf_TOX_USER_STATUS_def consts_TOX_USER_STATUS_def)

interpretation tox_user_status: enum_codec ordinal_TOX_USER_STATUS valueOf_TOX_USER_STATUS print_arg_TOX_USER_STATUS consts_TOX_USER_STATUS
proof
  show "i < length consts_TOX_USER_STATUS \<Longrightarrow> valueOf_TOX_USER_STATUS (word_of_nat i) = ret (consts_TOX_USER_STATUS ! i)" for i
    by (auto simp: consts_TOX_USER_STATUS_def valueOf_TOX_USER_STATUS_def small_index)
  show "i < length consts_TOX_USER_STATUS \<Longrightarrow> ordinal_TOX_USER_STATUS (consts_TOX_USER_STATUS ! i) = ret (word_of_nat i)" for i
    by (auto simp: consts_TOX_USER_STATUS_def small_index)
  show "e \<notin> set consts_TOX_USER_STATUS \<Longrightarrow>
      ordinal_TOX_USER_STATUS e = tox4j_fatal_error ''Invalid enumerator from toxcore''" for e
    by (cases e) (auto simp: consts_TOX_USER_STATUS_def)
qed (rule valueOf_TOX_USER_STATUS_other print_arg_TOX_USER_STATUS_inject | simp add: consts_TOX_USER_STATUS_def | assumption)+

definition consts_TOXAV_CALL_CONTROL :: "TOXAV_CALL_CONTROL list" where
  "consts_TOXAV_CALL_CONTROL = [TOXAV_CALL_CONTROL_RESUME,
     TOXAV_CALL_CONTROL_PAUSE,
     TOXAV_CALL_CONTROL_CANCEL,
     TOXAV_CALL_CONTROL_MUTE_AUDIO,
     TOXAV_CALL_CONTROL_UNMUTE_AUDIO,
     TOXAV_CALL_CONTROL_HIDE_VIDEO,
     TOXAV_CALL_CONTROL_SHOW_VIDEO]"

lemma print_arg_TOXAV_CALL_CONTROL_inject: "print_arg_TOXAV_CALL_CONTROL e = print_arg_TOXAV_CALL_CONTROL e' \<longleftrightarrow> e = e'"
  by (cases e; cases e'; auto intro: signed_word_eqI)

lemma valueOf_TOXAV_CALL_CONTROL_other:
  "length consts_TOXAV_CALL_CONTROL \<le> unat n \<Longrightarrow>
   valueOf_TOXAV_CALL_CONTROL n = tox4j_fatal_error ''Invalid enumerator from Java''"
  by (auto simp: valueOf_TOXAV_CALL_CONTROL_def consts_TOXAV_CALL_CONTROL_def)

interpretation toxav_call_control: enum_codec ordinal_TOXAV_CALL_CONTROL valueOf_TOXAV_CALL_CONTROL print_arg_TOXAV_CALL_CONTROL consts_TOXAV_CALL_CONTROL
proof
  show "i < length consts_TOXAV_CALL_CONTROL \<Longrightarrow> valueOf_TOXAV_CALL_CONTROL (word_of_nat i) = ret (consts_TOXAV_CALL_CONTROL ! i)" for i
    by (auto simp: consts_TOXAV_CALL_CONTROL_def valueOf_TOXAV_CALL_CONTROL_def small_index)
  show "i < length consts_TOXAV_CALL_CONTROL \<Longrightarrow> ordinal_TOXAV_CALL_CONTROL (consts_TOXAV_CALL_CONTROL ! i) = ret (word_of_nat i)" for i
    by (auto simp: consts_TOXAV_CALL_CONTROL_def small_index)
  show "e \<notin> set consts_TOXAV_CALL_CONTROL \<Longrightarrow>
      ordinal_TOXAV_CALL_CONTROL e = tox4j_fatal_error ''Invalid enumerator from toxcore''" for e
    by (cases e) (auto simp: consts_TOXAV_CALL_CONTROL_def)
qed (rule valueOf_TOXAV_CALL_CONTROL_other print_arg_TOXAV_CALL_CONTROL_inject | simp add: consts_TOXAV_CALL_CONTROL_def | assumption)+

definition consts_TOXAV_FRIEND_CALL_STATE :: "TOXAV_FRIEND_CALL_STATE list" where
  "consts_TOXAV_FRIEND_CALL_STATE = [TOXAV_FRIEND_CALL_STATE_ERROR,
     TOXAV_FRIEND_CALL_STATE_FINISHED,
     TOXAV_FRIEND_CALL_STATE_SENDING_A,
     TOXAV_FRIEND_CALL_STATE_SENDING_V,
     TOXAV_FRIEND_CALL_STATE_ACCEPTING_A,
     TOXAV_FRIEND_CALL_STATE_ACCEPTING_V]"

lemma print_arg_TOXAV_FRIEND_CALL_STATE_inject: "print_arg_TOXAV_FRIEND_CALL_STATE e = print_arg_TOXAV_FRIEND_CALL_STATE e' \<longleftrightarrow> e = e'"
  by (cases e; cases e'; auto intro: signed_word_eqI)

lemma valueOf_TOXAV_FRIEND_CALL_STATE_other:
  "length consts_TOXAV_FRIEND_CALL_STATE \<le> unat n \<Longrightarrow>
   valueOf_TOXAV_FRIEND_CALL_STATE n = tox4j_fatal_error ''Invalid enumerator from Java''"
  by (auto simp: valueOf_TOXAV_FRIEND_CALL_STATE_def consts_TOXAV_FRIEND_CALL_STATE_def)

interpretation toxav_friend_call_state: enum_codec ordinal_TOXAV_FRIEND_CALL_STATE valueOf_TOXAV_FRIEND_CALL_STATE print_arg_TOXAV_FRIEND_CALL_STATE consts_TOXAV_FRIEND_CALL_STATE
proof
  show "i < length consts_TOXAV_FRIEND_CALL_STATE \<Longrightarrow> valueOf_TOXAV_FRIEND_CALL_STATE (word_of_nat i) = ret (consts_TOXAV_FRIEND_CALL_STATE ! i)" for i
    by (auto simp: consts_TOXAV_FRIEND_CALL_STATE_def valueOf_TOXAV_FRIEND_CALL_STATE_def small_index)
  show "i < length consts_TOXAV_FRIEND_CALL_STATE \<Longrightarrow> ordinal_TOXAV_FRIEND_CALL_STATE (consts_TOXAV_FRIEND_CALL_STATE ! i) = ret (word_of_nat i)" for i
    by (auto simp: consts_TOXAV_FRIEND_CALL_STATE_def small_index)
  show "e \<notin> set consts_TOXAV_FRIEND_CALL_STATE \<Longrightarrow>
      ordinal_TOXAV_FRIEND_CALL_STATE e = tox4j_fatal_error ''Invalid enumerator from toxcore''" for e
    by (cases e) (auto simp: consts_TOXAV_FRIEND_CALL_STATE_def)
qed (rule valueOf_TOXAV_FRIEND_CALL_STATE_other print_arg_TOXAV_FRIEND_CALL_STATE_inject | simp add: consts_TOXAV_FRIEND_CALL_STATE_def | assumption)+

end
