(* ===== verification/Debug_Log.thy ===== *)
theory Debug_Log
  imports Java_Arrays Enums "HOL-Library.Signed_Division"
begin

text \<open>
  \<open>util/debug_log.{h,cpp}\<close> and the \<open>print_arg\<close> specialisations of \<open>ToxCore/debug.cpp\<close>,
  \<open>ToxAv/debug.cpp\<close> and \<open>ToxCrypto/debug.cpp\<close>: the log of native calls. The messages of
  \<open>ProtoLog.proto\<close> are records; an entry is identified by a number that stands for its
  address. The clock, a sequence of readings in nanoseconds, is part of the environment.
\<close>

section \<open>Messages\<close>

datatype pvalue = Value (truncated: uint32) (variant_of: pvariant)
and pvariant =
    V_unset
  | V_sint64 jlong
  | V_string string
  | V_bytes "uint8 list"
  | V_object "(string \<times> pvalue) list"

record log_entry =
  entry_name :: string
  entry_instance :: uint32
  entry_arguments :: "pvalue list"
  entry_result :: "pvalue option"
  entry_timestamp :: "(jlong \<times> jint) option"
  elapsed_nanos :: uint32

definition blank_entry :: log_entry where
  "blank_entry = \<lparr>entry_name = '''', entry_instance = 0, entry_arguments = [],
     entry_result = None, entry_timestamp = None, elapsed_nanos = 0\<rparr>"

section \<open>State\<close>

text \<open>\<open>JniLog::data\<close>; \<open>log_next\<close> is the address the next entry gets.\<close>

record jni_log =
  log_max_size :: jint
  log_entries :: "(nat \<times> log_entry) list"
  log_next :: nat
  log_filters :: "string list"

definition initial_log :: jni_log where
  "initial_log = \<lparr>log_max_size = 100, log_entries = [], log_next = 0, log_filters = []\<rparr>"

text \<open>
  The global log, the function registry, the function-local statics (\<open>REGISTER_FUNCS\<close>
  inside a function, the \<open>ids\<close> of \<open>print_arg\<close>), and the clock.
\<close>

record logenv = jenv +
  jni_log_of :: jni_log
  func_names :: "uintptr \<Rightarrow> string option"
  static_funcs :: "uintptr list"
  tox_ids :: "uintptr list"
  av_ids :: "uintptr list"
  clock :: "nat \<Rightarrow> int"
  ticks :: nat

section \<open>Function names\<close>

definition register_func :: "uintptr \<Rightarrow> string \<Rightarrow> ('z logenv_scheme, bool) prog" where
  "register_func func name =
     andThen (reads func_names) (\<lambda>names.
     andThen (cassert ''names.find (func) == names.end ()'' (names func = None)) (\<lambda>_.
     andThen (modifies (\<lambda>s. s\<lparr>func_names := names(func \<mapsto> name)\<rparr>)) (\<lambda>_.
     ret True)))"

fun register_funcs :: "(uintptr \<times> string) list \<Rightarrow> ('z logenv_scheme, bool) prog" where
  "register_funcs [] = ret True"
| "register_funcs ((func, name) # funcs) =
     andThen (register_func func name) (\<lambda>_. register_funcs funcs)"

definition func_name :: "(uintptr \<Rightarrow> string option) \<Rightarrow> uintptr \<Rightarrow> string" where
  "func_name names func =
     (case names func of Some name \<Rightarrow> name | None \<Rightarrow> to_string_nat (unat func))"

definition get_func_name :: "uintptr \<Rightarrow> ('z logenv_scheme, string) prog" where
  "get_func_name func = reads (\<lambda>s. func_name (func_names s) func)"

section \<open>Arguments\<close>

definition MAX_DATA_LOG_LENGTH :: nat where
  "MAX_DATA_LOG_LENGTH = 128"

text \<open>\<open>struct Tox_Options\<close>, through the accessors of toxcore.\<close>

record tox_options =
  opt_ipv6_enabled :: bool
  opt_udp_enabled :: bool
  opt_local_discovery_enabled :: bool
  opt_proxy_type :: TOX_PROXY_TYPE
  opt_proxy_host :: "string option"
  opt_proxy_port :: uint16
  opt_start_port :: uint16
  opt_end_port :: uint16
  opt_tcp_port :: uint16
  opt_savedata_type :: TOX_SAVEDATA_TYPE
  opt_savedata :: "uint8 list option"

text \<open>A logged value, by the overload of \<open>print_arg\<close> that its C++ type selects.\<close>

datatype log_arg =
    Arg_integer int
  | Arg_cstr "string option"
  | Arg_byte_ptr "uint8 list option"
  | Arg_bytes "uint8 list option"
  | Arg_shorts "jshort list option"
  | Arg_samples "jshort list option"
  | Arg_uint8_vector "uint8 list"
  | Arg_jint_vector "jint list"
  | Arg_enum string
  | Arg_tox uintptr
  | Arg_toxav uintptr
  | Arg_options "tox_options option"
  | Arg_core_events "nat option"
  | Arg_av_events "nat option"
  | Arg_pass_key
  | Arg_void

definition set_v_string :: "string \<Rightarrow> pvalue" where
  "set_v_string str = Value 0 (V_string str)"

definition print_integer :: "int \<Rightarrow> pvalue" where
  "print_integer arg = Value 0 (V_sint64 (word_of_int arg))"

definition print_cstr :: "string option \<Rightarrow> pvalue" where
  "print_cstr data = set_v_string (case data of None \<Rightarrow> ''<null>'' | Some str \<Rightarrow> str)"

definition print_byte_ptr :: "uint8 list option \<Rightarrow> pvalue" where
  "print_byte_ptr data = set_v_string (case data of None \<Rightarrow> ''<null>'' | Some _ \<Rightarrow> ''byte[]'')"

definition print_bytes :: "uint8 list option \<Rightarrow> pvalue" where
  "print_bytes data =
    (case data of
       None \<Rightarrow> set_v_string ''<null>''
     | Some bytes \<Rightarrow>
         Value (if length bytes > MAX_DATA_LOG_LENGTH then word_of_nat (length bytes) else 0)
           (V_bytes (take (min (length bytes) MAX_DATA_LOG_LENGTH) bytes)))"

definition print_shorts :: "jshort list option \<Rightarrow> pvalue" where
  "print_shorts data =
     set_v_string (case data of None \<Rightarrow> ''<null>''
       | Some xs \<Rightarrow> ''short['' @ to_string_nat (length xs) @ '']'')"

definition print_samples :: "jshort list option \<Rightarrow> pvalue" where
  "print_samples data =
     set_v_string (case data of None \<Rightarrow> ''<null>'' | Some _ \<Rightarrow> ''<audio samples>'')"

text \<open>\<open>data ()\<close> of an empty \<open>std::vector\<close> that never allocated is null.\<close>

definition print_uint8_vector :: "uint8 list \<Rightarrow> pvalue" where
  "print_uint8_vector data = print_bytes (if data = [] then None else Some data)"

definition print_jint_vector :: "jint list \<Rightarrow> pvalue" where
  "print_jint_vector data = set_v_string (''int['' @ to_string_nat (length data) @ '']'')"

definition pointer_index :: "uintptr list \<Rightarrow> uintptr \<Rightarrow> nat" where
  "pointer_index ids p = length (takeWhile (\<lambda>q. q \<noteq> p) ids)"

definition remember_pointer :: "uintptr list \<Rightarrow> uintptr \<Rightarrow> uintptr list" where
  "remember_pointer ids p = (if p \<in> set ids then ids else ids @ [p])"

definition print_tox :: "uintptr \<Rightarrow> ('z logenv_scheme, pvalue) prog" where
  "print_tox tox =
     andThen (modifies (\<lambda>s. s\<lparr>tox_ids := remember_pointer (tox_ids s) tox\<rparr>)) (\<lambda>_.
     reads (\<lambda>s. set_v_string (''@'' @ to_string_nat (pointer_index (tox_ids s) tox + 1))))"

definition print_toxav :: "uintptr \<Rightarrow> ('z logenv_scheme, pvalue) prog" where
  "print_toxav tox =
     andThen (modifies (\<lambda>s. s\<lparr>av_ids := remember_pointer (av_ids s) tox\<rparr>)) (\<lambda>_.
     reads (\<lambda>s. set_v_string (''@'' @ to_string_nat (pointer_index (av_ids s) tox + 1))))"

definition of_bool_int :: "bool \<Rightarrow> int" where
  "of_bool_int b = (if b then 1 else 0)"

definition print_tox_options :: "tox_options option \<Rightarrow> pvalue" where
  "print_tox_options options =
    (case options of
       None \<Rightarrow> set_v_string ''<null>''
     | Some opts \<Rightarrow>
         Value 0 (V_object
          [(''ipv6_enabled'', print_integer (of_bool_int (opt_ipv6_enabled opts))),
           (''udp_enabled'', print_integer (of_bool_int (opt_udp_enabled opts))),
           (''proxy_type'', set_v_string (print_arg_TOX_PROXY_TYPE (opt_proxy_type opts))),
           (''proxy_host'', print_cstr (opt_proxy_host opts)),
           (''start_port'', print_integer (uint (opt_start_port opts))),
           (''end_port'', print_integer (uint (opt_end_port opts))),
           (''tcp_port'', print_integer (uint (opt_tcp_port opts))),
           (''savedata_type'', set_v_string (print_arg_TOX_SAVEDATA_TYPE (opt_savedata_type opts))),
           (''savedata'', print_bytes (opt_savedata opts))]))"

definition print_core_events :: "nat option \<Rightarrow> pvalue" where
  "print_core_events events =
     set_v_string (case events of None \<Rightarrow> ''<null>''
       | Some n \<Rightarrow> ''<core::Events['' @ to_string_nat n @ '']>'')"

definition print_av_events :: "nat option \<Rightarrow> pvalue" where
  "print_av_events events =
     set_v_string (case events of None \<Rightarrow> ''<null>''
       | Some n \<Rightarrow> ''<av::Events['' @ to_string_nat n @ '']>'')"

fun print_arg :: "log_arg \<Rightarrow> ('z logenv_scheme, pvalue) prog" where
  "print_arg (Arg_integer arg) = ret (print_integer arg)"
| "print_arg (Arg_cstr data) = ret (print_cstr data)"
| "print_arg (Arg_byte_ptr data) = ret (print_byte_ptr data)"
| "print_arg (Arg_bytes data) = ret (print_bytes data)"
| "print_arg (Arg_shorts data) = ret (print_shorts data)"
| "print_arg (Arg_samples data) = ret (print_samples data)"
| "print_arg (Arg_uint8_vector data) = ret (print_uint8_vector data)"
| "print_arg (Arg_jint_vector data) = ret (print_jint_vector data)"
| "print_arg (Arg_enum name) = ret (set_v_string name)"
| "print_arg (Arg_tox tox) = print_tox tox"
| "print_arg (Arg_toxav tox) = print_toxav tox"
| "print_arg (Arg_options options) = ret (print_tox_options options)"
| "print_arg (Arg_core_events events) = ret (print_core_events events)"
| "print_arg (Arg_av_events events) = ret (print_av_events events)"
| "print_arg Arg_pass_key = ret (set_v_string ''pass_key'')"
| "print_arg Arg_void = ret (Value 0 V_unset)"

section \<open>Entries\<close>

text \<open>The pointer \<open>entry_\<close> of a \<open>JniLog::Entry\<close>.\<close>

type_synonym entry_ptr = "nat option"

definition set_log :: "jni_log \<Rightarrow> 'z logenv_scheme \<Rightarrow> 'z logenv_scheme" where
  "set_log lg s = s\<lparr>jni_log_of := lg\<rparr>"

definition new_entry :: "('z logenv_scheme, entry_ptr) prog" where
  "new_entry =
     andThen (reads jni_log_of) (\<lambda>lg.
     if log_max_size lg = 0 then ret None
     else if int (length (log_entries lg)) \<ge> sint (log_max_size lg) then ret None
     else andThen (modifies (set_log (lg\<lparr>log_entries := log_entries lg @ [(log_next lg, blank_entry)],
                                        log_next := Suc (log_next lg)\<rparr>)))
            (\<lambda>_. ret (Some (log_next lg))))"

text \<open>A write through the pointer, which must point at an entry of the log.\<close>

definition update_entry :: "nat \<Rightarrow> (log_entry \<Rightarrow> log_entry) \<Rightarrow> ('z logenv_scheme, unit) prog" where
  "update_entry p f =
     andThen (reads jni_log_of) (\<lambda>lg.
     if p \<in> fst ` set (log_entries lg)
     then modifies (set_log (lg\<lparr>log_entries :=
            map (\<lambda>(q, e). (q, if q = p then f e else e)) (log_entries lg)\<rparr>))
     else fail (UB ''access through a dangling log entry''))"

definition print_func :: "nat \<Rightarrow> uintptr \<Rightarrow> ('z logenv_scheme, unit) prog" where
  "print_func p func =
     andThen (get_func_name func) (\<lambda>name. update_entry p (\<lambda>e. e\<lparr>entry_name := name\<rparr>))"

fun print_args :: "nat \<Rightarrow> log_arg list \<Rightarrow> ('z logenv_scheme, unit) prog" where
  "print_args p [] = ret ()"
| "print_args p (arg0 # args) =
     andThen (print_arg arg0) (\<lambda>v.
     andThen (update_entry p (\<lambda>e. e\<lparr>entry_arguments := entry_arguments e @ [v]\<rparr>)) (\<lambda>_.
     print_args p args))"

text \<open>
  \<open>JniLog::Entry::~Entry\<close>. The search runs backwards from the end of the log; \<open>k\<close> is the
  distance of the entry from the end.
\<close>

definition destroy_entry :: "entry_ptr \<Rightarrow> ('z logenv_scheme, unit) prog" where
  "destroy_entry ep =
    (case ep of
       None \<Rightarrow> ret ()
     | Some p \<Rightarrow>
         andThen (reads jni_log_of) (\<lambda>lg.
         case map_of (log_entries lg) p of
           None \<Rightarrow> fail (UB ''access through a dangling log entry'')
         | Some e \<Rightarrow>
             if entry_name e \<in> set (log_filters lg)
             then
               let k = length (takeWhile (\<lambda>(q, _). q \<noteq> p) (rev (log_entries lg)));
                   deleted_index = length (log_entries lg) - k - 1
               in andThen (cassert ''found != entries->rend ()'' (k \<noteq> length (log_entries lg))) (\<lambda>_.
                  modifies (set_log (lg\<lparr>log_entries :=
                    take deleted_index (log_entries lg) @
                    drop (Suc deleted_index) (log_entries lg)\<rparr>)))
             else ret ()))"

section \<open>The log\<close>

fun resolve_names ::
  "(uintptr \<Rightarrow> string option) \<Rightarrow> (nat \<times> log_entry) list \<Rightarrow> ('s, log_entry list) prog" where
  "resolve_names names [] = ret []"
| "resolve_names names ((_, entry) # entries) =
     andThen (cassert ''!entry.name ().empty ()'' (entry_name entry \<noteq> [])) (\<lambda>_.
     andThen (resolve_names names entries) (\<lambda>resolved.
     ret ((if isdigit (hd (entry_name entry))
           then entry\<lparr>entry_name := func_name names (read_uintptr (entry_name entry))\<rparr>
           else entry) # resolved)))"

text \<open>The protobuf serialiser of the log is a parameter.\<close>

definition clear_log ::
  "(log_entry list \<Rightarrow> uint8 list) \<Rightarrow> ('z logenv_scheme, uint8 list) prog" where
  "clear_log serialize =
     andThen (reads jni_log_of) (\<lambda>lg.
     andThen (reads func_names) (\<lambda>names.
     andThen (resolve_names names (log_entries lg)) (\<lambda>resolved.
     andThen (modifies (set_log (lg\<lparr>log_entries := []\<rparr>))) (\<lambda>_.
     ret (serialize resolved)))))"

definition log_size :: "('z logenv_scheme, jint) prog" where
  "log_size = reads (\<lambda>s. word_of_nat (length (log_entries (jni_log_of s))))"

definition log_empty :: "('z logenv_scheme, bool) prog" where
  "log_empty = andThen log_size (\<lambda>n. ret (n = 0))"

definition set_max_size :: "jint \<Rightarrow> ('z logenv_scheme, unit) prog" where
  "set_max_size max_size = modifies (\<lambda>s. set_log ((jni_log_of s)\<lparr>log_max_size := max_size\<rparr>) s)"

definition get_max_size :: "('z logenv_scheme, jint) prog" where
  "get_max_size = reads (\<lambda>s. log_max_size (jni_log_of s))"

definition set_filter :: "string list \<Rightarrow> ('z logenv_scheme, unit) prog" where
  "set_filter filters = modifies (\<lambda>s. set_log ((jni_log_of s)\<lparr>log_filters := filters\<rparr>) s)"

section \<open>LogEntry\<close>

definition log_entry_open :: "uintptr \<Rightarrow> log_arg list \<Rightarrow> ('z logenv_scheme, entry_ptr) prog" where
  "log_entry_open func args =
     andThen new_entry (\<lambda>entry.
     andThen (case entry of
                None \<Rightarrow> ret ()
              | Some p \<Rightarrow> andThen (print_func p func) (\<lambda>_. print_args p args)) (\<lambda>_.
     ret entry))"

definition instance_log_entry_open ::
  "jint \<Rightarrow> uintptr \<Rightarrow> log_arg list \<Rightarrow> ('z logenv_scheme, entry_ptr) prog" where
  "instance_log_entry_open instanceNumber func args =
     andThen (log_entry_open func args) (\<lambda>entry.
     andThen (case entry of
                None \<Rightarrow> ret ()
              | Some p \<Rightarrow> update_entry p (\<lambda>e. e\<lparr>entry_instance := instanceNumber\<rparr>)) (\<lambda>_.
     ret entry))"

definition clock_now :: "('z logenv_scheme, int) prog" where
  "clock_now =
     andThen (reads (\<lambda>s. clock s (ticks s))) (\<lambda>t.
     andThen (modifies (\<lambda>s. s\<lparr>ticks := Suc (ticks s)\<rparr>)) (\<lambda>_. ret t))"

text \<open>
  \<open>duration_cast<seconds>\<close> and \<open>%\<close> truncate towards zero; the elapsed time goes to a
  \<open>uint32\<close> field. \<open>show_result\<close> is the \<open>print_arg\<close> overload of the result.
\<close>

definition record_times :: "int \<Rightarrow> int \<Rightarrow> log_entry \<Rightarrow> log_entry" where
  "record_times start stop e =
     e\<lparr>entry_timestamp := Some (word_of_int (start sdiv 1000000000), word_of_int (start smod 1000000000)),
       elapsed_nanos := word_of_int (stop - start)\<rparr>"

definition print_result ::
  "entry_ptr \<Rightarrow> ('r \<Rightarrow> log_arg) \<Rightarrow> ('z logenv_scheme, 'r) prog \<Rightarrow> ('z logenv_scheme, 'r) prog" where
  "print_result entry show_result func =
    (case entry of
       None \<Rightarrow> func
     | Some p \<Rightarrow>
         andThen clock_now (\<lambda>start.
         andThen func (\<lambda>result.
         andThen clock_now (\<lambda>stop.
         andThen (update_entry p (record_times start stop)) (\<lambda>_.
         andThen (print_arg (show_result result)) (\<lambda>v.
         andThen (update_entry p (\<lambda>e. e\<lparr>entry_result := Some v\<rparr>)) (\<lambda>_.
         ret result)))))))"

text \<open>The scope of a \<open>LogEntry\<close> variable: its destructor runs at the end.\<close>

definition with_log_entry ::
  "('z logenv_scheme, entry_ptr) prog \<Rightarrow> (entry_ptr \<Rightarrow> ('z logenv_scheme, 'r) prog) \<Rightarrow>
   ('z logenv_scheme, 'r) prog" where
  "with_log_entry open_entry scope =
     andThen open_entry (\<lambda>entry.
     andThen (scope entry) (\<lambda>r.
     andThen (destroy_entry entry) (\<lambda>_. ret r)))"

end
