(* ===== verification/Log_Facts.thy ===== *)
theory Log_Facts
  imports Debug_Log
begin

text \<open>
  What the operations of the log do. First a step relation that every logged call
  respects whatever it does in between (the log stays well-formed, entries that others
  point at stay, its size stays within the limit, nothing but the log changes); then the
  exact effect of a logged call that makes no logged calls itself.
\<close>

section \<open>Invariant and frame\<close>

definition log_wf :: "jni_log \<Rightarrow> bool" where
  "log_wf lg \<longleftrightarrow>
     distinct (map fst (log_entries lg)) \<and>
     (\<forall>(p, e) \<in> set (log_entries lg). p < log_next lg \<and> entry_name e \<noteq> [])"

definition names_wf :: "(uintptr \<Rightarrow> string option) \<Rightarrow> bool" where
  "names_wf names \<longleftrightarrow> (\<forall>func name. names func = Some name \<longrightarrow> name \<noteq> [] \<and> \<not> isdigit (hd name))"

definition log_ok :: "'z logenv_scheme \<Rightarrow> bool" where
  "log_ok s \<longleftrightarrow> log_wf (jni_log_of s) \<and> names_wf (func_names s)"

definition pointers :: "'z logenv_scheme \<Rightarrow> nat set" where
  "pointers s = fst ` set (log_entries (jni_log_of s))"

definition points :: "entry_ptr \<Rightarrow> 'z logenv_scheme \<Rightarrow> bool" where
  "points ep s \<longleftrightarrow> (case ep of None \<Rightarrow> True | Some p \<Rightarrow> p \<in> pointers s)"

text \<open>Everything outside the log: the Java environment and the rest of the process.\<close>

definition log_frame :: "'z logenv_scheme \<Rightarrow> 'z logenv_scheme \<Rightarrow> bool" where
  "log_frame s t \<longleftrightarrow>
     jvm_of t = jvm_of s \<and> pending t = pending s \<and> clock t = clock s \<and>
     logenv.more t = logenv.more s \<and>
     func_names t = func_names s \<and> static_funcs t = static_funcs s"

definition log_step :: "'z logenv_scheme \<Rightarrow> 'z logenv_scheme \<Rightarrow> bool" where
  "log_step s t \<longleftrightarrow>
     log_ok t \<and> log_frame s t \<and> pointers s \<subseteq> pointers t \<and>
     log_next (jni_log_of s) \<le> log_next (jni_log_of t) \<and>
     log_max_size (jni_log_of t) = log_max_size (jni_log_of s) \<and>
     log_filters (jni_log_of t) = log_filters (jni_log_of s) \<and>
     length (log_entries (jni_log_of t)) \<le>
       max (length (log_entries (jni_log_of s))) (nat (sint (log_max_size (jni_log_of s))))"

lemma log_frame_refl [simp]: "log_frame s s"
  by (simp add: log_frame_def)

lemma log_frame_trans [trans]: "log_frame s t \<Longrightarrow> log_frame t u \<Longrightarrow> log_frame s u"
  by (simp add: log_frame_def)

lemma log_step_refl: "log_ok s \<Longrightarrow> log_step s s"
  by (simp add: log_step_def)

lemma log_step_trans [trans]: "log_step s t \<Longrightarrow> log_step t u \<Longrightarrow> log_step s u"
  by (auto simp: log_step_def intro: log_frame_trans)

lemma log_stepD:
  assumes "log_step s t"
  shows "log_ok t" and "log_frame s t" and "points ep s \<Longrightarrow> points ep t"
    and "pending t = pending s" and "jvm_of t = jvm_of s" and "logenv.more t = logenv.more s"
    and "func_names t = func_names s" and "static_funcs t = static_funcs s"
  using assms by (auto simp: log_step_def log_frame_def points_def split: option.splits)

lemma log_step_unlogged:
  assumes "jni_log_of t = jni_log_of s" and "log_frame s t" and "names_wf (func_names t)"
    and "log_ok s"
  shows "log_step s t"
  using assms by (simp add: log_step_def log_ok_def pointers_def)

text \<open>A computation that does nothing but log, from a state with property \<open>P\<close>.\<close>

definition logs_only ::
  "('z logenv_scheme \<Rightarrow> bool) \<Rightarrow> ('z logenv_scheme, 'r) prog \<Rightarrow> ('r \<Rightarrow> bool) \<Rightarrow> bool" where
  "logs_only P m R \<longleftrightarrow> (\<forall>s. log_ok s \<longrightarrow> P s \<longrightarrow> wp m (\<lambda>r t. log_step s t \<and> R r) s)"

lemma logs_onlyI:
  "(\<And>s. log_ok s \<Longrightarrow> P s \<Longrightarrow> wp m (\<lambda>r t. log_step s t \<and> R r) s) \<Longrightarrow> logs_only P m R"
  by (simp add: logs_only_def)

lemma logs_onlyD: "logs_only P m R \<Longrightarrow> log_ok s \<Longrightarrow> P s \<Longrightarrow> wp m (\<lambda>r t. log_step s t \<and> R r) s"
  by (simp add: logs_only_def)

lemma logs_only_ret: "R r \<Longrightarrow> logs_only P (ret r) R"
  by (simp add: logs_only_def wp_simps log_step_refl)

lemma logs_only_pre: "logs_only Q m R \<Longrightarrow> (\<And>s. P s \<Longrightarrow> Q s) \<Longrightarrow> logs_only P m R"
  by (simp add: logs_only_def)

text \<open>Sequencing, for a precondition that logging keeps.\<close>

lemma logs_only_andThen:
  assumes m: "logs_only P m R" and f: "\<And>a. R a \<Longrightarrow> logs_only P (f a) R'"
    and P: "\<And>s t. P s \<Longrightarrow> log_step s t \<Longrightarrow> P t"
  shows "logs_only P (andThen m f) R'"
proof (rule logs_onlyI)
  fix s assume s: "log_ok s" "P s"
  from m s have "wp m (\<lambda>r t. log_step s t \<and> R r) s" by (rule logs_onlyD)
  then show "wp (andThen m f) (\<lambda>r t. log_step s t \<and> R' r) s"
    unfolding wp_andThen
  proof (rule wp_mono)
    fix a t assume at: "log_step s t \<and> R a"
    then have "log_ok t" "P t" using P [OF s(2)] by (auto dest: log_stepD(1))
    with f [of a] at have "wp (f a) (\<lambda>r u. log_step t u \<and> R' r) t" by (auto dest: logs_onlyD)
    then show "wp (f a) (\<lambda>r u. log_step s u \<and> R' r) t"
      by (rule wp_mono) (use at log_step_trans in blast)
  qed
qed

section \<open>Elementary steps\<close>

abbreviation lg :: "'z logenv_scheme \<Rightarrow> jni_log" where
  "lg s \<equiv> jni_log_of s"

lemma set_log_simps [simp]:
  "jni_log_of (set_log l s) = l" "func_names (set_log l s) = func_names s"
  "pending (set_log l s) = pending s" "jvm_of (set_log l s) = jvm_of s"
  "clock (set_log l s) = clock s" "ticks (set_log l s) = ticks s"
  "static_funcs (set_log l s) = static_funcs s"
  "tox_ids (set_log l s) = tox_ids s" "av_ids (set_log l s) = av_ids s"
  "logenv.more (set_log l s) = logenv.more s"
  "set_log l (set_log l' s) = set_log l s"
  "set_log (jni_log_of s) s = s"
  by (simp_all add: set_log_def)

lemma log_frame_set_log [simp]: "log_frame s (set_log l t) = log_frame s t"
  by (simp add: log_frame_def)

definition ids_step :: "'z logenv_scheme \<Rightarrow> 'z logenv_scheme \<Rightarrow> bool" where
  "ids_step s t \<longleftrightarrow> (\<exists>i j k. t = s\<lparr>tox_ids := i, av_ids := j, ticks := k\<rparr>)"

lemma ids_step_log_step: "ids_step s t \<Longrightarrow> log_ok s \<Longrightarrow> log_step s t"
  by (auto simp: ids_step_def log_ok_def log_frame_def intro!: log_step_unlogged)

lemma ids_stepI:
  "ids_step s (s\<lparr>tox_ids := i\<rparr>)" "ids_step s (s\<lparr>av_ids := j\<rparr>)" "ids_step s (s\<lparr>ticks := k\<rparr>)" "ids_step s s"
  unfolding ids_step_def
     apply (rule exI [of _ i], rule exI [of _ "av_ids s"], rule exI [of _ "ticks s"], simp)
    apply (rule exI [of _ "tox_ids s"], rule exI [of _ j], rule exI [of _ "ticks s"], simp)
   apply (rule exI [of _ "tox_ids s"], rule exI [of _ "av_ids s"], rule exI [of _ k], simp)
  apply (rule exI [of _ "tox_ids s"], rule exI [of _ "av_ids s"], rule exI [of _ "ticks s"], simp)
  done

lemma print_arg_step: "wp (print_arg a) (\<lambda>_. ids_step s) s"
  by (cases a) (simp_all add: wp_simps print_tox_def print_toxav_def ids_stepI)

lemma logs_only_print_arg: "logs_only P (print_arg a) (\<lambda>_. True)"
  by (rule logs_onlyI, rule wp_mono [OF print_arg_step]) (simp add: ids_step_log_step)

lemma logs_only_clock_now: "logs_only P clock_now (\<lambda>_. True)"
  by (rule logs_onlyI)
    (auto simp: clock_now_def wp_simps intro: ids_step_log_step ids_stepI)

definition write_entry ::
  "nat \<Rightarrow> (log_entry \<Rightarrow> log_entry) \<Rightarrow> 'z logenv_scheme \<Rightarrow> 'z logenv_scheme" where
  "write_entry p f s =
     set_log ((lg s)\<lparr>log_entries :=
       map (\<lambda>(q, e). (q, if q = p then f e else e)) (log_entries (lg s))\<rparr>) s"

lemma update_entry_points:
  "points (Some p) s \<Longrightarrow> update_entry p f s = Done ((), write_entry p f s)"
  by (simp add: update_entry_def write_entry_def points_def pointers_def)

lemma map_fst_write: "map fst (map (\<lambda>(q, e). (q, if q = p then f e else e)) es) = map fst es"
  by (induction es) auto

lemma log_step_write_entry:
  assumes "log_ok s" and "\<And>e. entry_name e \<noteq> [] \<Longrightarrow> entry_name (f e) \<noteq> []"
  shows "log_step s (write_entry p f s)"
proof -
  let ?t = "write_entry p f s"
  have "log_wf (lg ?t)"
    using assms
    by (fastforce simp: log_ok_def log_wf_def write_entry_def map_fst_write simp del: map_map
        split: if_splits)
  moreover have "pointers ?t = pointers s"
    by (auto simp: pointers_def write_entry_def image_image case_prod_unfold)
  ultimately show ?thesis using assms(1) by (simp add: log_step_def log_ok_def write_entry_def)
qed

lemma logs_only_update_entry:
  assumes "\<And>e. entry_name e \<noteq> [] \<Longrightarrow> entry_name (f e) \<noteq> []"
  shows "logs_only (points (Some p)) (update_entry p f) (\<lambda>_. True)"
  by (rule logs_onlyI) (simp add: wp_iff update_entry_points log_step_write_entry assms)

lemma points_step: "points ep s \<Longrightarrow> log_step s t \<Longrightarrow> points ep t"
  by (rule log_stepD(3))

lemma logs_only_print_args: "logs_only (points (Some p)) (print_args p args) (\<lambda>_. True)"
proof (induction args)
  case Nil
  show ?case unfolding print_args.simps by (rule logs_only_ret) simp
next
  case (Cons a args)
  have "logs_only (points (Some p))
      (update_entry p (\<lambda>e. e\<lparr>entry_arguments := entry_arguments e @ [v]\<rparr>)) (\<lambda>_. True)" for v
    by (rule logs_only_update_entry) simp
  then show ?case
    by (auto intro!: logs_only_andThen [OF logs_only_print_arg] logs_only_andThen Cons.IH
        intro: points_step)
qed

section \<open>The scope of an entry\<close>

lemma func_name_ne: "names_wf names \<Longrightarrow> func_name names f \<noteq> []"
  by (auto simp: func_name_def names_wf_def split: option.splits)

text \<open>A new entry with its name: the log is full, or one entry is appended.\<close>

definition has_log_room :: "'z logenv_scheme \<Rightarrow> bool" where
  "has_log_room s \<longleftrightarrow>
     log_max_size (lg s) \<noteq> 0 \<and> int (length (log_entries (lg s))) < sint (log_max_size (lg s))"

definition push_entry :: "log_entry \<Rightarrow> 'z logenv_scheme \<Rightarrow> 'z logenv_scheme" where
  "push_entry e s =
     set_log ((lg s)\<lparr>log_entries := log_entries (lg s) @ [(log_next (lg s), e)],
                     log_next := Suc (log_next (lg s))\<rparr>) s"

lemma new_entry_eq:
  "new_entry s = (if has_log_room s then Done (Some (log_next (lg s)), push_entry blank_entry s)
                  else Done (None, s))"
  by (simp add: new_entry_def has_log_room_def push_entry_def not_le)

lemma fresh_pointer: "log_ok s \<Longrightarrow> log_next (lg s) \<notin> pointers s"
  by (auto simp: log_ok_def log_wf_def pointers_def)

lemma map_write_fresh:
  assumes "p \<notin> fst ` set es"
  shows "map (\<lambda>(q, e). (q, if q = p then f e else e)) (es @ [(p, e)]) = es @ [(p, f e)]"
  using assms by (induction es) auto

lemma write_push_entry:
  "log_ok s \<Longrightarrow> write_entry (log_next (lg s)) f (push_entry e s) = push_entry (f e) s"
  using fresh_pointer [of s]
  by (simp add: write_entry_def push_entry_def pointers_def map_write_fresh del: map_append)

lemma points_push_entry: "points (Some (log_next (lg s))) (push_entry e s)"
  by (simp add: points_def pointers_def push_entry_def)

lemma log_step_push_entry:
  assumes "log_ok s" and "has_log_room s" and "entry_name e \<noteq> []"
  shows "log_step s (push_entry e s)"
proof -
  have "log_wf (lg (push_entry e s))"
    using assms(1,3) by (auto simp: log_ok_def log_wf_def push_entry_def)
  moreover have "Suc (length (log_entries (lg s))) \<le> nat (sint (log_max_size (lg s)))"
    using assms(2) by (auto simp: has_log_room_def)
  ultimately show ?thesis using assms(1)
    by (auto simp: log_step_def log_ok_def pointers_def push_entry_def)
qed

definition named_entry :: "uintptr \<Rightarrow> 'z logenv_scheme \<Rightarrow> log_entry" where
  "named_entry f s = blank_entry\<lparr>entry_name := func_name (func_names s) f\<rparr>"

lemma open_named:
  assumes "log_ok s" and "has_log_room s"
  shows "print_func (log_next (lg s)) f (push_entry blank_entry s) = Done ((), push_entry (named_entry f s) s)"
  using assms points_push_entry [of s blank_entry]
  by (simp add: print_func_def get_func_name_def update_entry_points write_push_entry named_entry_def)
    (simp add: push_entry_def)

lemma log_entry_open_step:
  assumes "log_ok s"
  shows "wp (log_entry_open f args) (\<lambda>ep t. log_step s t \<and> points ep t \<and>
           (\<forall>p. ep = Some p \<longrightarrow> p \<notin> pointers s)) s"
proof (cases "has_log_room s")
  case False
  with assms show ?thesis
    by (simp add: log_entry_open_def wp_iff andThen_def new_entry_eq log_step_refl points_def)
next
  case True
  let ?p = "log_next (lg s)" and ?t = "push_entry (named_entry f s) s"
  have name: "entry_name (named_entry f s) \<noteq> []"
    using assms by (simp add: named_entry_def func_name_ne log_ok_def)
  have step: "log_step s ?t" by (rule log_step_push_entry [OF assms True name])
  have "wp (print_args ?p args) (\<lambda>_ u. log_step ?t u \<and> True) ?t"
    by (rule logs_onlyD [OF logs_only_print_args log_stepD(1) [OF step] points_push_entry])
  then have "wp (print_args ?p args) (\<lambda>_ u. log_step s u \<and> points (Some ?p) u) ?t"
    by (rule wp_mono) (use step log_step_trans points_step points_push_entry in blast)
  with fresh_pointer [OF assms] show ?thesis
    by (auto simp: log_entry_open_def wp_iff andThen_def new_entry_eq True open_named [OF assms True])
qed

lemma instance_log_entry_open_step:
  assumes "log_ok s"
  shows "wp (instance_log_entry_open n f args) (\<lambda>ep t. log_step s t \<and> points ep t \<and>
           (\<forall>p. ep = Some p \<longrightarrow> p \<notin> pointers s)) s"
  unfolding instance_log_entry_open_def wp_andThen
proof (rule wp_mono [OF log_entry_open_step [OF assms]])
  fix ep t
  assume t: "log_step s t \<and> points ep t \<and> (\<forall>p. ep = Some p \<longrightarrow> p \<notin> pointers s)"
  show "wp (case ep of None \<Rightarrow> ret () | Some p \<Rightarrow> update_entry p (\<lambda>e. e\<lparr>entry_instance := n\<rparr>))
      (\<lambda>_. wp (ret ep) (\<lambda>ep t. log_step s t \<and> points ep t \<and>
        (\<forall>p. ep = Some p \<longrightarrow> p \<notin> pointers s))) t"
  proof (cases ep)
    case None
    with t show ?thesis by (simp add: wp_simps)
  next
    case (Some p)
    have "log_step t (write_entry p (\<lambda>e. e\<lparr>entry_instance := n\<rparr>) t)"
      by (rule log_step_write_entry) (use t log_stepD(1) in auto)
    with t Some show ?thesis
      by (auto simp: wp_iff update_entry_points intro: log_step_trans points_step)
  qed
qed

subsection \<open>Destruction\<close>

lemma take_drop_index:
  assumes "distinct (map fst es)" and "p \<in> fst ` set es"
  shows "let k = length (takeWhile (\<lambda>(q, _). q \<noteq> p) (rev es)); i = length es - k - 1
     in k \<noteq> length es \<and> take i es @ drop (Suc i) es = filter (\<lambda>(q, _). q \<noteq> p) es"
proof -
  from assms(2) obtain e where "(p, e) \<in> set es" by auto
  then obtain xs ys where es: "es = xs @ (p, e) # ys" by (meson split_list)
  with assms(1) have ps: "p \<notin> fst ` set xs" "p \<notin> fst ` set ys" by auto
  have tw: "takeWhile (\<lambda>(q, _). q \<noteq> p) (rev ys @ (p, e) # rev xs) = rev ys"
    using ps(2) by (subst takeWhile_append2) force+
  have "filter (\<lambda>(q, _). q \<noteq> p) xs = xs" "filter (\<lambda>(q, _). q \<noteq> p) ys = ys"
    using ps by (force simp: filter_id_conv)+
  with tw show ?thesis by (simp add: es Let_def)
qed

definition drop_entry :: "nat \<Rightarrow> 'z logenv_scheme \<Rightarrow> 'z logenv_scheme" where
  "drop_entry p s =
     set_log ((lg s)\<lparr>log_entries := filter (\<lambda>(q, _). q \<noteq> p) (log_entries (lg s))\<rparr>) s"

lemma destroy_entry_eq:
  assumes "log_ok s" and "points (Some p) s"
  shows "destroy_entry (Some p) s =
    Done ((), if entry_name (the (map_of (log_entries (lg s)) p)) \<in> set (log_filters (lg s))
              then drop_entry p s else s)"
proof -
  have "distinct (map fst (log_entries (lg s)))" "p \<in> fst ` set (log_entries (lg s))"
    using assms by (auto simp: log_ok_def log_wf_def points_def pointers_def)
  note ix = take_drop_index [OF this]
  from \<open>p \<in> _\<close> obtain e where "map_of (log_entries (lg s)) p = Some e"
    using weak_map_of_SomeI by force
  with ix show ?thesis
    by (auto simp: destroy_entry_def drop_entry_def Let_def)
qed

lemma drop_entry_simps [simp]:
  "log_next (lg (drop_entry p s)) = log_next (lg s)"
  "log_max_size (lg (drop_entry p s)) = log_max_size (lg s)"
  "log_filters (lg (drop_entry p s)) = log_filters (lg s)"
  by (simp_all add: drop_entry_def)

lemma log_ok_drop_entry: "log_ok s \<Longrightarrow> log_ok (drop_entry p s)"
  by (auto simp: log_ok_def log_wf_def drop_entry_def distinct_map_filter)

lemma destroy_entry_step:
  assumes "log_step s t" and "points ep t" and "\<forall>p. ep = Some p \<longrightarrow> p \<notin> pointers s"
  shows "wp (destroy_entry ep) (\<lambda>_ u. log_step s u) t"
proof (cases ep)
  case None
  with assms show ?thesis by (simp add: destroy_entry_def wp_simps)
next
  case (Some p)
  have "pointers s \<subseteq> pointers (drop_entry p t)"
    using assms(1,3) Some by (force simp: log_step_def pointers_def drop_entry_def)
  moreover have "length (log_entries (lg (drop_entry p t))) \<le> length (log_entries (lg t))"
    by (simp add: drop_entry_def)
  moreover have "log_frame s (drop_entry p t)" using assms(1) by (simp add: log_step_def drop_entry_def)
  ultimately have "log_step s (drop_entry p t)"
    using assms(1) log_ok_drop_entry [OF log_stepD(1) [OF assms(1)], of p]
    by (simp add: log_step_def)
  with assms Some log_stepD(1) [OF assms(1)] show ?thesis
    by (simp add: wp_iff destroy_entry_eq)
qed

text \<open>The scope of an entry only logs when everything in it only logs.\<close>

theorem with_log_entry_step:
  assumes opened: "wp open_entry (\<lambda>ep t. log_step s t \<and> points ep t \<and>
             (\<forall>p. ep = Some p \<longrightarrow> p \<notin> pointers s)) s"
    and P: "P s" "\<And>s t. P s \<Longrightarrow> log_step s t \<Longrightarrow> P t"
    and scope: "\<And>ep. logs_only (\<lambda>t. P t \<and> points ep t) (scope ep) R"
  shows "wp (with_log_entry open_entry scope) (\<lambda>r t. log_step s t \<and> R r) s"
  unfolding with_log_entry_def wp_andThen
proof (rule wp_mono [OF opened])
  fix ep t
  assume t: "log_step s t \<and> points ep t \<and> (\<forall>p. ep = Some p \<longrightarrow> p \<notin> pointers s)"
  with scope [of ep] P have "wp (scope ep) (\<lambda>r u. log_step t u \<and> R r) t"
    by (auto dest: logs_onlyD log_stepD(1))
  then show "wp (scope ep) (\<lambda>r. wp (destroy_entry ep)
      (\<lambda>_. wp (ret r) (\<lambda>r t. log_step s t \<and> R r))) t"
  proof (rule wp_mono)
    fix r u assume u: "log_step t u \<and> R r"
    with t have "log_step s u" "points ep u" by (auto intro: log_step_trans points_step)
    with t have "wp (destroy_entry ep) (\<lambda>_ v. log_step s v) u" by (blast intro: destroy_entry_step)
    then show "wp (destroy_entry ep) (\<lambda>_. wp (ret r) (\<lambda>r t. log_step s t \<and> R r)) u"
      by (rule wp_mono) (use u in \<open>simp add: wp_simps\<close>)
  qed
qed

lemma logs_only_print_result:
  assumes func: "logs_only P func R" and P: "\<And>s. P s \<Longrightarrow> points ep s"
    and keep: "\<And>s t. P s \<Longrightarrow> log_step s t \<Longrightarrow> P t"
  shows "logs_only P (print_result ep sr func) R"
proof (cases ep)
  case None
  with func show ?thesis by (simp add: print_result_def)
next
  case (Some p)
  have times: "logs_only P (update_entry p (record_times a b)) (\<lambda>_. True)" for a b
    by (rule logs_only_pre [OF logs_only_update_entry]) (use P Some in \<open>auto simp: record_times_def\<close>)
  have result: "logs_only P (update_entry p (\<lambda>e. e\<lparr>entry_result := Some v\<rparr>)) (\<lambda>_. True)" for v
    by (rule logs_only_pre [OF logs_only_update_entry]) (use P Some in auto)
  show ?thesis unfolding Some print_result_def option.case
    by (auto intro!: logs_only_andThen [OF logs_only_clock_now] logs_only_andThen [OF func]
          logs_only_andThen [OF times] logs_only_andThen [OF logs_only_print_arg]
          logs_only_andThen [OF result] logs_only_ret intro: keep)
qed

text \<open>The loop of \<open>clear\<close> passes its assertion when all entries have a name.\<close>

lemma resolve_names_Done:
  "\<forall>(p, e) \<in> set es. entry_name e \<noteq> [] \<Longrightarrow> \<exists>r. \<forall>s :: 's. resolve_names names es s = Done (r, s)"
  by (induction es) (auto simp: andThen_def)

section \<open>The exact effect of a logged call\<close>

fun remember_arg :: "log_arg \<Rightarrow> 'z logenv_scheme \<Rightarrow> 'z logenv_scheme" where
  "remember_arg (Arg_tox p) s = s\<lparr>tox_ids := remember_pointer (tox_ids s) p\<rparr>"
| "remember_arg (Arg_toxav p) s = s\<lparr>av_ids := remember_pointer (av_ids s) p\<rparr>"
| "remember_arg _ s = s"

definition arg_value :: "log_arg \<Rightarrow> 'z logenv_scheme \<Rightarrow> pvalue" where
  "arg_value a s = (case print_arg a s of Done (v, _) \<Rightarrow> v | Fail _ \<Rightarrow> Value 0 V_unset)"

fun remember_args :: "log_arg list \<Rightarrow> 'z logenv_scheme \<Rightarrow> 'z logenv_scheme" where
  "remember_args [] s = s"
| "remember_args (a # args) s = remember_args args (remember_arg a s)"

fun args_values :: "log_arg list \<Rightarrow> 'z logenv_scheme \<Rightarrow> pvalue list" where
  "args_values [] s = []"
| "args_values (a # args) s = arg_value a s # args_values args (remember_arg a s)"

lemma print_arg_eq: "print_arg a s = Done (arg_value a s, remember_arg a s)"
  by (cases a) (simp_all add: arg_value_def print_tox_def print_toxav_def)

lemma push_entry_commute [simp]:
  "(push_entry e s)\<lparr>tox_ids := i\<rparr> = push_entry e (s\<lparr>tox_ids := i\<rparr>)"
  "(push_entry e s)\<lparr>av_ids := i\<rparr> = push_entry e (s\<lparr>av_ids := i\<rparr>)"
  "(push_entry e s)\<lparr>ticks := k\<rparr> = push_entry e (s\<lparr>ticks := k\<rparr>)"
  "(push_entry e s)\<lparr>pending := x\<rparr> = push_entry e (s\<lparr>pending := x\<rparr>)"
  "(push_entry e s)\<lparr>func_names := fn\<rparr> = push_entry e (s\<lparr>func_names := fn\<rparr>)"
  "(push_entry e s)\<lparr>static_funcs := sf\<rparr> = push_entry e (s\<lparr>static_funcs := sf\<rparr>)"
  by (simp_all add: push_entry_def set_log_def)

lemma push_entry_fields [simp]:
  "tox_ids (push_entry e s) = tox_ids s" "av_ids (push_entry e s) = av_ids s"
  "ticks (push_entry e s) = ticks s" "clock (push_entry e s) = clock s"
  "func_names (push_entry e s) = func_names s" "static_funcs (push_entry e s) = static_funcs s"
  "pending (push_entry e s) = pending s" "jvm_of (push_entry e s) = jvm_of s"
  "logenv.more (push_entry e s) = logenv.more s"
  by (simp_all add: push_entry_def)

lemma remember_arg_fields [simp]:
  "jni_log_of (remember_arg a s) = jni_log_of s" "ticks (remember_arg a s) = ticks s"
  "clock (remember_arg a s) = clock s" "func_names (remember_arg a s) = func_names s"
  "static_funcs (remember_arg a s) = static_funcs s"
  "pending (remember_arg a s) = pending s" "jvm_of (remember_arg a s) = jvm_of s"
  "logenv.more (remember_arg a s) = logenv.more s"
  by (cases a; simp)+

lemma remember_args_fields [simp]:
  "jni_log_of (remember_args as s) = jni_log_of s" "ticks (remember_args as s) = ticks s"
  "clock (remember_args as s) = clock s" "func_names (remember_args as s) = func_names s"
  "static_funcs (remember_args as s) = static_funcs s"
  "pending (remember_args as s) = pending s" "jvm_of (remember_args as s) = jvm_of s"
  "logenv.more (remember_args as s) = logenv.more s"
  by (induction "as" arbitrary: s; simp)+

lemma remember_arg_push [simp]: "remember_arg a (push_entry e s) = push_entry e (remember_arg a s)"
  by (cases a) simp_all

lemma arg_value_push [simp]: "arg_value a (push_entry e s) = arg_value a s"
  by (cases a) (simp_all add: arg_value_def print_tox_def print_toxav_def)

lemma log_ok_cong: "lg t = lg s \<Longrightarrow> func_names t = func_names s \<Longrightarrow> log_ok t = log_ok s"
  by (simp add: log_ok_def)

lemma update_push:
  "log_wf (lg s) \<Longrightarrow> update_entry (log_next (lg s)) f (push_entry e s) = Done ((), push_entry (f e) s)"
proof -
  assume "log_wf (lg s)"
  then have "log_next (lg s) \<notin> pointers s" by (auto simp: log_wf_def pointers_def)
  then have "write_entry (log_next (lg s)) f (push_entry e s) = push_entry (f e) s"
    by (simp add: write_entry_def push_entry_def pointers_def map_write_fresh del: map_append)
  with points_push_entry [of s e] show ?thesis by (simp add: update_entry_points)
qed

lemma print_args_push:
  assumes "log_wf (lg s)"
  shows "print_args (log_next (lg s)) args (push_entry e s) =
    Done ((), push_entry (e\<lparr>entry_arguments := entry_arguments e @ args_values args s\<rparr>)
                (remember_args args s))"
  using assms
proof (induction args arbitrary: e s)
  case Nil
  then show ?case by simp
next
  case (Cons a args)
  from Cons.prems have "log_wf (lg (remember_arg a s))" by simp
  from Cons.IH [OF this] Cons.prems show ?case
    by (simp add: andThen_def print_arg_eq update_push
        update_push [of "remember_arg a s", simplified])
qed

definition opened_entry ::
  "jint \<Rightarrow> uintptr \<Rightarrow> log_arg list \<Rightarrow> 'z logenv_scheme \<Rightarrow> log_entry" where
  "opened_entry n f args s =
     blank_entry\<lparr>entry_name := func_name (func_names s) f, entry_instance := n,
                 entry_arguments := args_values args s\<rparr>"

lemma log_entry_open_eq:
  assumes "log_ok s"
  shows "log_entry_open f args s =
    (if has_log_room s
     then Done (Some (log_next (lg s)), push_entry (opened_entry 0 f args s) (remember_args args s))
     else Done (None, s))"
proof (cases "has_log_room s")
  case True
  have "log_wf (lg s)" using assms by (simp add: log_ok_def)
  from print_args_push [OF this, of args "named_entry f s"] True open_named [OF assms True, of f]
  show ?thesis
    by (simp add: log_entry_open_def andThen_def new_entry_eq named_entry_def opened_entry_def
        blank_entry_def)
qed (simp add: log_entry_open_def andThen_def new_entry_eq)

lemma instance_log_entry_open_eq:
  assumes "log_ok s"
  shows "instance_log_entry_open n f args s =
    (if has_log_room s
     then Done (Some (log_next (lg s)), push_entry (opened_entry n f args s) (remember_args args s))
     else Done (None, s))"
proof (cases "has_log_room s")
  case True
  have "log_wf (lg (remember_args args s))" using assms by (simp add: log_ok_def)
  from update_push [OF this] show ?thesis
    by (simp add: instance_log_entry_open_def andThen_def log_entry_open_eq [OF assms]
        opened_entry_def blank_entry_def)
qed (simp add: instance_log_entry_open_def andThen_def log_entry_open_eq [OF assms])

definition closed_entry :: "int \<Rightarrow> int \<Rightarrow> pvalue \<Rightarrow> log_entry \<Rightarrow> log_entry" where
  "closed_entry start stop v e = (record_times start stop e)\<lparr>entry_result := Some v\<rparr>"

text \<open>\<open>set_names\<close>: what a called function may do to the registry.\<close>

definition set_names ::
  "(uintptr \<Rightarrow> string option) \<Rightarrow> uintptr list \<Rightarrow> 'z logenv_scheme \<Rightarrow> 'z logenv_scheme" where
  "set_names fn sf s = s\<lparr>func_names := fn, static_funcs := sf\<rparr>"

lemma set_names_id [simp]: "set_names (func_names s) (static_funcs s) s = s"
  by (simp add: set_names_def)

lemma set_names_fields [simp]:
  "jni_log_of (set_names fn sf s) = jni_log_of s" "ticks (set_names fn sf s) = ticks s"
  "clock (set_names fn sf s) = clock s" "func_names (set_names fn sf s) = fn"
  "static_funcs (set_names fn sf s) = sf" "tox_ids (set_names fn sf s) = tox_ids s"
  "pending (set_names fn sf s) = pending s" "jvm_of (set_names fn sf s) = jvm_of s"
  "logenv.more (set_names fn sf s) = logenv.more s"
  by (simp_all add: set_names_def)

lemma print_result_push:
  assumes "log_wf (lg s)"
    and func: "func (push_entry e (s\<lparr>ticks := Suc (ticks s)\<rparr>)) =
      Done (r, set_names fn sf (push_entry e (s\<lparr>ticks := Suc (ticks s)\<rparr>)))"
  defines "t \<equiv> set_names fn sf (s\<lparr>ticks := Suc (Suc (ticks s))\<rparr>)"
  shows "print_result (Some (log_next (lg s))) sr func (push_entry e s) =
    Done (r, push_entry
      (closed_entry (clock s (ticks s)) (clock s (Suc (ticks s))) (arg_value (sr r) t) e)
      (remember_arg (sr r) t))"
proof -
  have t: "log_wf (lg t)" "log_next (lg t) = log_next (lg s)"
    using assms(1) by (simp_all add: t_def)
  have "set_names fn sf (push_entry e (s\<lparr>ticks := Suc (ticks s)\<rparr>))\<lparr>ticks := Suc (Suc (ticks s))\<rparr> =
      push_entry e t"
    by (simp add: t_def set_names_def push_entry_def set_log_def)
  with func update_push [OF t(1)] update_push [of "remember_arg (sr r) t"] t
  show ?thesis
    by (simp add: print_result_def andThen_def clock_now_def print_arg_eq closed_entry_def)
qed

lemma destroy_push:
  assumes "log_wf (lg s)"
  shows "destroy_entry (Some (log_next (lg s))) (push_entry e s) =
    Done ((), if entry_name e \<in> set (log_filters (lg s))
              then set_log ((lg s)\<lparr>log_next := Suc (log_next (lg s))\<rparr>) s else push_entry e s)"
proof -
  let ?p = "log_next (lg s)" and ?es = "log_entries (lg s)"
  have fresh: "?p \<notin> fst ` set ?es" using assms by (auto simp: log_wf_def)
  then have "map_of ?es ?p = None" by (simp add: map_of_eq_None_iff)
  moreover have "takeWhile (\<lambda>(q, _). q \<noteq> ?p) ((?p, e) # rev ?es) = []" by simp
  ultimately show ?thesis
    by (simp add: destroy_entry_def push_entry_def map_add_def set_log_def)
qed

end
