(* ===== verification/Instance_Runs.thy ===== *)
theory Instance_Runs
  imports Instance_Manager
begin

text \<open>
  Sequences of native calls on one instance manager, in the order Java makes them. The
  client lemmas are proved once, for a manager anywhere in a state (\<open>manager_lens\<close>).
\<close>

datatype ('o, 'e) manager_op =
    Op_add 'o 'e
  | Op_kill jint
  | Op_finalize jint
  | Op_access jint "'o \<Rightarrow> 'e \<Rightarrow> 'o \<times> 'e"

text \<open>Java clears the exception of one call (it catches it) before it makes the next.\<close>

definition clear_exception :: "('z jenv_scheme, unit) prog" where
  "clear_exception = modifies (\<lambda>s. s\<lparr>pending := None\<rparr>)"

fun run_op ::
  "('z jenv_scheme, ('o, 'e) instance_manager) lens \<Rightarrow> ('o, 'e) manager_op \<Rightarrow>
   ('z jenv_scheme, unit) prog" where
  "run_op L (Op_add x ev) =
     andThen (on_manager L (\<lambda>m. add m (Some x) (Some ev))) (\<lambda>_. ret ())"
| "run_op L (Op_kill n) =
     on_manager L (\<lambda>m. andThen (kill m n) (\<lambda>m'. ret ((), m')))"
| "run_op L (Op_finalize n) =
     on_manager L (\<lambda>m. andThen (finalize m n) (\<lambda>m'. ret ((), m')))"
| "run_op L (Op_access n f) =
     with_instance L () n (\<lambda>x ev. ret ((), fst (f x ev), snd (f x ev)))"

fun run_ops ::
  "('z jenv_scheme, ('o, 'e) instance_manager) lens \<Rightarrow> ('o, 'e) manager_op list \<Rightarrow>
   ('z jenv_scheme, unit) prog" where
  "run_ops L [] = ret ()"
| "run_ops L (op # ops) =
     andThen clear_exception (\<lambda>_. andThen (run_op L op) (\<lambda>_. run_ops L ops))"

fun added_objects :: "('o, 'e) manager_op list \<Rightarrow> 'o list" where
  "added_objects [] = []"
| "added_objects (Op_add x ev # ops) = x # added_objects ops"
| "added_objects (_ # ops) = added_objects ops"

text \<open>An access works on the object behind the pointer; it cannot replace the object.\<close>

fun keeps_identity :: "('o \<Rightarrow> 'i) \<Rightarrow> ('o, 'e) manager_op \<Rightarrow> bool" where
  "keeps_identity ident (Op_access n f) \<longleftrightarrow> (\<forall>x ev. ident (fst (f x ev)) = ident x)"
| "keeps_identity ident _ \<longleftrightarrow> True"

text \<open>Objects the manager has ever been given: those it still owns and those it deleted.\<close>

definition accounted :: "('o \<Rightarrow> 'i) \<Rightarrow> ('o, 'e) instance_manager \<Rightarrow> 'i multiset" where
  "accounted ident m = image_mset ident (live_objects m + mset (deleted m))"

lemma live_objects_write_back:
  assumes "manager_inv m" and "slot_of m n = Live x ev" and "ident x' = ident x"
    and "instances m' = (instances m)[instance_index n := \<lparr>object_p = Some x', events_p = ev'\<rparr>]"
  shows "image_mset ident (live_objects m') = image_mset ident (live_objects m)"
proof -
  from assms(1,2) have n: "in_table m n" "object_p (instances m ! instance_index n) = Some x"
    by (auto elim: slot_of_cases [where n = n])
  have "live_objects m' = live_objects (m\<lparr>instances := instances m'\<rparr>)"
    by (simp add: live_objects_def)
  with live_objects_update [OF n(1), of "\<lparr>object_p = Some x', events_p = ev'\<rparr>"] n(2) assms(4)
  have "add_mset x (live_objects m') = add_mset x' (live_objects m)"
    by (simp add: owned_def)
  then have "add_mset (ident x) (image_mset ident (live_objects m')) =
             add_mset (ident x') (image_mset ident (live_objects m))"
    by (metis image_mset_add_mset)
  with assms(3) show ?thesis by simp
qed

lemma length_instances_kill:
  "kill m n s = Done (m', t) \<Longrightarrow> length (instances m') = length (instances m)"
  by (auto simp: kill_def andThen_Done_iff vec_at_def lock_instance_def unlock_instance_def
      split: if_splits)

lemma length_instances_finalize:
  "finalize m n s = Done (m', t) \<Longrightarrow> length (instances m') = length (instances m)"
  by (auto simp: finalize_def andThen_Done_iff split: if_splits)

lemma length_instances_add:
  "add m a b s = Done ((n, m'), t) \<Longrightarrow> length (instances m') \<le> Suc (length (instances m))"
  by (auto simp: add_def andThen_def vec_at_def pointers_bool_def Let_def prog_defs
      tox4j_assert_def tox4j_fatal_error_def split: if_splits)

lemma has_roomI: "length (instances m) + Suc k < 2 ^ 31 \<Longrightarrow> has_room m"
  by (simp add: has_room_def)

context manager_lens
begin

lemma call_ready_put [simp]: "call_ready (lput L m s) = call_ready s"
  by (simp add: call_ready_def)

lemma raise_opt_lens [simp]:
  "lget L (raise_opt t s) = lget L s"
  "jvm_of (raise_opt t s) = jvm_of s"
  "lput L m (raise_opt t s) = raise_opt t (lput L m s)"
  by (cases t; simp)+

lemma run_op_add:
  assumes "manager_ok s" and "has_room (lget L s)"
  shows "\<exists>s'. run_op L (Op_add x ev) s = Done ((), s') \<and> manager_ok s' \<and>
     jvm_of s' = jvm_of s \<and> accounted ident (lget L s') = add_mset (ident x) (accounted ident (lget L s)) \<and>
     length (instances (lget L s')) \<le> Suc (length (instances (lget L s)))"
proof -
  from assms add_refines [of "lget L s" x ev s] obtain m' where
    m': "add (lget L s) (Some x) (Some ev) s = Done ((new_number (lget L s), m'), s)"
      "manager_inv m'" "unlocked m'" "deleted m' = deleted (lget L s)"
      "live_objects m' = add_mset x (live_objects (lget L s))"
    by (auto simp: manager_ok_def)
  moreover have "length (instances m') \<le> Suc (length (instances (lget L s)))"
    using m'(1) by (rule length_instances_add)
  ultimately show ?thesis
    by (simp add: on_manager_def andThen_def manager_ok_def accounted_def)
qed

lemma run_op_kill:
  assumes "manager_ok s" and "call_ready s"
  shows "\<exists>s'. run_op L (Op_kill n) s = Done ((), s') \<and> manager_ok s' \<and>
     jvm_of s' = jvm_of s \<and> accounted ident (lget L s') = accounted ident (lget L s) \<and>
     length (instances (lget L s')) = length (instances (lget L s))"
proof -
  from assms kill_refines [of "lget L s" s n] obtain m' where
    m': "kill (lget L s) n s = Done (m', raise_opt (snd (spec_kill (slots_in s) n)) s)"
      "manager_inv m'" "unlocked m'"
      "deleted m' = deleted (lget L s) @ dying_objects (slots_in s n)"
      "live_objects m' + mset (dying_objects (slots_in s n)) = live_objects (lget L s)"
    by (auto simp: manager_ok_def)
  from m'(4,5) have "accounted ident m' = accounted ident (lget L s)"
    by (simp add: accounted_def ac_simps flip: m'(5))
  with m'(1-3) length_instances_kill [OF m'(1)] show ?thesis
    by (simp add: on_manager_def andThen_def manager_ok_def)
qed

lemma run_op_finalize:
  assumes "manager_ok s" and "call_ready s"
  shows "\<exists>s'. run_op L (Op_finalize n) s = Done ((), s') \<and> manager_ok s' \<and>
     jvm_of s' = jvm_of s \<and> accounted ident (lget L s') = accounted ident (lget L s) \<and>
     length (instances (lget L s')) = length (instances (lget L s))"
proof -
  from assms finalize_refines [of "lget L s" s n] obtain m' where
    m': "finalize (lget L s) n s = Done (m', raise_opt (snd (spec_finalize (slots_in s) n)) s)"
      "manager_inv m'" "unlocked m'"
      "deleted m' = deleted (lget L s)" "live_objects m' = live_objects (lget L s)"
    by (auto simp: manager_ok_def)
  with length_instances_finalize [OF m'(1)] show ?thesis
    by (simp add: on_manager_def andThen_def manager_ok_def accounted_def)
qed

lemma run_op_access:
  assumes "manager_ok s" and "call_ready s" and "keeps_identity ident (Op_access n f)"
  shows "\<exists>s'. run_op L (Op_access n f) s = Done ((), s') \<and> manager_ok s' \<and>
     jvm_of s' = jvm_of s \<and> accounted ident (lget L s') = accounted ident (lget L s) \<and>
     length (instances (lget L s')) = length (instances (lget L s))"
proof (cases "access_error (slots_in s n) n")
  case (Some t)
  with with_instance_dead [OF assms(1,2), of n "()"] assms(1) show ?thesis
    by (simp add: manager_ok_def raise_opt_def)
next
  case None
  then obtain x ev where live: "slots_in s n = Live x ev"
    by (auto simp: access_error_def complaint_def split: slot.splits if_splits)
  let ?t = "lput L (lock_held n (lget L s)) s" and ?x = "fst (f x ev)" and ?ev = "snd (f x ev)"
  let ?m = "unlock_instance n (write_back n ?x ?ev (lock_held n (lget L s)))"
  from assms(1) have m: "manager_inv (lget L s)" "unlocked (lget L s)"
    by (simp_all add: manager_ok_def)
  note w = write_back_held [OF m live, of ?x ?ev]
  have "run_op L (Op_access n f) s = Done ((), lput L ?m s)"
    by (simp add: with_instance_live [OF assms(1,2) live] split: prod.split)
  moreover from live_objects_write_back [OF m(1) live _ w(4), of ident] assms(3) w(5)
  have "accounted ident ?m = accounted ident (lget L s)"
    by (simp add: accounted_def)
  ultimately show ?thesis using w by (simp add: manager_ok_def)
qed

text \<open>
  Every sequence of calls runs to its end: no assertion of the manager fails, no vector
  is read out of range, no mutex is locked twice, and no JNI function is called with an
  exception pending. Objects are neither lost nor deleted twice on the way.
\<close>

theorem run_ops_safe:
  assumes "manager_ok s" and "vm_basic (jvm_of s)"
    and "length (instances (lget L s)) + length (added_objects ops) < 2 ^ 31"
    and "list_all (keeps_identity ident) ops"
  shows "\<exists>s'. run_ops L ops s = Done ((), s') \<and> manager_ok s' \<and>
     accounted ident (lget L s') =
       accounted ident (lget L s) + image_mset ident (mset (added_objects ops))"
  using assms
proof (induction ops arbitrary: s)
  case Nil
  then show ?case by simp
next
  case (Cons op ops)
  let ?s = "s\<lparr>pending := None\<rparr>"
  have ready: "manager_ok ?s" "call_ready ?s"
    using Cons.prems by (simp_all add: manager_ok_def call_ready_def)
  have "\<exists>t. run_op L op ?s = Done ((), t) \<and> manager_ok t \<and> jvm_of t = jvm_of s \<and>
     accounted ident (lget L t) =
       accounted ident (lget L s) + image_mset ident (mset (added_objects [op])) \<and>
     length (instances (lget L t)) \<le> length (instances (lget L s)) + length (added_objects [op])"
  proof (cases op)
    case (Op_add x ev)
    with Cons.prems(3) have "has_room (lget L ?s)" by (simp add: has_roomI)
    from run_op_add [OF ready(1) this, of x ev ident] Op_add show ?thesis by auto
  next
    case (Op_kill n)
    with run_op_kill [OF ready, of n ident] show ?thesis by auto
  next
    case (Op_finalize n)
    with run_op_finalize [OF ready, of n ident] show ?thesis by auto
  next
    case (Op_access n f)
    with run_op_access [OF ready, of ident n f] Cons.prems(4) show ?thesis by auto
  qed
  then obtain t where t: "run_op L op ?s = Done ((), t)" "manager_ok t" "jvm_of t = jvm_of s"
    "accounted ident (lget L t) =
       accounted ident (lget L s) + image_mset ident (mset (added_objects [op]))"
    "length (instances (lget L t)) \<le> length (instances (lget L s)) + length (added_objects [op])"
    by blast
  have split: "added_objects (op # ops) = added_objects [op] @ added_objects ops"
    by (cases op) auto
  have "\<exists>s'. run_ops L ops t = Done ((), s') \<and> manager_ok s' \<and>
     accounted ident (lget L s') =
       accounted ident (lget L t) + image_mset ident (mset (added_objects ops))"
    using t(2,3,5) Cons.prems(2-) by (intro Cons.IH) (auto simp: split)
  with t(1,4) show ?case
    by (simp add: clear_exception_def andThen_def split ac_simps)
qed

end

end
