(* ===== verification/Error_Codes.thy ===== *)
theory Error_Codes
  imports Exceptions
begin

text \<open>
  The error handling part of \<open>tox4j/ToxInstances.h\<close>: the meaning of a toxcore error code,
  and the Java exception that carries it. The contract that \<open>HANDLE\<close> meets for each
  enumeration is the locale \<open>error_codes\<close>.
\<close>

section \<open>ErrorHandling\<close>

datatype error_result = UNHANDLED | SUCCESS | FAILURE

record ErrorHandling =
  err_result :: error_result
  err_name :: "string option"

definition success :: ErrorHandling where
  "success = \<lparr>err_result = SUCCESS, err_name = None\<rparr>"

definition failure :: "string \<Rightarrow> ErrorHandling" where
  "failure name = \<lparr>err_result = FAILURE, err_name = Some name\<rparr>"

definition unhandled :: ErrorHandling where
  "unhandled = \<lparr>err_result = UNHANDLED, err_name = None\<rparr>"

text \<open>The template functions that are specialised for an error enumeration.\<close>

record 'e error_enum =
  handle_error_enum :: "'e \<Rightarrow> ErrorHandling"
  method_name :: string
  error_value :: "'e \<Rightarrow> jint"

text \<open>The template functions that are specialised for a subsystem.\<close>

record subsystem =
  module_name_of :: string
  exn_prefix_of :: string

definition core_subsystem :: subsystem where
  "core_subsystem = \<lparr>module_name_of = ''core'', exn_prefix_of = ''''\<rparr>"

definition av_subsystem :: subsystem where
  "av_subsystem = \<lparr>module_name_of = ''av'', exn_prefix_of = ''av''\<rparr>"

definition crypto_subsystem :: subsystem where
  "crypto_subsystem = \<lparr>module_name_of = ''crypto'', exn_prefix_of = ''''\<rparr>"

section \<open>Throwing\<close>

definition throw_tox_error ::
  "subsystem \<Rightarrow> 'e error_enum \<Rightarrow> string \<Rightarrow> ('z jenv_scheme, unit) prog" where
  "throw_tox_error sub en error =
     throw_tox_exception_named (module_name_of sub) (exn_prefix_of sub) (method_name en) error"

definition throw_tox_exception ::
  "subsystem \<Rightarrow> 'e error_enum \<Rightarrow> 'e \<Rightarrow> ('z jenv_scheme, unit) prog" where
  "throw_tox_exception sub en error =
    (let result = handle_error_enum en error in
     case err_result result of
       FAILURE \<Rightarrow> throw_tox_error sub en (the (err_name result))
     | SUCCESS \<Rightarrow> throw_illegal_state_exception (error_value en error) ''Throwing OK code''
     | UNHANDLED \<Rightarrow> throw_illegal_state_exception (error_value en error) ''Unknown error code'')"

section \<open>The contract of an error enumeration\<close>

abbreviation code_result :: "'e error_enum \<Rightarrow> 'e \<Rightarrow> error_result" where
  "code_result en e \<equiv> err_result (handle_error_enum en e)"

abbreviation code_error :: "'e error_enum \<Rightarrow> 'e \<Rightarrow> string option" where
  "code_error en e \<equiv> err_name (handle_error_enum en e)"

definition error_class_name :: "subsystem \<Rightarrow> 'e error_enum \<Rightarrow> string" where
  "error_class_name sub en =
     exception_class_name (module_name_of sub) (exn_prefix_of sub) (method_name en)"

text \<open>The exception that reports an error code; \<open>OK\<close> is not reported.\<close>

definition error_throwable :: "subsystem \<Rightarrow> 'e error_enum \<Rightarrow> 'e \<Rightarrow> throwable option" where
  "error_throwable sub en e =
    (case code_result en e of
       SUCCESS \<Rightarrow> None
     | FAILURE \<Rightarrow> Some (tox_throwable (error_class_name sub en) (the (code_error en e)))
     | UNHANDLED \<Rightarrow> Some (illegal_state (error_value en e) ''Unknown error code''))"

text \<open>The Java side has the exception class and all its codes.\<close>

definition vm_has_errors :: "jvm \<Rightarrow> subsystem \<Rightarrow> 'e error_enum \<Rightarrow> bool" where
  "vm_has_errors vm sub en \<longleftrightarrow>
     vm_basic vm \<and>
     (\<forall>e. code_result en e = FAILURE \<longrightarrow>
        vm_has_exception vm (error_class_name sub en) (the (code_error en e)))"

lemmas handling_defs = success_def failure_def unhandled_def

locale error_codes =
  fixes en :: "'e error_enum"
    and ok :: 'e
    and other :: "jint \<Rightarrow> 'e"
  assumes success_iff: "code_result en e = SUCCESS \<longleftrightarrow> e = ok"
    and unhandled_iff: "code_result en e = UNHANDLED \<longleftrightarrow> (\<exists>n. e = other n)"
    and named_iff: "code_error en e \<noteq> None \<longleftrightarrow> code_result en e = FAILURE"
    and name_inject:
      "code_result en e = FAILURE \<Longrightarrow> code_error en e = code_error en e' \<Longrightarrow> e = e'"
    and value_other: "error_value en (other n) = n"
begin

lemma other_inject [simp]: "other m = other n \<longleftrightarrow> m = n"
  by (metis value_other)

lemma ok_silent: "error_throwable sub en e = None \<longleftrightarrow> e = ok"
  using success_iff [of e] by (auto simp: error_throwable_def split: error_result.splits)

text \<open>No two error codes are reported by the same exception.\<close>

lemma error_throwable_inject:
  assumes "error_throwable sub en e = error_throwable sub en e'"
  shows "e = e'"
proof (cases "code_result en e")
  case SUCCESS
  with assms ok_silent success_iff show ?thesis
    by (metis (no_types, lifting) error_result.simps(8) error_throwable_def)
next
  case FAILURE
  with assms have "code_result en e' = FAILURE \<and> the (code_error en e) = the (code_error en e')"
    by (auto simp: error_throwable_def illegal_state_def tox_throwable_def
        split: error_result.splits)
  with FAILURE named_iff [of e] named_iff [of e'] name_inject [of e e'] show ?thesis by auto
next
  case UNHANDLED
  with assms have u: "code_result en e' = UNHANDLED"
    and v: "error_value en e = error_value en e'"
    by (auto simp: error_throwable_def illegal_state_def tox_throwable_def fullMessage_inject
        split: error_result.splits)
  from UNHANDLED u unhandled_iff obtain m n where "e = other m" "e' = other n" by metis
  with v show ?thesis by (simp add: value_other)
qed

end

section \<open>Lemmas\<close>

lemma throw_tox_error_Done:
  assumes "pending s = None" and "vm_has_exception (jvm_of s) (error_class_name sub en) name"
  shows "throw_tox_error sub en name s =
    Done ((), s\<lparr>pending := Some (tox_throwable (error_class_name sub en) name)\<rparr>)"
  using assms by (simp add: throw_tox_error_def error_class_name_def throw_tox_exception_named_Done)

lemma throw_tox_exception_Done:
  assumes "pending s = None" and "vm_has_errors (jvm_of s) sub en" and "code_result en e = FAILURE"
  shows "throw_tox_exception sub en e s =
    Done ((), s\<lparr>pending := error_throwable sub en e\<rparr>)"
  using assms
  by (simp add: throw_tox_exception_def error_throwable_def vm_has_errors_def throw_tox_error_Done
      Let_def)

lemma complete_vm_has_errors [simp]: "vm_has_errors complete_vm sub en"
  by (simp add: vm_has_errors_def)

end
