(* ===== verification/Tox_Instances.thy ===== *)
theory Tox_Instances
  imports Instance_Runs Log_Facts Error_Codes
begin

text \<open>
  The call paths of \<open>tox4j/ToxInstances.h\<close>: access to an instance, logging and error
  translation composed. A toxcore function is an address (what the log sees) and its
  behaviour, a function of the object it is called on; both are parameters.
\<close>

section \<open>Calls\<close>

text \<open>
  \<open>::with_error_handling\<close>. The call gives its return value, the error code it stored and
  the object afterwards; \<open>to_java\<close> converts the value before the error code is looked at.
\<close>

definition translate_error ::
  "subsystem \<Rightarrow> 'e error_enum \<Rightarrow> 'b \<Rightarrow> ('v \<Rightarrow> ('z jenv_scheme, 'b) prog) \<Rightarrow> 'e \<Rightarrow> 'v \<Rightarrow>
   ('z jenv_scheme, 'b) prog" where
  "translate_error sub en return_type success_func error value =
    (let result = handle_error_enum en error in
     case err_result result of
       SUCCESS \<Rightarrow> success_func value
     | FAILURE \<Rightarrow> andThen (throw_tox_error sub en (the (err_name result))) (\<lambda>_. ret return_type)
     | UNHANDLED \<Rightarrow>
         andThen (throw_illegal_state_exception (error_value en error) ''Unknown error code'')
           (\<lambda>_. ret return_type))"

definition with_error_handling ::
  "entry_ptr \<Rightarrow> subsystem \<Rightarrow> 'e error_enum \<Rightarrow> ('r \<Rightarrow> log_arg) \<Rightarrow>
   ('r \<Rightarrow> ('z logenv_scheme, 'v) prog) \<Rightarrow> 'b \<Rightarrow> ('v \<Rightarrow> ('z logenv_scheme, 'b) prog) \<Rightarrow>
   ('z logenv_scheme, 'r \<times> 'e \<times> 'o) prog \<Rightarrow> ('z logenv_scheme, 'b \<times> 'o) prog" where
  "with_error_handling log_entry sub en show_result to_java return_type success_func tox_func =
     andThen (print_result log_entry (\<lambda>(r, _). show_result r) tox_func) (\<lambda>(r, error, x).
     andThen (to_java r) (\<lambda>value.
     andThen (translate_error sub en return_type success_func error value) (\<lambda>b.
     ret (b, x))))"

text \<open>What the code knows statically about the objects of a manager.\<close>

record ('s, 'o, 'ev) tox_class =
  instances_of :: "('s, ('o, 'ev) instance_manager) lens"
  subsystem_of :: subsystem
  show_object :: "'o \<Rightarrow> log_arg"

definition with_error_handling_new ::
  "subsystem \<Rightarrow> 'e error_enum \<Rightarrow> ('r \<Rightarrow> log_arg) \<Rightarrow> ('r \<Rightarrow> ('z logenv_scheme, 'v) prog) \<Rightarrow>
   'b \<Rightarrow> ('v \<Rightarrow> ('z logenv_scheme, 'b) prog) \<Rightarrow> uintptr \<Rightarrow> log_arg list \<Rightarrow>
   ('z logenv_scheme, 'r \<times> 'e \<times> 'o) prog \<Rightarrow> ('z logenv_scheme, 'b \<times> 'o) prog" where
  "with_error_handling_new sub en show_result to_java return_type success_func tox_addr args tox_func =
     with_log_entry (log_entry_open tox_addr args) (\<lambda>log_entry.
       with_error_handling log_entry sub en show_result to_java return_type success_func tox_func)"

definition with_instance_err ::
  "('z logenv_scheme, 'o, 'ev) tox_class \<Rightarrow> 'e error_enum \<Rightarrow> ('r \<Rightarrow> log_arg) \<Rightarrow>
   ('r \<Rightarrow> ('z logenv_scheme, 'v) prog) \<Rightarrow> 'b \<Rightarrow> ('v \<Rightarrow> ('z logenv_scheme, 'b) prog) \<Rightarrow>
   jint \<Rightarrow> uintptr \<Rightarrow> log_arg list \<Rightarrow> ('o \<Rightarrow> ('z logenv_scheme, 'r \<times> 'e \<times> 'o) prog) \<Rightarrow>
   ('z logenv_scheme, 'b) prog" where
  "with_instance_err C en show_result to_java return_type success_func instanceNumber tox_addr args tox_func =
     with_instance (instances_of C) return_type instanceNumber (\<lambda>tox events.
       andThen (with_log_entry
                  (instance_log_entry_open instanceNumber tox_addr (show_object C tox # args))
                  (\<lambda>log_entry. with_error_handling log_entry (subsystem_of C) en show_result to_java
                     return_type success_func (tox_func tox)))
         (\<lambda>(b, tox'). ret (b, tox', events)))"

definition show_bool :: "bool \<Rightarrow> log_arg" where
  "show_bool b = Arg_integer (of_bool_int b)"

definition with_instance_ign ::
  "('z logenv_scheme, 'o, 'ev) tox_class \<Rightarrow> 'e error_enum \<Rightarrow>
   jint \<Rightarrow> uintptr \<Rightarrow> log_arg list \<Rightarrow> ('o \<Rightarrow> ('z logenv_scheme, bool \<times> 'e \<times> 'o) prog) \<Rightarrow>
   ('z logenv_scheme, unit) prog" where
  "with_instance_ign C en = with_instance_err C en show_bool ret () (\<lambda>_. ret ())"

definition with_instance_noerr ::
  "('z logenv_scheme, 'o, 'ev) tox_class \<Rightarrow> ('r \<Rightarrow> log_arg) \<Rightarrow>
   ('r \<Rightarrow> ('z logenv_scheme, 'b) prog) \<Rightarrow> 'b \<Rightarrow>
   jint \<Rightarrow> uintptr \<Rightarrow> log_arg list \<Rightarrow> ('o \<Rightarrow> ('z logenv_scheme, 'r \<times> 'o) prog) \<Rightarrow>
   ('z logenv_scheme, 'b) prog" where
  "with_instance_noerr C show_result to_java return_type instanceNumber tox_addr args tox_func =
     with_instance (instances_of C) return_type instanceNumber (\<lambda>tox events.
       andThen (with_log_entry
                  (instance_log_entry_open instanceNumber tox_addr (show_object C tox # args))
                  (\<lambda>log_entry.
                     andThen (print_result log_entry (\<lambda>(r, _). show_result r) (tox_func tox)) (\<lambda>(r, x).
                     andThen (to_java r) (\<lambda>b. ret (b, x)))))
         (\<lambda>(b, tox'). ret (b, tox', events)))"

section \<open>The effect of a logged call\<close>

definition log_call ::
  "jint \<Rightarrow> uintptr \<Rightarrow> log_arg list \<Rightarrow> log_arg \<Rightarrow> (uintptr \<Rightarrow> string option) \<Rightarrow> uintptr list \<Rightarrow>
   'z logenv_scheme \<Rightarrow> 'z logenv_scheme" where
  "log_call n f args res fn sf s =
    (if has_log_room s
     then let t = set_names fn sf ((remember_args args s)\<lparr>ticks := Suc (Suc (ticks s))\<rparr>);
              e = closed_entry (clock s (ticks s)) (clock s (Suc (ticks s))) (arg_value res t)
                    (opened_entry n f args s);
              u = remember_arg res t
          in if entry_name e \<in> set (log_filters (lg s))
             then set_log ((lg s)\<lparr>log_next := Suc (log_next (lg s))\<rparr>) u
             else push_entry e u
     else set_names fn sf s)"

lemma raise_opt_log_simps [simp]:
  "raise_opt x (push_entry e s) = push_entry e (raise_opt x s)"
  "raise_opt x (set_log l s) = set_log l (raise_opt x s)"
  "raise_opt x (set_names fn sf s) = set_names fn sf (raise_opt x s)"
  "jni_log_of (raise_opt x s) = jni_log_of s"
  "func_names (raise_opt x s) = func_names s"
  "static_funcs (raise_opt x s) = static_funcs s"
  by (cases x; simp add: raise_opt_def set_log_def push_entry_def set_names_def)+

lemma closed_entry_name [simp]: "entry_name (closed_entry a b v e) = entry_name e"
  by (simp add: closed_entry_def record_times_def)

lemma log_call_fields [simp]:
  "pending (log_call n f args res fn sf s) = pending s"
  "jvm_of (log_call n f args res fn sf s) = jvm_of s"
  "logenv.more (log_call n f args res fn sf s) = logenv.more s"
  "func_names (log_call n f args res fn sf s) = fn"
  "static_funcs (log_call n f args res fn sf s) = sf"
  "log_max_size (lg (log_call n f args res fn sf s)) = log_max_size (lg s)"
  "log_filters (lg (log_call n f args res fn sf s)) = log_filters (lg s)"
  by (simp_all add: log_call_def Let_def) (simp_all add: push_entry_def)

lemma more_update_commute [simp]:
  "set_log l (logenv.more_update f s) = logenv.more_update f (set_log l s)"
  "push_entry e (logenv.more_update f s) = logenv.more_update f (push_entry e s)"
  "set_names fn sf (logenv.more_update f s) = logenv.more_update f (set_names fn sf s)"
  "raise_opt x (logenv.more_update f s) = logenv.more_update f (raise_opt x s)"
  by (simp_all add: set_log_def push_entry_def set_names_def raise_opt_def split: option.split)

lemma remember_more [simp]:
  "remember_arg a (logenv.more_update f s) = logenv.more_update f (remember_arg a s)"
  "remember_args as (logenv.more_update f s) = logenv.more_update f (remember_args as s)"
proof -
  show *: "remember_arg a (logenv.more_update f s) = logenv.more_update f (remember_arg a s)" for a s
    by (cases a) simp_all
  show "remember_args as (logenv.more_update f s) = logenv.more_update f (remember_args as s)"
    by (induction "as" arbitrary: s) (simp_all add: *)
qed

lemma values_more [simp]:
  "arg_value a (logenv.more_update f s) = arg_value a s"
  "args_values as (logenv.more_update f s) = args_values as s"
  "has_log_room (logenv.more_update f s) = has_log_room s"
  "opened_entry n g as (logenv.more_update f s) = opened_entry n g as s"
proof -
  show *: "arg_value a (logenv.more_update f s) = arg_value a s" for a s
    by (cases a) (simp_all add: arg_value_def print_tox_def print_toxav_def)
  show "args_values as (logenv.more_update f s) = args_values as s"
    by (induction "as" arbitrary: s) (simp_all add: *)
  then show "opened_entry n g as (logenv.more_update f s) = opened_entry n g as s"
    by (simp add: opened_entry_def)
  show "has_log_room (logenv.more_update f s) = has_log_room s" by (simp add: has_log_room_def)
qed

lemma ticks_more [simp]:
  "(logenv.more_update f s)\<lparr>ticks := k\<rparr> = logenv.more_update f (s\<lparr>ticks := k\<rparr>)"
  by simp

lemma log_call_more:
  "log_call n f args res fn sf (logenv.more_update g s) =
   logenv.more_update g (log_call n f args res fn sf s)"
  by (simp add: log_call_def Let_def)

text \<open>
  The scope of an entry around a call that does not log itself, followed by a
  continuation that at most raises an exception and replaces what extends the log
  environment.
\<close>

lemma logged_scope_more:
  assumes ok: "log_ok s"
    and open_eq: "open_entry s =
      (if has_log_room s
       then Done (Some (log_next (lg s)), push_entry (opened_entry n f args s) (remember_args args s))
       else Done (None, s))"
    and call: "\<And>t. func_names t = func_names s \<Longrightarrow> static_funcs t = static_funcs s \<Longrightarrow>
      call t = Done (r, set_names fn sf t)"
    and cont: "\<And>t. pending t = pending s \<Longrightarrow> jvm_of t = jvm_of s \<Longrightarrow> logenv.more t = logenv.more s \<Longrightarrow>
      k r t = Done (b, logenv.more_update (\<lambda>_. z) (raise_opt x t))"
  shows "with_log_entry open_entry (\<lambda>entry. andThen (print_result entry sr call) k) s =
    Done (b, logenv.more_update (\<lambda>_. z) (raise_opt x (log_call n f args (sr r) fn sf s)))"
proof (cases "has_log_room s")
  case False
  with open_eq call [of s] cont [of "set_names fn sf s"] show ?thesis
    by (simp add: with_log_entry_def andThen_def print_result_def destroy_entry_def log_call_def)
next
  case True
  let ?e = "opened_entry n f args s" and ?s = "remember_args args s"
  let ?t = "set_names fn sf (?s\<lparr>ticks := Suc (Suc (ticks s))\<rparr>)"
  let ?c = "closed_entry (clock s (ticks s)) (clock s (Suc (ticks s))) (arg_value (sr r) ?t) ?e"
  let ?u = "remember_arg (sr r) ?t"
  let ?v = "logenv.more_update (\<lambda>_. z) (raise_opt x ?u)"
  have wf: "log_wf (lg ?s)" "log_wf (lg ?v)" using ok by (simp_all add: log_ok_def)
  have run: "print_result (Some (log_next (lg s))) sr call (push_entry ?e ?s) = Done (r, push_entry ?c ?u)"
    using print_result_push [OF wf(1), where func = call and e = ?e and r = r and fn = fn and sf = sf
        and sr = sr] call [of "push_entry ?e (?s\<lparr>ticks := Suc (ticks s)\<rparr>)"]
    by simp
  have k: "k r (push_entry ?c ?u) = Done (b, push_entry ?c ?v)"
    using cont [of "push_entry ?c ?u"] by simp
  from destroy_push [OF wf(2), of ?c]
  have "destroy_entry (Some (log_next (lg s))) (push_entry ?c ?v) =
    Done ((), if entry_name ?c \<in> set (log_filters (lg s))
              then set_log ((lg s)\<lparr>log_next := Suc (log_next (lg s))\<rparr>) ?v
              else push_entry ?c ?v)"
    by simp
  with True open_eq run k show ?thesis
    by (simp add: with_log_entry_def andThen_def log_call_def Let_def)
qed

lemma more_update_same: "logenv.more t = z \<Longrightarrow> logenv.more_update (\<lambda>_. z) t = t"
  by auto

lemma raise_opt_more [simp]: "logenv.more (raise_opt x s) = logenv.more s"
  by (cases x) simp_all

lemma logged_scope:
  assumes "log_ok s"
    and "open_entry s =
      (if has_log_room s
       then Done (Some (log_next (lg s)), push_entry (opened_entry n f args s) (remember_args args s))
       else Done (None, s))"
    and "\<And>t. func_names t = func_names s \<Longrightarrow> static_funcs t = static_funcs s \<Longrightarrow>
      call t = Done (r, set_names fn sf t)"
    and "\<And>t. pending t = pending s \<Longrightarrow> jvm_of t = jvm_of s \<Longrightarrow> k r t = Done (b, raise_opt x t)"
  shows "with_log_entry open_entry (\<lambda>entry. andThen (print_result entry sr call) k) s =
    Done (b, raise_opt x (log_call n f args (sr r) fn sf s))"
  using logged_scope_more [of s open_entry n f args call r fn sf k b "logenv.more s" x sr] assms
  by (simp add: more_update_same)

text \<open>The error translation after the call; success may also change the rest of the state.\<close>

lemma translate_error_eq:
  assumes "pending t = None" and "vm_has_errors (jvm_of t) sub en"
    and "code_result en e = SUCCESS \<Longrightarrow> success_func v t = Done (b, u)"
  shows "translate_error sub en d success_func e v t =
    (if code_result en e = SUCCESS then Done (b, u)
     else Done (d, raise_opt (error_throwable sub en e) t))"
  using assms
  by (cases "code_result en e")
    (simp_all add: translate_error_def andThen_def Let_def error_throwable_def raise_opt_def
      throw_tox_error_Done throw_illegal_state_exception_def throw_exception_Done
      vm_has_errors_def vm_basic_def illegal_state_def)

lemma error_throwable_success [simp]:
  "code_result en e = SUCCESS \<Longrightarrow> error_throwable sub en e = None"
  by (simp add: error_throwable_def)

lemma with_error_handling_more:
  assumes ok: "log_ok s" and pend: "pending s = None" and vm: "vm_has_errors (jvm_of s) sub en"
    and open_eq: "open_entry s =
      (if has_log_room s
       then Done (Some (log_next (lg s)), push_entry (opened_entry n f args s) (remember_args args s))
       else Done (None, s))"
    and f: "\<And>t. tox_func t = Done ((r, e, x), t)"
    and to_java: "\<And>t. pending t = None \<Longrightarrow> to_java r t = Done (v, t)"
    and succ: "\<And>t. code_result en e = SUCCESS \<Longrightarrow> pending t = None \<Longrightarrow>
      logenv.more t = logenv.more s \<Longrightarrow> success_func v t = Done (b, logenv.more_update (\<lambda>_. z) t)"
    and fail: "code_result en e \<noteq> SUCCESS \<Longrightarrow> z = logenv.more s"
  shows "with_log_entry open_entry
       (\<lambda>log_entry. with_error_handling log_entry sub en show_result to_java d success_func tox_func) s =
     Done ((if code_result en e = SUCCESS then b else d, x),
       logenv.more_update (\<lambda>_. z) (raise_opt (error_throwable sub en e)
         (log_call n f args (show_result r) (func_names s) (static_funcs s) s)))"
proof -
  have call: "tox_func t = Done ((r, e, x), set_names (func_names s) (static_funcs s) t)"
    if "func_names t = func_names s" "static_funcs t = static_funcs s" for t
    using set_names_id [of t] that f by simp
  have "with_log_entry open_entry
       (\<lambda>log_entry. with_error_handling log_entry sub en show_result to_java d success_func tox_func) s =
     Done ((if code_result en e = SUCCESS then b else d, x),
       logenv.more_update (\<lambda>_. z) (raise_opt (error_throwable sub en e)
         (log_call n f args ((\<lambda>(r, _). show_result r) (r, e, x)) (func_names s) (static_funcs s) s)))"
    unfolding with_error_handling_def
  proof (rule logged_scope_more [where r = "(r, e, x)"])
    fix t :: "'a logenv_scheme"
    assume t: "pending t = pending s" "jvm_of t = jvm_of s" "logenv.more t = logenv.more s"
    have "translate_error sub en d success_func e v t =
        (if code_result en e = SUCCESS then Done (b, logenv.more_update (\<lambda>_. z) t)
         else Done (d, raise_opt (error_throwable sub en e) t))"
      using pend vm t succ [of t] by (intro translate_error_eq) simp_all
    with pend t to_java [of t] fail show "(case (r, e, x) of (r, error, x) \<Rightarrow>
        andThen (to_java r) (\<lambda>value. andThen (translate_error sub en d success_func error value)
          (\<lambda>b. ret (b, x)))) t =
      Done ((if code_result en e = SUCCESS then b else d, x),
        logenv.more_update (\<lambda>_. z) (raise_opt (error_throwable sub en e) t))"
      by (auto simp add: andThen_def more_update_same)
  qed (use ok open_eq call in simp_all)
  then show ?thesis by simp
qed

lemma with_error_handling_scope:
  assumes "log_ok s" and "pending s = None" and "vm_has_errors (jvm_of s) sub en"
    and "open_entry s =
      (if has_log_room s
       then Done (Some (log_next (lg s)), push_entry (opened_entry n f args s) (remember_args args s))
       else Done (None, s))"
    and "\<And>t. tox_func t = Done ((r, e, x), t)"
    and "\<And>t. pending t = None \<Longrightarrow> to_java r t = Done (v, t)"
    and "\<And>t. code_result en e = SUCCESS \<Longrightarrow> pending t = None \<Longrightarrow> success_func v t = Done (b, t)"
  shows "with_log_entry open_entry
       (\<lambda>log_entry. with_error_handling log_entry sub en show_result to_java d success_func tox_func) s =
     Done ((if code_result en e = SUCCESS then b else d, x),
       raise_opt (error_throwable sub en e)
         (log_call n f args (show_result r) (func_names s) (static_funcs s) s))"
proof -
  let ?t = "raise_opt (error_throwable sub en e)
         (log_call n f args (show_result r) (func_names s) (static_funcs s) s)"
  have "logenv.more_update (\<lambda>_. logenv.more s) ?t = ?t" by (rule more_update_same) simp
  moreover have "with_log_entry open_entry
       (\<lambda>log_entry. with_error_handling log_entry sub en show_result to_java d success_func tox_func) s =
     Done ((if code_result en e = SUCCESS then b else d, x), logenv.more_update (\<lambda>_. logenv.more s) ?t)"
    by (rule with_error_handling_more) (use assms in \<open>simp_all add: more_update_same\<close>)
  ultimately show ?thesis by simp
qed

section \<open>A manager in the state of the process\<close>

text \<open>
  The manager is found in the part of the state that extends the log environment: logging
  does not touch it, and putting it back does not touch the log.
\<close>

locale world_lens =
  fixes L :: "('z logenv_scheme, ('o, 'e) instance_manager) lens"
    and get_more :: "'z \<Rightarrow> ('o, 'e) instance_manager"
    and put_more :: "('o, 'e) instance_manager \<Rightarrow> 'z \<Rightarrow> 'z"
  assumes lget_more: "lget L s = get_more (logenv.more s)"
    and lput_more: "lput L m s = logenv.more_update (put_more m) s"
    and get_put_more: "get_more (put_more m z) = m"
    and put_get_more: "put_more (get_more z) z = z"
    and put_put_more: "put_more m (put_more m' z) = put_more m z"

sublocale world_lens \<subseteq> manager_lens L
proof
  fix s :: "'z logenv_scheme" and m m' t
  show "lget L (lput L m s) = m" by (simp add: lget_more lput_more get_put_more)
  show "lput L (lget L s) s = s" by (simp add: lget_more lput_more put_get_more)
  show "lput L m (lput L m' s) = lput L m s" by (simp add: lput_more put_put_more o_def)
  show "pending (lput L m s) = pending s" "jvm_of (lput L m s) = jvm_of s"
    "lget L (s\<lparr>pending := t\<rparr>) = lget L s"
    "lput L m (s\<lparr>pending := t\<rparr>) = (lput L m s)\<lparr>pending := t\<rparr>"
    by (simp_all add: lget_more lput_more)
qed

lemma log_ok_log_call:
  assumes "log_ok s" and "names_wf fn"
  shows "log_ok (log_call n f args res fn sf s)"
proof -
  have "func_name (func_names s) f \<noteq> []" using assms(1) by (simp add: log_ok_def func_name_ne)
  with assms show ?thesis
    by (auto simp: log_call_def Let_def log_ok_def log_wf_def push_entry_def opened_entry_def)
qed

section \<open>Calls on an instance\<close>

locale tox_instances = world_lens "instances_of C" get_more put_more
  for C :: "('z logenv_scheme, 'o, 'e) tox_class"
    and get_more :: "'z \<Rightarrow> ('o, 'e) instance_manager"
    and put_more :: "('o, 'e) instance_manager \<Rightarrow> 'z \<Rightarrow> 'z"
begin

text \<open>The manager after an access that leaves \<open>x\<close> and \<open>ev\<close> in the slot.\<close>

definition accessed :: "jint \<Rightarrow> 'o \<Rightarrow> 'e \<Rightarrow> 'z logenv_scheme \<Rightarrow> 'z logenv_scheme" where
  "accessed n x ev s =
     lput (instances_of C) (unlock_instance n (write_back n x ev
       (lock_held n (lget (instances_of C) s)))) s"

lemma lput_log_call [simp]:
  "lput (instances_of C) m (log_call n f args res fn sf s) =
   log_call n f args res fn sf (lput (instances_of C) m s)"
  by (simp add: lput_more log_call_more)

lemma lget_log_call [simp]:
  "lget (instances_of C) (log_call n f args res fn sf s) = lget (instances_of C) s"
  by (simp add: lget_more)

lemma log_of_lput [simp]:
  "jni_log_of (lput (instances_of C) m s) = jni_log_of s"
  "func_names (lput (instances_of C) m s) = func_names s"
  "static_funcs (lput (instances_of C) m s) = static_funcs s"
  "has_log_room (lput (instances_of C) m s) = has_log_room s"
  "log_ok (lput (instances_of C) m s) = log_ok s"
  by (simp_all add: lput_more log_ok_def)

lemma lget_log_step:
  "log_step s t \<Longrightarrow> lget (instances_of C) t = lget (instances_of C) s"
  by (simp add: lget_more log_stepD(6))

lemma with_instance_scope:
  assumes ok: "manager_ok s" "call_ready s" and live: "slots_in s n = Live x ev"
    and run: "\<And>t. t = lput (instances_of C) (lock_held n (lget (instances_of C) s)) s \<Longrightarrow>
      func x ev t = Done ((b, x', ev'), raise_opt exn (log_call n f args res fn sf t))"
  shows "with_instance (instances_of C) d n func s =
    Done (b, raise_opt exn (log_call n f args res fn sf (accessed n x' ev' s)))"
  using run [OF refl]
  by (simp add: with_instance_live [OF ok live] andThen_def accessed_def)

lemma accessed_slots:
  assumes "manager_ok s" and "slots_in s n = Live x ev"
  shows "slots_in (accessed n x' ev' s) = (slots_in s)(n := Live x' ev')"
    and "manager_ok (accessed n x' ev' s)"
    and "deleted (lget (instances_of C) (accessed n x' ev' s)) = deleted (lget (instances_of C) s)"
    and "length (instances (lget (instances_of C) (accessed n x' ev' s))) =
         length (instances (lget (instances_of C) s))"
proof -
  from assms(1) have m: "manager_inv (lget (instances_of C) s)" "unlocked (lget (instances_of C) s)"
    by (simp_all add: manager_ok_def)
  note w = write_back_held [OF m assms(2), of x' ev']
  from w show "slots_in (accessed n x' ev' s) = (slots_in s)(n := Live x' ev')"
    "manager_ok (accessed n x' ev' s)"
    "deleted (lget (instances_of C) (accessed n x' ev' s)) = deleted (lget (instances_of C) s)"
    "length (instances (lget (instances_of C) (accessed n x' ev' s))) =
         length (instances (lget (instances_of C) s))"
    by (simp_all add: accessed_def manager_ok_def)
qed

text \<open>
  A call on a live instance with error translation, in full: the object is replaced by
  what the toxcore function made of it, one entry is logged, and the error code decides
  between the converted result and the exception.
\<close>

theorem with_instance_err_live:
  assumes ok: "manager_ok s" "call_ready s" "log_ok s"
    and vm: "vm_has_errors (jvm_of s) (subsystem_of C) en"
    and live: "slots_in s n = Live x ev" and f: "\<And>t. tox_func x t = Done ((r, e, x'), t)"
    and to_java: "\<And>t. pending t = None \<Longrightarrow> to_java r t = Done (v, t)"
    and succ: "\<And>t. code_result en e = SUCCESS \<Longrightarrow> pending t = None \<Longrightarrow>
      success_func v t = Done (b, t)"
  shows "with_instance_err C en show_result to_java d success_func n addr args tox_func s =
    Done (if code_result en e = SUCCESS then b else d,
      raise_opt (error_throwable (subsystem_of C) en e)
        (log_call n addr (show_object C x # args) (show_result r) (func_names s) (static_funcs s)
          (accessed n x' ev s)))"
  unfolding with_instance_err_def
proof (rule with_instance_scope [OF ok(1,2) live])
  fix t assume t: "t = lput (instances_of C) (lock_held n (lget (instances_of C) s)) s"
  have ready: "log_ok t" "pending t = None" "vm_has_errors (jvm_of t) (subsystem_of C) en"
    using ok vm by (simp_all add: t call_ready_def)
  have "with_log_entry (instance_log_entry_open n addr (show_object C x # args))
       (\<lambda>log_entry. with_error_handling log_entry (subsystem_of C) en show_result to_java d success_func
          (tox_func x)) t =
     Done ((if code_result en e = SUCCESS then b else d, x'),
       raise_opt (error_throwable (subsystem_of C) en e)
         (log_call n addr (show_object C x # args) (show_result r) (func_names t) (static_funcs t) t))"
    by (rule with_error_handling_scope)
      (simp_all add: ready instance_log_entry_open_eq f to_java, rule succ)
  then show "andThen (with_log_entry (instance_log_entry_open n addr (show_object C x # args))
       (\<lambda>log_entry. with_error_handling log_entry (subsystem_of C) en show_result to_java d success_func
          (tox_func x))) (\<lambda>(b, tox'). ret (b, tox', ev)) t =
     Done ((if code_result en e = SUCCESS then b else d, x', ev),
       raise_opt (error_throwable (subsystem_of C) en e)
         (log_call n addr (show_object C x # args) (show_result r) (func_names s) (static_funcs s) t))"
    by (simp add: andThen_def) (simp add: t)
qed

theorem with_instance_noerr_live:
  assumes ok: "manager_ok s" "call_ready s" "log_ok s"
    and live: "slots_in s n = Live x ev"
    and f: "\<And>t :: 'z logenv_scheme. func_names t = func_names s \<Longrightarrow>
      static_funcs t = static_funcs s \<Longrightarrow> tox_func x t = Done ((r, x'), set_names fn sf t)"
    and to_java: "\<And>t. pending t = None \<Longrightarrow> to_java r t = Done (v, t)"
  shows "with_instance_noerr C show_result to_java d n addr args tox_func s =
    Done (v, log_call n addr (show_object C x # args) (show_result r) fn sf (accessed n x' ev s))"
proof -
  have "with_instance_noerr C show_result to_java d n addr args tox_func s =
    Done (v, raise_opt None
      (log_call n addr (show_object C x # args) (show_result r) fn sf (accessed n x' ev s)))"
    unfolding with_instance_noerr_def
  proof (rule with_instance_scope [OF ok(1,2) live])
    fix t assume t: "t = lput (instances_of C) (lock_held n (lget (instances_of C) s)) s"
    have "log_ok t" "pending t = None" using ok by (simp_all add: t call_ready_def)
    have "with_log_entry (instance_log_entry_open n addr (show_object C x # args))
         (\<lambda>log_entry. andThen (print_result log_entry (\<lambda>(r, _). show_result r) (tox_func x)) (\<lambda>(r, x).
            andThen (to_java r) (\<lambda>b. ret (b, x)))) t =
       Done ((v, x'), raise_opt None (log_call n addr (show_object C x # args)
         ((\<lambda>(r, _). show_result r) (r, x')) fn sf t))"
    proof (rule logged_scope [where r = "(r, x')"])
      fix u :: "'z logenv_scheme" assume "func_names u = func_names t" "static_funcs u = static_funcs t"
      then show "tox_func x u = Done ((r, x'), set_names fn sf u)" by (intro f) (simp_all add: t)
    next
      fix u :: "'z logenv_scheme" assume "pending u = pending t"
      with \<open>pending t = None\<close> to_java [of u]
      show "(case (r, x') of (r, x) \<Rightarrow> andThen (to_java r) (\<lambda>b. ret (b, x))) u =
          Done ((v, x'), raise_opt None u)"
        by (simp add: andThen_def raise_opt_def)
    qed (simp_all add: \<open>log_ok t\<close> instance_log_entry_open_eq)
    then show "andThen (with_log_entry (instance_log_entry_open n addr (show_object C x # args))
         (\<lambda>log_entry. andThen (print_result log_entry (\<lambda>(r, _). show_result r) (tox_func x)) (\<lambda>(r, x).
            andThen (to_java r) (\<lambda>b. ret (b, x))))) (\<lambda>(b, tox'). ret (b, tox', ev)) t =
       Done ((v, x', ev), raise_opt None (log_call n addr (show_object C x # args) (show_result r) fn sf t))"
      by (simp add: andThen_def)
  qed
  then show ?thesis by (simp add: raise_opt_def)
qed

text \<open>On anything but a live instance nothing is called, and nothing is logged.\<close>

theorem with_instance_err_dead:
  assumes "manager_ok s" and "call_ready s" and "access_error (slots_in s n) n \<noteq> None"
  shows "with_instance_err C en show_result to_java d success_func n addr args tox_func s =
    Done (d, raise_opt (access_error (slots_in s n) n) s)"
  unfolding with_instance_err_def by (rule with_instance_dead [OF assms])

theorem with_instance_noerr_dead:
  assumes "manager_ok s" and "call_ready s" and "access_error (slots_in s n) n \<noteq> None"
  shows "with_instance_noerr C show_result to_java d n addr args tox_func s =
    Done (d, raise_opt (access_error (slots_in s n) n) s)"
  unfolding with_instance_noerr_def by (rule with_instance_dead [OF assms])

end

lemma access_error_None: "access_error slot n = None \<longleftrightarrow> (\<exists>x ev. slot = Live x ev)"
  by (auto simp: access_error_def complaint_def split: slot.splits)

end
