(* ===== verification/Callbacks.thy ===== *)
theory Callbacks
  imports Log_Facts
begin

text \<open>
  \<open>tox/common.h\<close>: native objects, the registration of callbacks on them, and the wrapper
  around a callback that toxcore calls.
\<close>

section \<open>Native objects\<close>

text \<open>
  A \<open>Tox\<close> or \<open>ToxAV\<close> object: its address, the callbacks registered on it, and the state
  that belongs to toxcore.
\<close>

record ('cb, 'st) native_object =
  obj_addr :: uintptr
  obj_callbacks :: "'cb list"
  obj_state :: 'st

section \<open>Registration\<close>

text \<open>
  \<open>tox_cb::func::set\<close>: one call of \<open>tox_callback_<name>\<close>, which makes toxcore remember the
  wrapper and the user data.
\<close>

definition cb_set ::
  "'cb \<Rightarrow> ('cb, 'st) native_object \<Rightarrow> 'ev option \<Rightarrow>
   ('s, ('cb, 'st) native_object \<times> 'ev option) prog" where
  "cb_set cb tox user_data =
     andThen (cassert ''user_data.get () != nullptr'' (user_data \<noteq> None)) (\<lambda>_.
     ret (tox\<lparr>obj_callbacks := cb # removeAll cb (obj_callbacks tox)\<rparr>, user_data))"

fun set_callbacks ::
  "'cb list \<Rightarrow> ('cb, 'st) native_object \<Rightarrow> 'ev option \<Rightarrow>
   ('s, ('cb, 'st) native_object \<times> 'ev option) prog" where
  "set_callbacks [] tox user_data = ret (tox, user_data)"
| "set_callbacks (head # tail) tox user_data =
     andThen (cb_set head tox user_data) (\<lambda>(tox, user_data). set_callbacks tail tox user_data)"

text \<open>
  \<open>callback_setter\<close>: the chain \<open>tox::callbacks<Tox> (user_data).set<...> ()...set (tox)\<close> that collects the
  callbacks of \<open>tox/generated/*.h\<close> one by one and registers them at its end.
\<close>

record ('cb, 'ev) callback_setter =
  setter_callbacks :: "'cb list"
  setter_user_data :: "'ev option"

definition tox_callbacks :: "'ev option \<Rightarrow> ('cb, 'ev) callback_setter" where
  "tox_callbacks user_data = \<lparr>setter_callbacks = [], setter_user_data = user_data\<rparr>"

definition setter_add :: "('cb, 'ev) callback_setter \<Rightarrow> 'cb \<Rightarrow> ('cb, 'ev) callback_setter" where
  "setter_add cs cb = cs\<lparr>setter_callbacks := setter_callbacks cs @ [cb]\<rparr>"

definition setter_set ::
  "('cb, 'ev) callback_setter \<Rightarrow> ('cb, 'st) native_object \<Rightarrow>
   ('s, ('cb, 'st) native_object \<times> 'ev option) prog" where
  "setter_set cs tox = set_callbacks (setter_callbacks cs) tox (setter_user_data cs)"

section \<open>Invocation\<close>

definition tox_cb_invoke ::
  "uintptr \<Rightarrow> uintptr \<Rightarrow> log_arg list \<Rightarrow> ('z logenv_scheme, 'r) prog \<Rightarrow> ('z logenv_scheme, 'r) prog" where
  "tox_cb_invoke callback tox args run =
     andThen (cassert ''tox != nullptr'' (tox \<noteq> 0)) (\<lambda>_.
     with_log_entry (log_entry_open callback args) (\<lambda>log_entry.
       print_result log_entry (\<lambda>_. Arg_void) run))"

text \<open>
  The callbacks that toxcore makes during one call, in order; an event for which no
  callback is registered is not reported.
\<close>

fun deliver ::
  "('c \<Rightarrow> 'cb) \<Rightarrow> 'cb list \<Rightarrow> ('c \<Rightarrow> 'ev \<Rightarrow> ('s, 'ev) prog) \<Rightarrow> 'c list \<Rightarrow> 'ev \<Rightarrow> ('s, 'ev) prog" where
  "deliver name registered invk [] events = ret events"
| "deliver name registered invk (c # cs) events =
     (if name c \<in> set registered
      then andThen (invk c events) (\<lambda>events. deliver name registered invk cs events)
      else deliver name registered invk cs events)"

section \<open>Lemmas\<close>

lemma foldl_setter_add:
  "foldl setter_add cs names = cs\<lparr>setter_callbacks := setter_callbacks cs @ names\<rparr>"
  by (induction names arbitrary: cs) (simp_all add: setter_add_def)

lemma callback_chain [simp]:
  "setter_set (foldl setter_add (tox_callbacks user_data) names) tox = set_callbacks names tox user_data"
  by (simp add: foldl_setter_add setter_set_def tox_callbacks_def)

lemma set_callbacks_Done:
  fixes ev :: 'ev
  shows "\<exists>cbs. (\<forall>s :: 's. set_callbacks names tox (Some ev) s = Done ((tox\<lparr>obj_callbacks := cbs\<rparr>, Some ev), s)) \<and>
     set cbs = set names \<union> set (obj_callbacks tox)"
proof (induction names arbitrary: tox)
  case Nil
  show ?case by (rule exI [of _ "obj_callbacks tox"]) simp
next
  case (Cons cb names)
  let ?tox = "tox\<lparr>obj_callbacks := cb # removeAll cb (obj_callbacks tox)\<rparr>"
  from Cons.IH [of ?tox] obtain cbs where
    "\<And>s :: 's. set_callbacks names ?tox (Some ev) s = Done ((tox\<lparr>obj_callbacks := cbs\<rparr>, Some ev), s)"
    "set cbs = set names \<union> set (obj_callbacks ?tox)"
    by auto
  then show ?case by (intro exI [of _ cbs]) (auto simp: cb_set_def andThen_def)
qed

lemma logs_only_tox_cb_invoke:
  assumes "tox \<noteq> 0" and "\<And>P. logs_only P run R"
  shows "logs_only P (tox_cb_invoke callback tox args run) R"
proof (rule logs_onlyI)
  fix s :: "'a logenv_scheme" assume "log_ok s"
  with assms show "wp (tox_cb_invoke callback tox args run) (\<lambda>r t. log_step s t \<and> R r) s"
    by (simp add: tox_cb_invoke_def wp_simps)
      (intro with_log_entry_step [where P = "\<lambda>_. True"] log_entry_open_step logs_only_print_result;
       auto intro: points_step)
qed

text \<open>When every callback appends its event, delivery appends them all, in order.\<close>

lemma logs_only_deliver:
  assumes "\<And>c ev. c \<in> set cs \<Longrightarrow> name c \<in> set registered \<and>
      logs_only (\<lambda>_. True) (invk c ev) (\<lambda>r. r = app c ev)"
  shows "logs_only (\<lambda>_. True) (deliver name registered invk cs ev) (\<lambda>r. r = fold app cs ev)"
  using assms
proof (induction cs arbitrary: ev)
  case Nil
  show ?case unfolding deliver.simps by (rule logs_only_ret) simp
next
  case (Cons c cs)
  from Cons.prems [of c ev]
  have c: "name c \<in> set registered" "logs_only (\<lambda>_. True) (invk c ev) (\<lambda>r. r = app c ev)" by auto
  have "logs_only (\<lambda>_. True) (deliver name registered invk cs (app c ev)) (\<lambda>r. r = fold app cs (app c ev))"
    by (rule Cons.IH) (use Cons.prems in auto)
  then show ?case
    using c by (auto intro: logs_only_andThen [OF c(2)])
qed

end
