(* ===== verification/Core_Events.thy ===== *)
theory Core_Events
  imports Callbacks
begin

text \<open>
  The event queue of a Tox instance: the messages of \<open>ToxCore/Core.proto\<close>, the callbacks
  of \<open>ToxCore/lifecycle.cpp\<close> that append to it, and the wrapper of \<open>tox/common.h\<close> that
  toxcore calls (\<open>tox_cb::func::invoke\<close>), which logs every callback.
\<close>

section \<open>Messages\<close>

datatype Connection = Connection_NONE | Connection_TCP | Connection_UDP
datatype UserStatus = UserStatus_NONE | UserStatus_AWAY | UserStatus_BUSY
datatype MessageType = MessageType_NORMAL | MessageType_ACTION
datatype FileControl = FileControl_RESUME | FileControl_PAUSE | FileControl_CANCEL

datatype SelfConnectionStatus = SelfConnectionStatus Connection
datatype FriendName = FriendName uint32 "uint8 list"
datatype FriendStatusMessage = FriendStatusMessage uint32 "uint8 list"
datatype FriendStatus = FriendStatus uint32 UserStatus
datatype FriendConnectionStatus = FriendConnectionStatus uint32 Connection
datatype FriendTyping = FriendTyping uint32 bool
datatype FriendReadReceipt = FriendReadReceipt uint32 uint32
datatype FriendRequest = FriendRequest "uint8 list" uint32 "uint8 list"
datatype FriendMessage = FriendMessage uint32 MessageType uint32 "uint8 list"
datatype FileRecvControl = FileRecvControl uint32 uint32 FileControl
datatype FileChunkRequest = FileChunkRequest uint32 uint32 uint64 uint32
datatype FileRecv = FileRecv uint32 uint32 uint32 uint64 "uint8 list"
datatype FileRecvChunk = FileRecvChunk uint32 uint32 uint64 "uint8 list"
datatype FriendLossyPacket = FriendLossyPacket uint32 "uint8 list"
datatype FriendLosslessPacket = FriendLosslessPacket uint32 "uint8 list"

record core_events =
  self_connection_status :: "SelfConnectionStatus list"
  friend_name :: "FriendName list"
  friend_status_message :: "FriendStatusMessage list"
  friend_status :: "FriendStatus list"
  friend_connection_status :: "FriendConnectionStatus list"
  friend_typing :: "FriendTyping list"
  friend_read_receipt :: "FriendReadReceipt list"
  friend_request :: "FriendRequest list"
  friend_message :: "FriendMessage list"
  file_recv_control :: "FileRecvControl list"
  file_chunk_request :: "FileChunkRequest list"
  file_recv :: "FileRecv list"
  file_recv_chunk :: "FileRecvChunk list"
  friend_lossy_packet :: "FriendLossyPacket list"
  friend_lossless_packet :: "FriendLosslessPacket list"

definition no_events :: core_events where
  "no_events =
     \<lparr>self_connection_status = [], friend_name = [], friend_status_message = [],
      friend_status = [], friend_connection_status = [], friend_typing = [],
      friend_read_receipt = [], friend_request = [], friend_message = [],
      file_recv_control = [], file_chunk_request = [], file_recv = [], file_recv_chunk = [],
      friend_lossy_packet = [], friend_lossless_packet = []\<rparr>"

section \<open>Callbacks\<close>

text \<open>
  \<open>set_<bytes> (data, length)\<close> copies \<open>length\<close> bytes from \<open>data\<close>; a pointer to fewer bytes,
  or a null pointer with a length, has no meaning.
\<close>

type_synonym pointer = "uint8 list option"

definition set_bytes :: "pointer \<Rightarrow> nat \<Rightarrow> ('s, uint8 list) prog" where
  "set_bytes data len =
    (case data of
       None \<Rightarrow> if len = 0 then ret [] else fail (UB ''read through a null pointer'')
     | Some bytes \<Rightarrow> if len \<le> length bytes then ret (take len bytes)
                     else fail (UB ''read past the end of an array''))"

definition TOX_PUBLIC_KEY_SIZE :: nat where
  "TOX_PUBLIC_KEY_SIZE = 32"

text \<open>
  The setters of an enumeration field are called only for the enumerators of the
  \<open>switch\<close>; otherwise the field keeps its default, the constant with the value 0.
\<close>

fun set_connection_status :: "TOX_CONNECTION \<Rightarrow> Connection" where
  "set_connection_status TOX_CONNECTION_NONE = Connection_NONE"
| "set_connection_status TOX_CONNECTION_TCP = Connection_TCP"
| "set_connection_status TOX_CONNECTION_UDP = Connection_UDP"
| "set_connection_status (TOX_CONNECTION_OTHER _) = Connection_NONE"

definition tox4j_self_connection_status_cb ::
  "TOX_CONNECTION \<Rightarrow> core_events \<Rightarrow> ('s, core_events) prog" where
  "tox4j_self_connection_status_cb connection_status events =
     ret (events\<lparr>self_connection_status := self_connection_status events @
            [SelfConnectionStatus (set_connection_status connection_status)]\<rparr>)"

definition tox4j_friend_name_cb ::
  "uint32 \<Rightarrow> pointer \<Rightarrow> nat \<Rightarrow> core_events \<Rightarrow> ('s, core_events) prog" where
  "tox4j_friend_name_cb friend_number name len events =
     andThen (set_bytes name len) (\<lambda>bytes.
     ret (events\<lparr>friend_name := friend_name events @ [FriendName friend_number bytes]\<rparr>))"

definition tox4j_friend_status_message_cb ::
  "uint32 \<Rightarrow> pointer \<Rightarrow> nat \<Rightarrow> core_events \<Rightarrow> ('s, core_events) prog" where
  "tox4j_friend_status_message_cb friend_number message len events =
     andThen (set_bytes message len) (\<lambda>bytes.
     ret (events\<lparr>friend_status_message := friend_status_message events @
            [FriendStatusMessage friend_number bytes]\<rparr>))"

fun set_status :: "TOX_USER_STATUS \<Rightarrow> UserStatus" where
  "set_status TOX_USER_STATUS_NONE = UserStatus_NONE"
| "set_status TOX_USER_STATUS_AWAY = UserStatus_AWAY"
| "set_status TOX_USER_STATUS_BUSY = UserStatus_BUSY"
| "set_status (TOX_USER_STATUS_OTHER _) = UserStatus_NONE"

definition tox4j_friend_status_cb ::
  "uint32 \<Rightarrow> TOX_USER_STATUS \<Rightarrow> core_events \<Rightarrow> ('s, core_events) prog" where
  "tox4j_friend_status_cb friend_number status events =
     ret (events\<lparr>friend_status := friend_status events @
            [FriendStatus friend_number (set_status status)]\<rparr>)"

definition tox4j_friend_connection_status_cb ::
  "uint32 \<Rightarrow> TOX_CONNECTION \<Rightarrow> core_events \<Rightarrow> ('s, core_events) prog" where
  "tox4j_friend_connection_status_cb friend_number connection_status events =
     ret (events\<lparr>friend_connection_status := friend_connection_status events @
            [FriendConnectionStatus friend_number (set_connection_status connection_status)]\<rparr>)"

definition tox4j_friend_typing_cb ::
  "uint32 \<Rightarrow> bool \<Rightarrow> core_events \<Rightarrow> ('s, core_events) prog" where
  "tox4j_friend_typing_cb friend_number is_typing events =
     ret (events\<lparr>friend_typing := friend_typing events @ [FriendTyping friend_number is_typing]\<rparr>)"

definition tox4j_friend_read_receipt_cb ::
  "uint32 \<Rightarrow> uint32 \<Rightarrow> core_events \<Rightarrow> ('s, core_events) prog" where
  "tox4j_friend_read_receipt_cb friend_number message_id events =
     ret (events\<lparr>friend_read_receipt := friend_read_receipt events @
            [FriendReadReceipt friend_number message_id]\<rparr>)"

definition tox4j_friend_request_cb ::
  "pointer \<Rightarrow> pointer \<Rightarrow> nat \<Rightarrow> core_events \<Rightarrow> ('s, core_events) prog" where
  "tox4j_friend_request_cb public_key message len events =
     andThen (set_bytes public_key TOX_PUBLIC_KEY_SIZE) (\<lambda>key.
     andThen (set_bytes message len) (\<lambda>bytes.
     ret (events\<lparr>friend_request := friend_request events @ [FriendRequest key 0 bytes]\<rparr>)))"

fun set_type :: "TOX_MESSAGE_TYPE \<Rightarrow> MessageType" where
  "set_type TOX_MESSAGE_TYPE_NORMAL = MessageType_NORMAL"
| "set_type TOX_MESSAGE_TYPE_ACTION = MessageType_ACTION"
| "set_type (TOX_MESSAGE_TYPE_OTHER _) = MessageType_NORMAL"

definition tox4j_friend_message_cb ::
  "uint32 \<Rightarrow> TOX_MESSAGE_TYPE \<Rightarrow> pointer \<Rightarrow> nat \<Rightarrow> core_events \<Rightarrow> ('s, core_events) prog" where
  "tox4j_friend_message_cb friend_number type message len events =
     andThen (set_bytes message len) (\<lambda>bytes.
     ret (events\<lparr>friend_message := friend_message events @
            [FriendMessage friend_number (set_type type) 0 bytes]\<rparr>))"

fun set_control :: "TOX_FILE_CONTROL \<Rightarrow> FileControl" where
  "set_control TOX_FILE_CONTROL_RESUME = FileControl_RESUME"
| "set_control TOX_FILE_CONTROL_PAUSE = FileControl_PAUSE"
| "set_control TOX_FILE_CONTROL_CANCEL = FileControl_CANCEL"
| "set_control (TOX_FILE_CONTROL_OTHER _) = FileControl_RESUME"

definition tox4j_file_recv_control_cb ::
  "uint32 \<Rightarrow> uint32 \<Rightarrow> TOX_FILE_CONTROL \<Rightarrow> core_events \<Rightarrow> ('s, core_events) prog" where
  "tox4j_file_recv_control_cb friend_number file_number control events =
     ret (events\<lparr>file_recv_control := file_recv_control events @
            [FileRecvControl friend_number file_number (set_control control)]\<rparr>)"

text \<open>The length is a \<open>size_t\<close>; the field has 32 bits.\<close>

definition tox4j_file_chunk_request_cb ::
  "uint32 \<Rightarrow> uint32 \<Rightarrow> uint64 \<Rightarrow> uint64 \<Rightarrow> core_events \<Rightarrow> ('s, core_events) prog" where
  "tox4j_file_chunk_request_cb friend_number file_number position len events =
     ret (events\<lparr>file_chunk_request := file_chunk_request events @
            [FileChunkRequest friend_number file_number position (ucast len)]\<rparr>)"

definition tox4j_file_recv_cb ::
  "uint32 \<Rightarrow> uint32 \<Rightarrow> uint32 \<Rightarrow> uint64 \<Rightarrow> pointer \<Rightarrow> nat \<Rightarrow> core_events \<Rightarrow>
   ('s, core_events) prog" where
  "tox4j_file_recv_cb friend_number file_number kind file_size filename filename_length events =
     andThen (set_bytes filename filename_length) (\<lambda>bytes.
     ret (events\<lparr>file_recv := file_recv events @
            [FileRecv friend_number file_number kind file_size bytes]\<rparr>))"

definition tox4j_file_recv_chunk_cb ::
  "uint32 \<Rightarrow> uint32 \<Rightarrow> uint64 \<Rightarrow> pointer \<Rightarrow> nat \<Rightarrow> core_events \<Rightarrow> ('s, core_events) prog" where
  "tox4j_file_recv_chunk_cb friend_number file_number position data len events =
     andThen (set_bytes data len) (\<lambda>bytes.
     ret (events\<lparr>file_recv_chunk := file_recv_chunk events @
            [FileRecvChunk friend_number file_number position bytes]\<rparr>))"

definition tox4j_friend_lossy_packet_cb ::
  "uint32 \<Rightarrow> pointer \<Rightarrow> nat \<Rightarrow> core_events \<Rightarrow> ('s, core_events) prog" where
  "tox4j_friend_lossy_packet_cb friend_number data len events =
     andThen (set_bytes data len) (\<lambda>bytes.
     ret (events\<lparr>friend_lossy_packet := friend_lossy_packet events @
            [FriendLossyPacket friend_number bytes]\<rparr>))"

definition tox4j_friend_lossless_packet_cb ::
  "uint32 \<Rightarrow> pointer \<Rightarrow> nat \<Rightarrow> core_events \<Rightarrow> ('s, core_events) prog" where
  "tox4j_friend_lossless_packet_cb friend_number data len events =
     andThen (set_bytes data len) (\<lambda>bytes.
     ret (events\<lparr>friend_lossless_packet := friend_lossless_packet events @
            [FriendLosslessPacket friend_number bytes]\<rparr>))"

section \<open>Calls from toxcore\<close>

text \<open>One constructor per callback of \<open>tox/generated/core.h\<close>, with the C arguments.\<close>

datatype core_callback =
    Cb_self_connection_status TOX_CONNECTION
  | Cb_friend_name uint32 pointer nat
  | Cb_friend_status_message uint32 pointer nat
  | Cb_friend_status uint32 TOX_USER_STATUS
  | Cb_friend_connection_status uint32 TOX_CONNECTION
  | Cb_friend_typing uint32 bool
  | Cb_friend_read_receipt uint32 uint32
  | Cb_friend_request pointer pointer nat
  | Cb_friend_message uint32 TOX_MESSAGE_TYPE pointer nat
  | Cb_file_recv_control uint32 uint32 TOX_FILE_CONTROL
  | Cb_file_chunk_request uint32 uint32 uint64 uint64
  | Cb_file_recv uint32 uint32 uint32 uint64 pointer nat
  | Cb_file_recv_chunk uint32 uint32 uint64 pointer nat
  | Cb_friend_lossy_packet uint32 pointer nat
  | Cb_friend_lossless_packet uint32 pointer nat

datatype core_callback_name =
    CB_file_chunk_request
  | CB_file_recv
  | CB_file_recv_chunk
  | CB_file_recv_control
  | CB_friend_connection_status
  | CB_friend_lossless_packet
  | CB_friend_lossy_packet
  | CB_friend_message
  | CB_friend_name
  | CB_friend_read_receipt
  | CB_friend_request
  | CB_friend_status
  | CB_friend_status_message
  | CB_friend_typing
  | CB_self_connection_status

text \<open>The order of \<open>tox/generated/core.h\<close>.\<close>

definition core_callbacks :: "core_callback_name list" where
  "core_callbacks =
     [CB_file_chunk_request, CB_file_recv, CB_file_recv_chunk, CB_file_recv_control,
      CB_friend_connection_status, CB_friend_lossless_packet, CB_friend_lossy_packet,
      CB_friend_message, CB_friend_name, CB_friend_read_receipt, CB_friend_request,
      CB_friend_status, CB_friend_status_message, CB_friend_typing, CB_self_connection_status]"

fun callback_name :: "core_callback \<Rightarrow> core_callback_name" where
  "callback_name (Cb_self_connection_status _) = CB_self_connection_status"
| "callback_name (Cb_friend_name _ _ _) = CB_friend_name"
| "callback_name (Cb_friend_status_message _ _ _) = CB_friend_status_message"
| "callback_name (Cb_friend_status _ _) = CB_friend_status"
| "callback_name (Cb_friend_connection_status _ _) = CB_friend_connection_status"
| "callback_name (Cb_friend_typing _ _) = CB_friend_typing"
| "callback_name (Cb_friend_read_receipt _ _) = CB_friend_read_receipt"
| "callback_name (Cb_friend_request _ _ _) = CB_friend_request"
| "callback_name (Cb_friend_message _ _ _ _) = CB_friend_message"
| "callback_name (Cb_file_recv_control _ _ _) = CB_file_recv_control"
| "callback_name (Cb_file_chunk_request _ _ _ _) = CB_file_chunk_request"
| "callback_name (Cb_file_recv _ _ _ _ _ _) = CB_file_recv"
| "callback_name (Cb_file_recv_chunk _ _ _ _ _) = CB_file_recv_chunk"
| "callback_name (Cb_friend_lossy_packet _ _ _) = CB_friend_lossy_packet"
| "callback_name (Cb_friend_lossless_packet _ _ _) = CB_friend_lossless_packet"

text \<open>The function registered for the callback, applied to its arguments and the user data.\<close>

fun run_callback :: "core_callback \<Rightarrow> core_events \<Rightarrow> ('s, core_events) prog" where
  "run_callback (Cb_self_connection_status st) = tox4j_self_connection_status_cb st"
| "run_callback (Cb_friend_name fn data len) = tox4j_friend_name_cb fn data len"
| "run_callback (Cb_friend_status_message fn data len) = tox4j_friend_status_message_cb fn data len"
| "run_callback (Cb_friend_status fn st) = tox4j_friend_status_cb fn st"
| "run_callback (Cb_friend_connection_status fn st) = tox4j_friend_connection_status_cb fn st"
| "run_callback (Cb_friend_typing fn b) = tox4j_friend_typing_cb fn b"
| "run_callback (Cb_friend_read_receipt fn i) = tox4j_friend_read_receipt_cb fn i"
| "run_callback (Cb_friend_request key data len) = tox4j_friend_request_cb key data len"
| "run_callback (Cb_friend_message fn ty data len) = tox4j_friend_message_cb fn ty data len"
| "run_callback (Cb_file_recv_control fn file c) = tox4j_file_recv_control_cb fn file c"
| "run_callback (Cb_file_chunk_request fn file pos len) = tox4j_file_chunk_request_cb fn file pos len"
| "run_callback (Cb_file_recv fn file kind sz data len) = tox4j_file_recv_cb fn file kind sz data len"
| "run_callback (Cb_file_recv_chunk fn file pos data len) = tox4j_file_recv_chunk_cb fn file pos data len"
| "run_callback (Cb_friend_lossy_packet fn data len) = tox4j_friend_lossy_packet_cb fn data len"
| "run_callback (Cb_friend_lossless_packet fn data len) = tox4j_friend_lossless_packet_cb fn data len"

text \<open>A pointer followed by a \<open>size_t\<close> is logged as bytes, a pointer alone as such.\<close>

definition log_data :: "pointer \<Rightarrow> nat \<Rightarrow> log_arg" where
  "log_data data len = Arg_bytes (map_option (take len) data)"

abbreviation log_uint :: "'a::len word \<Rightarrow> log_arg" where
  "log_uint w \<equiv> Arg_integer (uint w)"

abbreviation log_sint :: "'a::len word \<Rightarrow> log_arg" where
  "log_sint w \<equiv> Arg_integer (sint w)"

fun callback_args :: "core_callback \<Rightarrow> log_arg list" where
  "callback_args (Cb_self_connection_status st) = [Arg_enum (print_arg_TOX_CONNECTION st)]"
| "callback_args (Cb_friend_name fn data len) = [log_uint fn, log_data data len]"
| "callback_args (Cb_friend_status_message fn data len) = [log_uint fn, log_data data len]"
| "callback_args (Cb_friend_status fn st) = [log_uint fn, Arg_enum (print_arg_TOX_USER_STATUS st)]"
| "callback_args (Cb_friend_connection_status fn st) =
     [log_uint fn, Arg_enum (print_arg_TOX_CONNECTION st)]"
| "callback_args (Cb_friend_typing fn b) = [log_uint fn, Arg_integer (of_bool_int b)]"
| "callback_args (Cb_friend_read_receipt fn i) = [log_uint fn, log_uint i]"
| "callback_args (Cb_friend_request key data len) = [Arg_byte_ptr key, log_data data len]"
| "callback_args (Cb_friend_message fn ty data len) =
     [log_uint fn, Arg_enum (print_arg_TOX_MESSAGE_TYPE ty), log_data data len]"
| "callback_args (Cb_file_recv_control fn file c) =
     [log_uint fn, log_uint file, Arg_enum (print_arg_TOX_FILE_CONTROL c)]"
| "callback_args (Cb_file_chunk_request fn file pos len) =
     [log_uint fn, log_uint file, log_uint pos, log_uint len]"
| "callback_args (Cb_file_recv fn file kind sz data len) =
     [log_uint fn, log_uint file, log_uint kind, log_uint sz, log_data data len]"
| "callback_args (Cb_file_recv_chunk fn file pos data len) =
     [log_uint fn, log_uint file, log_uint pos, log_data data len]"
| "callback_args (Cb_friend_lossy_packet fn data len) = [log_uint fn, log_data data len]"
| "callback_args (Cb_friend_lossless_packet fn data len) = [log_uint fn, log_data data len]"

text \<open>\<open>addr\<close> gives the address of each callback function; \<open>tox\<close> is the object's address.\<close>

definition invoke ::
  "(core_callback_name \<Rightarrow> uintptr) \<Rightarrow> uintptr \<Rightarrow> core_callback \<Rightarrow> core_events \<Rightarrow>
   ('z logenv_scheme, core_events) prog" where
  "invoke addr tox cb user_data =
     tox_cb_invoke (addr (callback_name cb)) tox (callback_args cb) (run_callback cb user_data)"

section \<open>Lemmas\<close>

text \<open>What toxcore promises about the pointers it passes.\<close>

fun valid_data :: "pointer \<Rightarrow> nat \<Rightarrow> bool" where
  "valid_data None len \<longleftrightarrow> len = 0"
| "valid_data (Some bytes) len \<longleftrightarrow> len \<le> length bytes"

fun valid_callback :: "core_callback \<Rightarrow> bool" where
  "valid_callback (Cb_friend_name _ data len) \<longleftrightarrow> valid_data data len"
| "valid_callback (Cb_friend_status_message _ data len) \<longleftrightarrow> valid_data data len"
| "valid_callback (Cb_friend_request key data len) \<longleftrightarrow>
     valid_data key TOX_PUBLIC_KEY_SIZE \<and> valid_data data len"
| "valid_callback (Cb_friend_message _ _ data len) \<longleftrightarrow> valid_data data len"
| "valid_callback (Cb_file_recv _ _ _ _ data len) \<longleftrightarrow> valid_data data len"
| "valid_callback (Cb_file_recv_chunk _ _ _ data len) \<longleftrightarrow> valid_data data len"
| "valid_callback (Cb_friend_lossy_packet _ data len) \<longleftrightarrow> valid_data data len"
| "valid_callback (Cb_friend_lossless_packet _ data len) \<longleftrightarrow> valid_data data len"
| "valid_callback _ \<longleftrightarrow> True"

abbreviation data_bytes :: "pointer \<Rightarrow> nat \<Rightarrow> uint8 list" where
  "data_bytes data len \<equiv> (case data of None \<Rightarrow> [] | Some bytes \<Rightarrow> take len bytes)"

lemma set_bytes_valid: "valid_data data len \<Longrightarrow> set_bytes data len = ret (data_bytes data len)"
  by (cases data) (simp_all add: set_bytes_def)

text \<open>The effect of a callback on the queue, as a pure function.\<close>

fun append_event :: "core_callback \<Rightarrow> core_events \<Rightarrow> core_events" where
  "append_event (Cb_self_connection_status st) ev =
     ev\<lparr>self_connection_status := self_connection_status ev @
          [SelfConnectionStatus (set_connection_status st)]\<rparr>"
| "append_event (Cb_friend_name fn data len) ev =
     ev\<lparr>friend_name := friend_name ev @ [FriendName fn (data_bytes data len)]\<rparr>"
| "append_event (Cb_friend_status_message fn data len) ev =
     ev\<lparr>friend_status_message := friend_status_message ev @
          [FriendStatusMessage fn (data_bytes data len)]\<rparr>"
| "append_event (Cb_friend_status fn st) ev =
     ev\<lparr>friend_status := friend_status ev @ [FriendStatus fn (set_status st)]\<rparr>"
| "append_event (Cb_friend_connection_status fn st) ev =
     ev\<lparr>friend_connection_status := friend_connection_status ev @
          [FriendConnectionStatus fn (set_connection_status st)]\<rparr>"
| "append_event (Cb_friend_typing fn b) ev =
     ev\<lparr>friend_typing := friend_typing ev @ [FriendTyping fn b]\<rparr>"
| "append_event (Cb_friend_read_receipt fn i) ev =
     ev\<lparr>friend_read_receipt := friend_read_receipt ev @ [FriendReadReceipt fn i]\<rparr>"
| "append_event (Cb_friend_request key data len) ev =
     ev\<lparr>friend_request := friend_request ev @
          [FriendRequest (data_bytes key TOX_PUBLIC_KEY_SIZE) 0 (data_bytes data len)]\<rparr>"
| "append_event (Cb_friend_message fn ty data len) ev =
     ev\<lparr>friend_message := friend_message ev @
          [FriendMessage fn (set_type ty) 0 (data_bytes data len)]\<rparr>"
| "append_event (Cb_file_recv_control fn file c) ev =
     ev\<lparr>file_recv_control := file_recv_control ev @ [FileRecvControl fn file (set_control c)]\<rparr>"
| "append_event (Cb_file_chunk_request fn file pos len) ev =
     ev\<lparr>file_chunk_request := file_chunk_request ev @ [FileChunkRequest fn file pos (ucast len)]\<rparr>"
| "append_event (Cb_file_recv fn file kind sz data len) ev =
     ev\<lparr>file_recv := file_recv ev @ [FileRecv fn file kind sz (data_bytes data len)]\<rparr>"
| "append_event (Cb_file_recv_chunk fn file pos data len) ev =
     ev\<lparr>file_recv_chunk := file_recv_chunk ev @ [FileRecvChunk fn file pos (data_bytes data len)]\<rparr>"
| "append_event (Cb_friend_lossy_packet fn data len) ev =
     ev\<lparr>friend_lossy_packet := friend_lossy_packet ev @ [FriendLossyPacket fn (data_bytes data len)]\<rparr>"
| "append_event (Cb_friend_lossless_packet fn data len) ev =
     ev\<lparr>friend_lossless_packet := friend_lossless_packet ev @
          [FriendLosslessPacket fn (data_bytes data len)]\<rparr>"

lemmas callback_defs =
  tox4j_self_connection_status_cb_def tox4j_friend_name_cb_def tox4j_friend_status_message_cb_def
  tox4j_friend_status_cb_def tox4j_friend_connection_status_cb_def tox4j_friend_typing_cb_def
  tox4j_friend_read_receipt_cb_def tox4j_friend_request_cb_def tox4j_friend_message_cb_def
  tox4j_file_recv_control_cb_def tox4j_file_chunk_request_cb_def tox4j_file_recv_cb_def
  tox4j_file_recv_chunk_cb_def tox4j_friend_lossy_packet_cb_def tox4j_friend_lossless_packet_cb_def

lemma run_callback_eq: "valid_callback cb \<Longrightarrow> run_callback cb ev s = Done (append_event cb ev, s)"
  by (cases cb) (simp_all add: callback_defs set_bytes_valid)

lemma core_callbacks_complete: "callback_name cb \<in> set core_callbacks"
  by (cases cb) (simp_all add: core_callbacks_def)

lemma logs_only_run_callback:
  "valid_callback cb \<Longrightarrow> logs_only P (run_callback cb ev) (\<lambda>r. r = append_event cb ev)"
  by (rule logs_onlyI) (simp add: wp_iff run_callback_eq log_step_refl)

text \<open>Called by toxcore, a callback appends its event and does nothing else but log.\<close>

lemma logs_only_invoke:
  assumes "tox \<noteq> 0" and "valid_callback cb"
  shows "logs_only P (invoke addr tox cb ev) (\<lambda>r. r = append_event cb ev)"
  unfolding invoke_def using assms by (intro logs_only_tox_cb_invoke logs_only_run_callback)

end
