(* ===== verification/Av_Events.thy ===== *)
theory Av_Events
  imports Core_Events
begin

text \<open>
  The event queue of a ToxAV instance: the messages of \<open>ToxAv/Av.proto\<close> and the callbacks
  of \<open>ToxAv/lifecycle.cpp\<close>. The values of the \<open>TOXAV_FRIEND_CALL_STATE\<close> bits belong to
  toxav and are a parameter, \<open>bits\<close>.
\<close>

unbundle bit_operations_syntax

section \<open>Messages\<close>

datatype CallStateKind =
    Kind_ERROR | Kind_FINISHED | Kind_SENDING_A | Kind_SENDING_V | Kind_ACCEPTING_A | Kind_ACCEPTING_V

datatype Call = Call jint bool bool
datatype CallState = CallState uint32 "CallStateKind list"
datatype AudioBitRate = AudioBitRate uint32 uint32
datatype VideoBitRate = VideoBitRate uint32 uint32

record AudioReceiveFrame =
  arf_friend_number :: uint32
  arf_pcm :: "uint8 list"
  arf_channels :: uint32
  arf_sampling_rate :: uint32

record VideoReceiveFrame =
  vrf_friend_number :: uint32
  vrf_width :: uint32
  vrf_height :: uint32
  vrf_y :: "uint8 list"
  vrf_u :: "uint8 list"
  vrf_v :: "uint8 list"
  vrf_y_stride :: jint
  vrf_u_stride :: jint
  vrf_v_stride :: jint

record av_events =
  av_call :: "Call list"
  av_call_state :: "CallState list"
  av_audio_bit_rate :: "AudioBitRate list"
  av_video_bit_rate :: "VideoBitRate list"
  av_audio_receive_frame :: "AudioReceiveFrame list"
  av_video_receive_frame :: "VideoReceiveFrame list"

definition no_av_events :: av_events where
  "no_av_events =
     \<lparr>av_call = [], av_call_state = [], av_audio_bit_rate = [], av_video_bit_rate = [],
      av_audio_receive_frame = [], av_video_receive_frame = []\<rparr>"

section \<open>Callbacks\<close>

definition tox4j_call_cb :: "uint32 \<Rightarrow> bool \<Rightarrow> bool \<Rightarrow> av_events \<Rightarrow> ('s, av_events) prog" where
  "tox4j_call_cb friend_number audio_enabled video_enabled events =
     ret (events\<lparr>av_call := av_call events @ [Call friend_number audio_enabled video_enabled]\<rparr>)"

definition call_state_case ::
  "uint32 \<Rightarrow> uint32 \<Rightarrow> CallStateKind \<Rightarrow> CallStateKind list \<Rightarrow> CallStateKind list" where
  "call_state_case state flag kind kinds = (if state AND flag \<noteq> 0 then kinds @ [kind] else kinds)"

definition call_state_kinds :: "(TOXAV_FRIEND_CALL_STATE \<Rightarrow> uint32) \<Rightarrow> uint32 \<Rightarrow> CallStateKind list" where
  "call_state_kinds bits state =
     call_state_case state (bits TOXAV_FRIEND_CALL_STATE_ACCEPTING_V) Kind_ACCEPTING_V
    (call_state_case state (bits TOXAV_FRIEND_CALL_STATE_ACCEPTING_A) Kind_ACCEPTING_A
    (call_state_case state (bits TOXAV_FRIEND_CALL_STATE_SENDING_V) Kind_SENDING_V
    (call_state_case state (bits TOXAV_FRIEND_CALL_STATE_SENDING_A) Kind_SENDING_A
    (call_state_case state (bits TOXAV_FRIEND_CALL_STATE_FINISHED) Kind_FINISHED
    (call_state_case state (bits TOXAV_FRIEND_CALL_STATE_ERROR) Kind_ERROR [])))))"

definition tox4j_call_state_cb ::
  "(TOXAV_FRIEND_CALL_STATE \<Rightarrow> uint32) \<Rightarrow> uint32 \<Rightarrow> uint32 \<Rightarrow> av_events \<Rightarrow> ('s, av_events) prog" where
  "tox4j_call_state_cb bits friend_number state events =
     ret (events\<lparr>av_call_state := av_call_state events @
            [CallState friend_number (call_state_kinds bits state)]\<rparr>)"

definition tox4j_audio_bit_rate_cb :: "uint32 \<Rightarrow> uint32 \<Rightarrow> av_events \<Rightarrow> ('s, av_events) prog" where
  "tox4j_audio_bit_rate_cb friend_number audio_bit_rate events =
     ret (events\<lparr>av_audio_bit_rate := av_audio_bit_rate events @
            [AudioBitRate friend_number audio_bit_rate]\<rparr>)"

definition tox4j_video_bit_rate_cb :: "uint32 \<Rightarrow> uint32 \<Rightarrow> av_events \<Rightarrow> ('s, av_events) prog" where
  "tox4j_video_bit_rate_cb friend_number video_bit_rate events =
     ret (events\<lparr>av_video_bit_rate := av_video_bit_rate events @
            [VideoBitRate friend_number video_bit_rate]\<rparr>)"

text \<open>The range of samples that \<open>to_bytes\<close> reads; the product wraps at 64 bits.\<close>

type_synonym samples = "jshort list option"

definition sample_range :: "samples \<Rightarrow> uint64 \<Rightarrow> ('s, jshort list) prog" where
  "sample_range pcm n =
    (case pcm of
       None \<Rightarrow> if n = 0 then ret [] else fail (UB ''read through a null pointer'')
     | Some xs \<Rightarrow> if unat n \<le> length xs then ret (take (unat n) xs)
                  else fail (UB ''read past the end of an array''))"

definition tox4j_audio_receive_frame_cb ::
  "uint32 \<Rightarrow> samples \<Rightarrow> uint64 \<Rightarrow> uint8 \<Rightarrow> uint32 \<Rightarrow> av_events \<Rightarrow> ('s, av_events) prog" where
  "tox4j_audio_receive_frame_cb friend_number pcm sample_count channels sampling_rate events =
     andThen (sample_range pcm (sample_count * ucast channels)) (\<lambda>xs.
     andThen (to_bytes to_bytes_int16 2 xs []) (\<lambda>bytes.
     ret (events\<lparr>av_audio_receive_frame := av_audio_receive_frame events @
       [\<lparr>arf_friend_number = friend_number, arf_pcm = bytes, arf_channels = ucast channels,
         arf_sampling_rate = sampling_rate\<rparr>]\<rparr>)))"

text \<open>\<open>std::abs\<close> of the smallest \<open>int\<close> has no meaning.\<close>

definition abs_int :: "jint \<Rightarrow> ('s, nat) prog" where
  "abs_int i = (if sint i = - (2 ^ 31) then fail (UB ''std::abs of INT_MIN'') else ret (nat \<bar>sint i\<bar>))"

definition tox4j_video_receive_frame_cb ::
  "uint32 \<Rightarrow> uint16 \<Rightarrow> uint16 \<Rightarrow> pointer \<Rightarrow> pointer \<Rightarrow> pointer \<Rightarrow> jint \<Rightarrow> jint \<Rightarrow> jint \<Rightarrow>
   av_events \<Rightarrow> ('s, av_events) prog" where
  "tox4j_video_receive_frame_cb friend_number width height y u v ystride ustride vstride events =
     andThen (cassert ''ystride < 0 == ustride < 0'' ((sint ystride < 0) = (sint ustride < 0))) (\<lambda>_.
     andThen (cassert ''ystride < 0 == vstride < 0'' ((sint ystride < 0) = (sint vstride < 0))) (\<lambda>_.
     andThen (abs_int ystride) (\<lambda>ys.
     andThen (set_bytes y (max (unat width) ys * unat height)) (\<lambda>yb.
     andThen (abs_int ustride) (\<lambda>us.
     andThen (set_bytes u (max (unat width div 2) us * (unat height div 2))) (\<lambda>ub.
     andThen (abs_int vstride) (\<lambda>vs.
     andThen (set_bytes v (max (unat width div 2) vs * (unat height div 2))) (\<lambda>vb.
     ret (events\<lparr>av_video_receive_frame := av_video_receive_frame events @
       [\<lparr>vrf_friend_number = friend_number, vrf_width = ucast width, vrf_height = ucast height,
         vrf_y = yb, vrf_u = ub, vrf_v = vb,
         vrf_y_stride = ystride, vrf_u_stride = ustride, vrf_v_stride = vstride\<rparr>]\<rparr>)))))))))"

section \<open>Calls from toxav\<close>

datatype av_callback =
    Cb_call uint32 bool bool
  | Cb_call_state uint32 uint32
  | Cb_audio_bit_rate uint32 uint32
  | Cb_video_bit_rate uint32 uint32
  | Cb_audio_receive_frame uint32 samples uint64 uint8 uint32
  | Cb_video_receive_frame uint32 uint16 uint16 pointer pointer pointer jint jint jint

datatype av_callback_name =
    CB_audio_bit_rate
  | CB_audio_receive_frame
  | CB_call
  | CB_call_state
  | CB_video_bit_rate
  | CB_video_receive_frame

text \<open>The order of \<open>tox/generated/av.h\<close>.\<close>

definition av_callbacks :: "av_callback_name list" where
  "av_callbacks = [CB_audio_bit_rate, CB_audio_receive_frame, CB_call, CB_call_state,
     CB_video_bit_rate, CB_video_receive_frame]"

fun av_name :: "av_callback \<Rightarrow> av_callback_name" where
  "av_name (Cb_call _ _ _) = CB_call"
| "av_name (Cb_call_state _ _) = CB_call_state"
| "av_name (Cb_audio_bit_rate _ _) = CB_audio_bit_rate"
| "av_name (Cb_video_bit_rate _ _) = CB_video_bit_rate"
| "av_name (Cb_audio_receive_frame _ _ _ _ _) = CB_audio_receive_frame"
| "av_name (Cb_video_receive_frame _ _ _ _ _ _ _ _ _) = CB_video_receive_frame"

fun run_av_callback ::
  "(TOXAV_FRIEND_CALL_STATE \<Rightarrow> uint32) \<Rightarrow> av_callback \<Rightarrow> av_events \<Rightarrow> ('s, av_events) prog" where
  "run_av_callback bits (Cb_call fn a v) = tox4j_call_cb fn a v"
| "run_av_callback bits (Cb_call_state fn st) = tox4j_call_state_cb bits fn st"
| "run_av_callback bits (Cb_audio_bit_rate fn r) = tox4j_audio_bit_rate_cb fn r"
| "run_av_callback bits (Cb_video_bit_rate fn r) = tox4j_video_bit_rate_cb fn r"
| "run_av_callback bits (Cb_audio_receive_frame fn pcm n c r) = tox4j_audio_receive_frame_cb fn pcm n c r"
| "run_av_callback bits (Cb_video_receive_frame fn w h y u v ys us vs) =
     tox4j_video_receive_frame_cb fn w h y u v ys us vs"

fun av_callback_args :: "av_callback \<Rightarrow> log_arg list" where
  "av_callback_args (Cb_call fn a v) =
     [log_uint fn, Arg_integer (of_bool_int a), Arg_integer (of_bool_int v)]"
| "av_callback_args (Cb_call_state fn st) = [log_uint fn, log_uint st]"
| "av_callback_args (Cb_audio_bit_rate fn r) = [log_uint fn, log_uint r]"
| "av_callback_args (Cb_video_bit_rate fn r) = [log_uint fn, log_uint r]"
| "av_callback_args (Cb_audio_receive_frame fn pcm n c r) =
     [log_uint fn, Arg_samples pcm, log_uint n, log_uint c, log_uint r]"
| "av_callback_args (Cb_video_receive_frame fn w h y u v ys us vs) =
     [log_uint fn, log_uint w, log_uint h, Arg_byte_ptr y, Arg_byte_ptr u, Arg_byte_ptr v,
      log_sint ys, log_sint us, log_sint vs]"

definition av_invoke ::
  "(TOXAV_FRIEND_CALL_STATE \<Rightarrow> uint32) \<Rightarrow> (av_callback_name \<Rightarrow> uintptr) \<Rightarrow> uintptr \<Rightarrow>
   av_callback \<Rightarrow> av_events \<Rightarrow> ('z logenv_scheme, av_events) prog" where
  "av_invoke bits addr av cb user_data =
     tox_cb_invoke (addr (av_name cb)) av (av_callback_args cb) (run_av_callback bits cb user_data)"

section \<open>Lemmas\<close>

fun valid_samples :: "samples \<Rightarrow> uint64 \<Rightarrow> bool" where
  "valid_samples None n \<longleftrightarrow> n = 0"
| "valid_samples (Some xs) n \<longleftrightarrow> unat n \<le> length xs"

abbreviation plane_size :: "nat \<Rightarrow> nat \<Rightarrow> jint \<Rightarrow> nat" where
  "plane_size w h stride \<equiv> max w (nat \<bar>sint stride\<bar>) * h"

fun valid_av_callback :: "av_callback \<Rightarrow> bool" where
  "valid_av_callback (Cb_audio_receive_frame _ pcm n c _) \<longleftrightarrow> valid_samples pcm (n * ucast c)"
| "valid_av_callback (Cb_video_receive_frame _ w h y u v ys us vs) \<longleftrightarrow>
     (sint ys < 0) = (sint us < 0) \<and> (sint ys < 0) = (sint vs < 0) \<and>
     sint ys \<noteq> - (2 ^ 31) \<and> sint us \<noteq> - (2 ^ 31) \<and> sint vs \<noteq> - (2 ^ 31) \<and>
     valid_data y (plane_size (unat w) (unat h) ys) \<and>
     valid_data u (plane_size (unat w div 2) (unat h div 2) us) \<and>
     valid_data v (plane_size (unat w div 2) (unat h div 2) vs)"
| "valid_av_callback _ \<longleftrightarrow> True"

abbreviation sample_list :: "samples \<Rightarrow> uint64 \<Rightarrow> jshort list" where
  "sample_list pcm n \<equiv> (case pcm of None \<Rightarrow> [] | Some xs \<Rightarrow> take (unat n) xs)"

fun append_av_event ::
  "(TOXAV_FRIEND_CALL_STATE \<Rightarrow> uint32) \<Rightarrow> av_callback \<Rightarrow> av_events \<Rightarrow> av_events" where
  "append_av_event bits (Cb_call fn a v) ev = ev\<lparr>av_call := av_call ev @ [Call fn a v]\<rparr>"
| "append_av_event bits (Cb_call_state fn st) ev =
     ev\<lparr>av_call_state := av_call_state ev @ [CallState fn (call_state_kinds bits st)]\<rparr>"
| "append_av_event bits (Cb_audio_bit_rate fn r) ev =
     ev\<lparr>av_audio_bit_rate := av_audio_bit_rate ev @ [AudioBitRate fn r]\<rparr>"
| "append_av_event bits (Cb_video_bit_rate fn r) ev =
     ev\<lparr>av_video_bit_rate := av_video_bit_rate ev @ [VideoBitRate fn r]\<rparr>"
| "append_av_event bits (Cb_audio_receive_frame fn pcm n c r) ev =
     ev\<lparr>av_audio_receive_frame := av_audio_receive_frame ev @
       [\<lparr>arf_friend_number = fn, arf_pcm = concat (map be16 (sample_list pcm (n * ucast c))),
         arf_channels = ucast c, arf_sampling_rate = r\<rparr>]\<rparr>"
| "append_av_event bits (Cb_video_receive_frame fn w h y u v ys us vs) ev =
     ev\<lparr>av_video_receive_frame := av_video_receive_frame ev @
       [\<lparr>vrf_friend_number = fn, vrf_width = ucast w, vrf_height = ucast h,
         vrf_y = data_bytes y (plane_size (unat w) (unat h) ys),
         vrf_u = data_bytes u (plane_size (unat w div 2) (unat h div 2) us),
         vrf_v = data_bytes v (plane_size (unat w div 2) (unat h div 2) vs),
         vrf_y_stride = ys, vrf_u_stride = us, vrf_v_stride = vs\<rparr>]\<rparr>"

lemma sample_range_valid: "valid_samples pcm n \<Longrightarrow> sample_range pcm n = ret (sample_list pcm n)"
  by (cases pcm) (simp_all add: sample_range_def)

lemma run_av_callback_eq:
  assumes "valid_av_callback cb"
  shows "run_av_callback bits cb ev s = Done (append_av_event bits cb ev, s)"
proof (cases cb)
  case (Cb_audio_receive_frame fn pcm n c r)
  with assms have "sample_range pcm (n * ucast c) s = Done (sample_list pcm (n * ucast c), s)"
    by (simp add: sample_range_valid)
  with Cb_audio_receive_frame show ?thesis
    by (simp add: tox4j_audio_receive_frame_cb_def andThen_def shorts.to_bytes_eq)
next
  case (Cb_video_receive_frame fn w h y u v ys us vs)
  with assms show ?thesis
    by (simp add: tox4j_video_receive_frame_cb_def abs_int_def set_bytes_valid cassert_def) blast
qed (simp_all add: tox4j_call_cb_def tox4j_call_state_cb_def tox4j_audio_bit_rate_cb_def
    tox4j_video_bit_rate_cb_def)

lemma av_callbacks_complete: "av_name cb \<in> set av_callbacks"
  by (cases cb) (simp_all add: av_callbacks_def)

lemma logs_only_av_invoke:
  assumes "av \<noteq> 0" and "valid_av_callback cb"
  shows "logs_only P (av_invoke bits addr av cb ev) (\<lambda>r. r = append_av_event bits cb ev)"
  unfolding av_invoke_def using assms
  by (intro logs_only_tox_cb_invoke)
    (auto intro!: logs_onlyI simp: wp_iff run_av_callback_eq log_step_refl)

end
