(* ===== verification/World.thy ===== *)
theory World
  imports Tox_Instances Av_Events
begin

text \<open>
  The state of the native library: the Java environment, the log, and the two instance
  managers \<open>core::instances\<close> and \<open>av::instances\<close>. The contracts of the managers and of the
  call paths are interpreted for both.
\<close>

section \<open>State\<close>

type_synonym 'tox tox = "(core_callback_name, 'tox) native_object"
type_synonym 'av toxav = "(av_callback_name, 'av) native_object"

record ('tox, 'av) world = logenv +
  core_manager :: "('tox tox, core_events) instance_manager"
  av_manager :: "('av toxav, av_events) instance_manager"

definition core_lens ::
  "(('tox, 'av, 'z) world_scheme, ('tox tox, core_events) instance_manager) lens" where
  "core_lens = \<lparr>lget = core_manager, lput = (\<lambda>m s. s\<lparr>core_manager := m\<rparr>)\<rparr>"

definition av_lens ::
  "(('tox, 'av, 'z) world_scheme, ('av toxav, av_events) instance_manager) lens" where
  "av_lens = \<lparr>lget = av_manager, lput = (\<lambda>m s. s\<lparr>av_manager := m\<rparr>)\<rparr>"

definition core_class :: "(('tox, 'av, 'z) world_scheme, 'tox tox, core_events) tox_class" where
  "core_class =
     \<lparr>instances_of = core_lens, subsystem_of = core_subsystem,
      show_object = (\<lambda>tox. Arg_tox (obj_addr tox))\<rparr>"

definition av_class :: "(('tox, 'av, 'z) world_scheme, 'av toxav, av_events) tox_class" where
  "av_class =
     \<lparr>instances_of = av_lens, subsystem_of = av_subsystem,
      show_object = (\<lambda>av. Arg_toxav (obj_addr av))\<rparr>"

section \<open>Interpretations\<close>

definition any_log :: logenv where
  "any_log = \<lparr>jvm_of = complete_vm, pending = None, jni_log_of = initial_log,
     func_names = (\<lambda>_. None), static_funcs = [], tox_ids = [], av_ids = [],
     clock = (\<lambda>_. 0), ticks = 0\<rparr>"

definition get_core :: "('tox, 'av, 'z) world_ext \<Rightarrow> ('tox tox, core_events) instance_manager" where
  "get_core z = core_manager (logenv.extend any_log z)"

definition put_core ::
  "('tox tox, core_events) instance_manager \<Rightarrow> ('tox, 'av, 'z) world_ext \<Rightarrow> ('tox, 'av, 'z) world_ext" where
  "put_core m z = logenv.more ((logenv.extend any_log z)\<lparr>core_manager := m\<rparr>)"

definition get_av :: "('tox, 'av, 'z) world_ext \<Rightarrow> ('av toxav, av_events) instance_manager" where
  "get_av z = av_manager (logenv.extend any_log z)"

definition put_av ::
  "('av toxav, av_events) instance_manager \<Rightarrow> ('tox, 'av, 'z) world_ext \<Rightarrow> ('tox, 'av, 'z) world_ext" where
  "put_av m z = logenv.more ((logenv.extend any_log z)\<lparr>av_manager := m\<rparr>)"

lemma class_simps [simp]:
  "instances_of core_class = core_lens" "instances_of av_class = av_lens"
  "subsystem_of core_class = core_subsystem" "subsystem_of av_class = av_subsystem"
  "show_object core_class = (\<lambda>tox. Arg_tox (obj_addr tox))"
  "show_object av_class = (\<lambda>av. Arg_toxav (obj_addr av))"
  by (simp_all add: core_class_def av_class_def)

lemma lens_simps [simp]:
  "lget core_lens s = core_manager s" "lput core_lens m s = s\<lparr>core_manager := m\<rparr>"
  "lget av_lens s = av_manager s" "lput av_lens n s = s\<lparr>av_manager := n\<rparr>"
  by (simp_all add: core_lens_def av_lens_def)

lemma more_extend [simp]: "logenv.more (logenv.extend r z) = z"
  by (simp add: logenv.defs)

lemma get_core_more: "get_core (logenv.more s) = core_manager s"
  by (cases s) (simp add: get_core_def logenv.defs)

lemma put_core_more: "put_core m (logenv.more s) = logenv.more (s\<lparr>core_manager := m\<rparr>)"
  by (cases s) (simp add: put_core_def logenv.defs)

interpretation core: tox_instances core_class get_core put_core
proof
  fix s :: "('tox, 'av, 'z) world_scheme" and z :: "('tox, 'av, 'z) world_ext" and m m'
  define r where "r = logenv.extend any_log z"
  have z: "z = logenv.more r" by (simp add: r_def)
  show "lget (instances_of core_class) s = get_core (logenv.more s)" by (simp add: get_core_more)
  show "lput (instances_of core_class) m s = logenv.more_update (put_core m) s"
    by (cases s) (simp add: put_core_def logenv.defs)
  show "get_core (put_core m z) = m" "put_core (get_core z) z = z"
    "put_core m (put_core m' z) = put_core m z"
    by (simp_all add: z get_core_more put_core_more)
qed

lemma get_av_more: "get_av (logenv.more s) = av_manager s"
  by (cases s) (simp add: get_av_def logenv.defs)

lemma put_av_more: "put_av m (logenv.more s) = logenv.more (s\<lparr>av_manager := m\<rparr>)"
  by (cases s) (simp add: put_av_def logenv.defs)

interpretation av: tox_instances av_class get_av put_av
proof
  fix s :: "('tox, 'av, 'z) world_scheme" and z :: "('tox, 'av, 'z) world_ext" and m m'
  define r where "r = logenv.extend any_log z"
  have z: "z = logenv.more r" by (simp add: r_def)
  show "lget (instances_of av_class) s = get_av (logenv.more s)" by (simp add: get_av_more)
  show "lput (instances_of av_class) m s = logenv.more_update (put_av m) s"
    by (cases s) (simp add: put_av_def logenv.defs)
  show "get_av (put_av m z) = m" "put_av (get_av z) z = z"
    "put_av m (put_av m' z) = put_av m z"
    by (simp_all add: z get_av_more put_av_more)
qed

text \<open>The contracts in terms of the fields of the state.\<close>

lemma manager_ok_simps [simp]:
  "manager_lens.manager_ok core_lens s \<longleftrightarrow> manager_inv (core_manager s) \<and> unlocked (core_manager s)"
  "manager_lens.manager_ok av_lens s \<longleftrightarrow> manager_inv (av_manager s) \<and> unlocked (av_manager s)"
  using core.manager_ok_def [of s] av.manager_ok_def [of s] by simp_all

end
