(* ===== verification/Log_Threads.thy ===== *)
theory Log_Threads
  imports Log_Facts World
begin

text \<open>
  The log shared by threads (\<open>util/debug_log.{h,cpp}\<close>). The sequential operations of
  \<open>Debug_Log\<close> are the steps; a step that the code makes under the recursive mutex of the log
  waits for it, the steps of different threads interleave otherwise. A thread keeps the
  pointers of its open entries and, with the first of them, the mutex.
\<close>

section \<open>Threads and their steps\<close>

text \<open>
  \<open>handles\<close> are the pointers of the \<open>JniLog::Entry\<close> objects of a thread that are not null, the
  innermost first: a callback opens its entry in the scope of the entry of the call.
  \<open>naming\<close> is true between \<open>new_entry\<close> and \<open>print_func\<close> in the constructor of \<open>LogEntry\<close>.
\<close>

record 'z log_threads =
  shared :: "'z logenv_scheme"
  log_holder :: "nat option"
  handles :: "nat \<Rightarrow> nat list"
  naming :: "nat \<Rightarrow> bool"

definition idle_threads :: "'z logenv_scheme \<Rightarrow> 'z log_threads" where
  "idle_threads sh = \<lparr>shared = sh, log_holder = None, handles = (\<lambda>_. []), naming = (\<lambda>_. False)\<rparr>"

text \<open>The writes of a \<open>LogEntry\<close> to its entry after the name.\<close>

datatype entry_write =
    Argument log_arg
  | Instance_number jint
  | Times int int
  | Result log_arg

fun write_through :: "nat \<Rightarrow> entry_write \<Rightarrow> ('z logenv_scheme, unit) prog" where
  "write_through p (Argument a) = print_args p [a]"
| "write_through p (Instance_number n) = update_entry p (\<lambda>e. e\<lparr>entry_instance := n\<rparr>)"
| "write_through p (Times start stop) = update_entry p (record_times start stop)"
| "write_through p (Result a) =
     andThen (print_arg a) (\<lambda>v. update_entry p (\<lambda>e. e\<lparr>entry_result := Some v\<rparr>))"

datatype log_action =
    Open_disabled
  | Open_entry
  | Name_entry uintptr
  | Write_entry entry_write
  | Close_entry
  | Clear_log "log_entry list \<Rightarrow> uint8 list"
  | Get_size
  | Set_filter "string list"
  | Set_max_size jint
  | Register_func uintptr string
  | Read_clock

text \<open>
  When a thread may make a step. \<open>new_entry\<close> first tests the limit without the lock and returns null
  if it is 0 (\<open>Open_disabled\<close>). Otherwise \<open>new_entry\<close>, and \<open>clear\<close>, \<open>size\<close> and \<open>filter\<close> lock the mutex; writes and
  \<open>~Entry\<close> have it from \<open>new_entry\<close>; \<open>max_size\<close>, \<open>register_func\<close> and the clock do not lock. \<open>clear\<close>, \<open>size\<close> and
  \<open>filter\<close> are called from Java, outside the scope of all entries of the thread. A function is
  registered once, by the initialiser of a static variable.
\<close>

definition lock_free :: "nat \<Rightarrow> 'z log_threads \<Rightarrow> bool" where
  "lock_free i s \<longleftrightarrow> (case log_holder s of None \<Rightarrow> True | Some j \<Rightarrow> j = i)"

fun may_log :: "nat \<Rightarrow> log_action \<Rightarrow> 'z log_threads \<Rightarrow> bool" where
  "may_log i Open_disabled s \<longleftrightarrow> log_max_size (jni_log_of (shared s)) = 0"
| "may_log i Open_entry s \<longleftrightarrow> lock_free i s \<and> \<not> naming s i"
| "may_log i (Name_entry func) s \<longleftrightarrow> naming s i"
| "may_log i (Write_entry w) s \<longleftrightarrow> handles s i \<noteq> [] \<and> \<not> naming s i"
| "may_log i Close_entry s \<longleftrightarrow> handles s i \<noteq> [] \<and> \<not> naming s i"
| "may_log i (Clear_log serialize) s \<longleftrightarrow> lock_free i s \<and> handles s i = []"
| "may_log i Get_size s \<longleftrightarrow> lock_free i s \<and> handles s i = []"
| "may_log i (Set_filter filters) s \<longleftrightarrow> lock_free i s \<and> handles s i = []"
| "may_log i (Set_max_size n) s \<longleftrightarrow> True"
| "may_log i (Register_func func name) s \<longleftrightarrow>
     func_names (shared s) func = None \<and> name \<noteq> [] \<and> \<not> isdigit (hd name)"
| "may_log i Read_clock s \<longleftrightarrow> True"

text \<open>What a step runs, on the innermost entry of the thread.\<close>

definition innermost :: "nat list \<Rightarrow> (nat \<Rightarrow> ('z logenv_scheme, unit) prog) \<Rightarrow> ('z logenv_scheme, entry_ptr) prog" where
  "innermost hs m =
    (case hs of
       [] \<Rightarrow> fail (UB ''access through a null log entry'')
     | p # _ \<Rightarrow> andThen (m p) (\<lambda>_. ret None))"

fun run_action :: "nat list \<Rightarrow> log_action \<Rightarrow> ('z logenv_scheme, entry_ptr) prog" where
  "run_action hs Open_disabled = new_entry"
| "run_action hs Open_entry = new_entry"
| "run_action hs (Name_entry func) = innermost hs (\<lambda>p. print_func p func)"
| "run_action hs (Write_entry w) = innermost hs (\<lambda>p. write_through p w)"
| "run_action hs Close_entry = innermost hs (\<lambda>p. destroy_entry (Some p))"
| "run_action hs (Clear_log serialize) = andThen (clear_log serialize) (\<lambda>_. ret None)"
| "run_action hs Get_size = andThen log_size (\<lambda>_. ret None)"
| "run_action hs (Set_filter filters) = andThen (set_filter filters) (\<lambda>_. ret None)"
| "run_action hs (Set_max_size n) = andThen (set_max_size n) (\<lambda>_. ret None)"
| "run_action hs (Register_func func name) = andThen (register_func func name) (\<lambda>_. ret None)"
| "run_action hs Read_clock = andThen clock_now (\<lambda>_. ret None)"

text \<open>
  The mutex and the entries of the thread after a step. The mutex is recursive: it is free
  again when the outermost entry is destroyed. A null entry keeps no lock.
\<close>

fun after_action :: "nat \<Rightarrow> log_action \<Rightarrow> entry_ptr \<Rightarrow> 'z logenv_scheme \<Rightarrow> 'z log_threads \<Rightarrow> 'z log_threads" where
  "after_action i Open_entry (Some p) sh s =
     s\<lparr>shared := sh, log_holder := Some i, handles := (handles s)(i := p # handles s i),
       naming := (naming s)(i := True)\<rparr>"
| "after_action i (Name_entry func) r sh s = s\<lparr>shared := sh, naming := (naming s)(i := False)\<rparr>"
| "after_action i Close_entry r sh s =
     s\<lparr>shared := sh, log_holder := (if tl (handles s i) = [] then None else Some i),
       handles := (handles s)(i := tl (handles s i))\<rparr>"
| "after_action i a r sh s = s\<lparr>shared := sh\<rparr>"

inductive log_tstep :: "nat \<Rightarrow> log_action \<Rightarrow> 'z log_threads \<Rightarrow> 'z log_threads \<Rightarrow> bool" for i a s where
  log_tstepI: "may_log i a s \<Longrightarrow> run_action (handles s i) a (shared s) = Done (r, sh) \<Longrightarrow>
    log_tstep i a s (after_action i a r sh s)"

inductive_cases log_tstepE: "log_tstep i a s t"

inductive log_treach :: "'z logenv_scheme \<Rightarrow> 'z log_threads \<Rightarrow> bool" for sh where
  treach_start: "log_treach sh (idle_threads sh)"
| treach_step: "log_treach sh s \<Longrightarrow> log_tstep i a s t \<Longrightarrow> log_treach sh t"

text \<open>The steps are executable: the state after a sequence of steps, if all of them may be made.\<close>

fun log_execute :: "(nat \<times> log_action) list \<Rightarrow> 'z log_threads \<Rightarrow> 'z log_threads option" where
  "log_execute [] s = Some s"
| "log_execute ((i, a) # steps) s =
    (if may_log i a s
     then (case run_action (handles s i) a (shared s) of
             Done (r, sh) \<Rightarrow> log_execute steps (after_action i a r sh s)
           | Fail e \<Rightarrow> None)
     else None)"

lemma log_execute_reach: "log_execute steps s = Some t \<Longrightarrow> log_treach sh s \<Longrightarrow> log_treach sh t"
proof (induction steps arbitrary: s)
  case (Cons step steps)
  then show ?case
    by (cases step) (auto split: if_splits outcome.splits intro: treach_step log_tstepI)
qed simp

section \<open>Invariant\<close>

text \<open>
  A thread with an open entry has the mutex, its entries are in the log, and only the
  innermost entry of a thread that is about to name it has no name.
\<close>

definition entries_wf :: "jni_log \<Rightarrow> bool" where
  "entries_wf l \<longleftrightarrow> distinct (map fst (log_entries l)) \<and> (\<forall>(p, e) \<in> set (log_entries l). p < log_next l)"

definition unnamed :: "'z logenv_scheme \<Rightarrow> nat set" where
  "unnamed sh = {p. \<exists>e. (p, e) \<in> set (log_entries (lg sh)) \<and> entry_name e = []}"

definition naming_ptrs :: "'z log_threads \<Rightarrow> nat set" where
  "naming_ptrs s = {hd (handles s i) | i. naming s i}"

definition threads_ok :: "'z log_threads \<Rightarrow> bool" where
  "threads_ok s \<longleftrightarrow>
     names_wf (func_names (shared s)) \<and> entries_wf (lg (shared s)) \<and>
     unnamed (shared s) \<subseteq> naming_ptrs s \<and>
     (\<forall>i. handles s i \<noteq> [] \<longleftrightarrow> log_holder s = Some i) \<and>
     (\<forall>i. naming s i \<longrightarrow> handles s i \<noteq> []) \<and>
     (\<forall>i. distinct (handles s i) \<and> set (handles s i) \<subseteq> pointers (shared s))"

lemma log_ok_iff: "log_ok sh \<longleftrightarrow> names_wf (func_names sh) \<and> entries_wf (lg sh) \<and> unnamed sh = {}"
  by (auto simp: log_ok_def log_wf_def entries_wf_def unnamed_def)

lemma threads_okD:
  assumes "threads_ok s"
  shows "names_wf (func_names (shared s))" and "entries_wf (lg (shared s))"
    and "unnamed (shared s) \<subseteq> naming_ptrs s"
    and "handles s i \<noteq> [] \<longleftrightarrow> log_holder s = Some i" and "naming s i \<Longrightarrow> handles s i \<noteq> []"
    and "distinct (handles s i)" and "set (handles s i) \<subseteq> pointers (shared s)"
  using assms by (auto simp: threads_ok_def)

lemma others_idle: "threads_ok s \<Longrightarrow> lock_free i s \<Longrightarrow> j \<noteq> i \<Longrightarrow> handles s j = [] \<and> \<not> naming s j"
  using threads_okD(4,5) [of s j] by (auto simp: lock_free_def)

lemma holder_lock_free: "threads_ok s \<Longrightarrow> handles s i \<noteq> [] \<Longrightarrow> lock_free i s"
  using threads_okD(4) [of s i] by (simp add: lock_free_def)

text \<open>A thread that may use the log and is not about to name an entry sees only named entries.\<close>

lemma lock_free_log_ok:
  assumes "threads_ok s" and "lock_free i s" and "\<not> naming s i"
  shows "log_ok (shared s)"
proof -
  have "\<not> naming s j" for j using others_idle [OF assms(1,2), of j] assms(3) by (cases "j = i") auto
  then have "naming_ptrs s = {}" by (simp add: naming_ptrs_def)
  with threads_okD(1-3) [OF assms(1)] show ?thesis by (auto simp: log_ok_iff)
qed

lemma threads_ok_idle: "log_ok sh \<Longrightarrow> threads_ok (idle_threads sh)"
  by (auto simp: threads_ok_def idle_threads_def log_ok_iff)


section \<open>Every step keeps the invariant\<close>

lemma threads_ok_shared:
  assumes "threads_ok s" and "names_wf (func_names sh)" and "entries_wf (lg sh)"
    and "unnamed sh \<subseteq> unnamed (shared s)" and "pointers (shared s) \<subseteq> pointers sh"
  shows "threads_ok (s\<lparr>shared := sh\<rparr>)"
  using assms by (fastforce simp: threads_ok_def naming_ptrs_def)

lemma threads_ok_log_step:
  assumes "threads_ok s" and "log_step (shared s) sh"
  shows "threads_ok (s\<lparr>shared := sh\<rparr>)"
  using assms(2) by (intro threads_ok_shared [OF assms(1)]) (auto simp: log_step_def log_ok_iff)

lemma handle_points: "threads_ok s \<Longrightarrow> handles s i = p # hs \<Longrightarrow> points (Some p) (shared s)"
  using threads_okD(7) [of s i] by (simp add: points_def)

lemma open_entry_ok:
  assumes s: "threads_ok s" and may: "may_log i Open_entry s"
  shows "wp new_entry (\<lambda>r sh. threads_ok (after_action i Open_entry r sh s)) (shared s)"
proof (cases "has_log_room (shared s)")
  case False
  with s show ?thesis by (simp add: wp_iff new_entry_eq)
next
  case True
  let ?p = "log_next (lg (shared s))" and ?sh = "push_entry blank_entry (shared s)"
  let ?t = "after_action i Open_entry (Some ?p) ?sh s"
  have ok: "log_ok (shared s)" and others: "j \<noteq> i \<Longrightarrow> handles s j = [] \<and> \<not> naming s j" for j
    using lock_free_log_ok [OF s] others_idle [OF s] may by auto
  then have "entries_wf (lg ?sh)" "unnamed ?sh = {?p}"
    by (auto simp: log_ok_iff entries_wf_def unnamed_def push_entry_def blank_entry_def)
  moreover have "pointers ?sh = insert ?p (pointers (shared s))"
    by (simp add: pointers_def push_entry_def)
  moreover have "?p \<notin> set (handles s i)"
    using fresh_pointer [OF ok] threads_okD(7) [OF s] by blast
  moreover have "?p \<in> naming_ptrs ?t" by (force simp: naming_ptrs_def)
  ultimately have "threads_ok ?t"
    using s others by (auto simp: threads_ok_def)
  with True show ?thesis by (simp add: wp_iff new_entry_eq)
qed

lemma name_entry_ok:
  assumes s: "threads_ok s" and may: "may_log i (Name_entry func) s"
  shows "wp (run_action (handles s i) (Name_entry func))
    (\<lambda>r sh. threads_ok (after_action i (Name_entry func) r sh s)) (shared s)"
proof -
  from may threads_okD(5) [OF s, of i] obtain p hs where hs: "handles s i = p # hs"
    by (cases "handles s i") auto
  have others: "j \<noteq> i \<Longrightarrow> \<not> naming s j" for j
    using others_idle [OF s holder_lock_free [OF s], of i j] hs by auto
  then have "unnamed (shared s) \<subseteq> {p}"
    using threads_okD(3) [OF s] hs by (force simp: naming_ptrs_def)
  let ?nm = "func_name (func_names (shared s)) func"
  let ?sh = "write_entry p (\<lambda>e. e\<lparr>entry_name := ?nm\<rparr>) (shared s)"
  have "unnamed ?sh = {}"
    using \<open>unnamed (shared s) \<subseteq> {p}\<close> func_name_ne [OF threads_okD(1) [OF s], of func]
    by (fastforce simp: unnamed_def write_entry_def split: if_splits)
  moreover have "entries_wf (lg ?sh)"
    using threads_okD(2) [OF s] by (auto simp: entries_wf_def write_entry_def map_fst_write simp del: map_map)
  moreover have "pointers ?sh = pointers (shared s)"
    by (auto simp: pointers_def write_entry_def image_image case_prod_unfold)
  ultimately have "threads_ok (s\<lparr>shared := ?sh, naming := (naming s)(i := False)\<rparr>)"
    using s by (auto simp: threads_ok_def write_entry_def)
  with hs handle_points [OF s hs] show ?thesis
    by (simp add: innermost_def print_func_def get_func_name_def wp_iff andThen_def update_entry_points)
qed

lemma write_through_step: "logs_only (points (Some p)) (write_through p w) (\<lambda>_. True)"
proof (cases w)
  case (Argument a)
  then show ?thesis by (simp only: write_through.simps logs_only_print_args)
next
  case (Times start stop)
  then show ?thesis by (simp add: logs_only_update_entry record_times_def)
next
  case (Result a)
  then show ?thesis
    by (auto intro!: logs_only_andThen [OF logs_only_print_arg] logs_only_update_entry intro: points_step)
qed (simp add: logs_only_update_entry)

lemma write_entry_ok:
  assumes s: "threads_ok s" and may: "may_log i (Write_entry w) s"
  shows "wp (run_action (handles s i) (Write_entry w))
    (\<lambda>r sh. threads_ok (after_action i (Write_entry w) r sh s)) (shared s)"
proof -
  from may obtain p hs where hs: "handles s i = p # hs" by (auto simp: neq_Nil_conv)
  have "log_ok (shared s)" by (rule lock_free_log_ok [OF s holder_lock_free [OF s]]) (use may in auto)
  from logs_onlyD [OF write_through_step [of p w] this handle_points [OF s hs]]
  obtain sh where "write_through p w (shared s) = Done ((), sh)" "log_step (shared s) sh"
    by (auto simp: wp_iff)
  with threads_ok_log_step [OF s] show ?thesis by (simp add: hs innermost_def wp_iff andThen_def)
qed

lemma close_entry_ok:
  assumes s: "threads_ok s" and may: "may_log i Close_entry s"
  shows "wp (run_action (handles s i) Close_entry)
    (\<lambda>r sh. threads_ok (after_action i Close_entry r sh s)) (shared s)"
proof -
  from may obtain p hs where hs: "handles s i = p # hs" by (auto simp: neq_Nil_conv)
  have free: "lock_free i s" by (rule holder_lock_free [OF s]) (simp add: hs)
  have ok: "log_ok (shared s)" by (rule lock_free_log_ok [OF s free]) (use may in auto)
  have others: "j \<noteq> i \<Longrightarrow> handles s j = []" for j using others_idle [OF s free] by auto
  have hs': "distinct hs" "p \<notin> set hs" "set hs \<subseteq> pointers (shared s)" and nm: "\<not> naming s i"
    using threads_okD(6,7) [OF s, of i] may by (auto simp: hs)
  have keep: "threads_ok (after_action i Close_entry None sh s)"
    if "log_ok sh" "pointers (shared s) - {p} \<subseteq> pointers sh" for sh
  proof -
    have "set hs \<subseteq> pointers sh" using hs'(2,3) that(2) by blast
    with s that(1) others hs'(1) nm show ?thesis by (auto simp: threads_ok_def log_ok_iff hs)
  qed
  have "pointers (shared s) - {p} \<subseteq> pointers (drop_entry p (shared s))"
    by (force simp: pointers_def drop_entry_def)
  with keep log_ok_drop_entry [OF ok] have "threads_ok (after_action i Close_entry None (drop_entry p (shared s)) s)"
    by blast
  moreover have "threads_ok (after_action i Close_entry None (shared s) s)" by (rule keep [OF ok]) blast
  ultimately show ?thesis
    by (cases "hs = []") (simp_all add: hs innermost_def wp_iff andThen_def destroy_entry_eq [OF ok handle_points [OF s hs]])
qed

lemma clear_log_ok:
  assumes s: "threads_ok s" and may: "may_log i (Clear_log serialize) s"
  shows "wp (run_action (handles s i) (Clear_log serialize))
    (\<lambda>r sh. threads_ok (after_action i (Clear_log serialize) r sh s)) (shared s)"
proof -
  have none: "handles s j = []" for j using others_idle [OF s, of i j] may by (cases "j = i") auto
  then have "\<not> naming s i" using threads_okD(5) [OF s] by blast
  with may have "log_ok (shared s)" using lock_free_log_ok [OF s] by auto
  then have "\<forall>(p, e) \<in> set (log_entries (lg (shared s))). entry_name e \<noteq> []"
    by (auto simp: log_ok_def log_wf_def)
  then obtain r where r: "\<And>t :: 'a logenv_scheme.
      resolve_names (func_names (shared s)) (log_entries (lg (shared s))) t = Done (r, t)"
    using resolve_names_Done by blast
  have "threads_ok (s\<lparr>shared := set_log ((lg (shared s))\<lparr>log_entries := []\<rparr>) (shared s)\<rparr>)"
    using s none by (auto simp: threads_ok_def entries_wf_def unnamed_def)
  with r show ?thesis by (simp add: wp_iff clear_log_def andThen_def)
qed

lemma action_ok:
  assumes s: "threads_ok s" and may: "may_log i a s"
  shows "wp (run_action (handles s i) a) (\<lambda>r sh. threads_ok (after_action i a r sh s)) (shared s)"
proof (cases a)
  case Open_disabled
  with s may show ?thesis by (simp add: wp_iff new_entry_eq has_log_room_def)
next
  case Open_entry
  with open_entry_ok [OF s] may show ?thesis by simp
next
  case (Register_func func name)
  have "names_wf ((func_names (shared s))(func \<mapsto> name))"
    using threads_okD(1) [OF s] may Register_func by (simp add: names_wf_def)
  then have "threads_ok (s\<lparr>shared := (shared s)\<lparr>func_names := (func_names (shared s))(func \<mapsto> name)\<rparr>\<rparr>)"
    using threads_okD(2) [OF s] by (intro threads_ok_shared [OF s]) (auto simp: unnamed_def pointers_def)
  with Register_func may show ?thesis by (simp add: register_func_def wp_iff andThen_def)
next
  case (Set_max_size n)
  have "threads_ok (s\<lparr>shared := set_log ((lg (shared s))\<lparr>log_max_size := n\<rparr>) (shared s)\<rparr>)"
    using threads_okD(1,2) [OF s]
    by (intro threads_ok_shared [OF s]) (auto simp: unnamed_def pointers_def entries_wf_def)
  with Set_max_size show ?thesis by (simp add: set_max_size_def wp_iff andThen_def)
next
  case (Set_filter fs)
  have "threads_ok (s\<lparr>shared := set_log ((lg (shared s))\<lparr>log_filters := fs\<rparr>) (shared s)\<rparr>)"
    using threads_okD(1,2) [OF s]
    by (intro threads_ok_shared [OF s]) (auto simp: unnamed_def pointers_def entries_wf_def)
  with Set_filter show ?thesis by (simp add: set_filter_def wp_iff andThen_def)
next
  case Read_clock
  have "threads_ok (s\<lparr>shared := (shared s)\<lparr>ticks := Suc (ticks (shared s))\<rparr>\<rparr>)"
    using threads_okD(1,2) [OF s]
    by (intro threads_ok_shared [OF s]) (auto simp: unnamed_def pointers_def)
  with Read_clock show ?thesis by (simp add: clock_now_def wp_iff andThen_def)
next
  case Get_size
  with s show ?thesis by (simp add: log_size_def wp_iff andThen_def)
qed (use name_entry_ok [OF s] write_entry_ok [OF s] close_entry_ok [OF s] clear_log_ok [OF s] may in auto)

lemma tstep_ok: "threads_ok s \<Longrightarrow> log_tstep i a s t \<Longrightarrow> threads_ok t"
  using action_ok [of s i a] by (auto simp: wp_iff elim!: log_tstepE)

lemma treach_ok: "log_treach sh s \<Longrightarrow> log_ok sh \<Longrightarrow> threads_ok s"
  by (induction rule: log_treach.induct) (auto intro: threads_ok_idle tstep_ok)

text \<open>While a thread has an open entry no other thread changes the entries of the log.\<close>

lemma foreign_step:
  assumes "threads_ok s" and "handles s j \<noteq> []" and "j \<noteq> i" and "log_tstep i a s t"
  shows "log_entries (lg (shared t)) = log_entries (lg (shared s))"
proof -
  have "log_holder s = Some j" using threads_okD(4) [OF assms(1)] assms(2) by blast
  with assms(3) have "\<not> lock_free i s" "handles s i = []" "\<not> naming s i"
    using threads_okD(4) [OF assms(1), of i] threads_okD(5) [OF assms(1), of i]
    by (auto simp: lock_free_def)
  with assms(4) show ?thesis
    by (cases a) (auto simp: new_entry_def set_max_size_def register_func_def clock_now_def andThen_def elim!: log_tstepE)
qed

section \<open>Properties\<close>

text \<open>
  C21. Whatever the interleaving of threads, and although the size limit and the registry are
  changed without a lock: no step through a log entry ever fails, neither by a pointer to a
  removed entry nor in an assertion of \<open>clear\<close> and \<open>~Entry\<close>; the entries of the log
  change only by the thread that has one open; and \<open>clear\<close> runs only when no entry of any
  thread is open.
\<close>

theorem log_entries_never_dangle:
  assumes "log_ok sh" and "log_treach sh s" and "may_log i a s"
  shows "(\<exists>t. log_tstep i a s t) \<and>
    (\<forall>j. set (handles s j) \<subseteq> pointers (shared s)) \<and>
    (\<forall>t j. log_tstep i a s t \<and> j \<noteq> i \<and> handles s j \<noteq> [] \<longrightarrow>
       log_entries (jni_log_of (shared t)) = log_entries (jni_log_of (shared s))) \<and>
    (\<forall>serialize j. a = Clear_log serialize \<longrightarrow> handles s j = [])"
proof (intro conjI allI impI)
  have ok: "threads_ok s" by (rule treach_ok [OF assms(2,1)])
  show "\<exists>t. log_tstep i a s t"
    using action_ok [OF ok assms(3)] log_tstepI [OF assms(3)] by (auto simp: wp_iff)
  show "set (handles s j) \<subseteq> pointers (shared s)" for j by (rule threads_okD(7) [OF ok])
  show "log_entries (lg (shared t)) = log_entries (lg (shared s))"
    if "log_tstep i a s t \<and> j \<noteq> i \<and> handles s j \<noteq> []" for t j
    using that by (blast intro: foreign_step [OF ok])
  show "handles s j = []" if "a = Clear_log serialize" for serialize j
    using others_idle [OF ok, of i j] assms(3) that by (cases "j = i") auto
qed

text \<open>
  Thread 0 logs a call, in the middle of which thread 1 sets the size limit to 0; then thread 1
  clears the log.
\<close>

lemma log_ok_any_log: "log_ok any_log"
  by (simp add: any_log_def initial_log_def log_ok_def log_wf_def names_wf_def)

definition example_steps :: "(nat \<times> log_action) list" where
  "example_steps =
     [(0, Open_entry), (0, Name_entry 7), (1, Set_max_size 0), (0, Write_entry (Instance_number 3)), (0, Close_entry)]"

theorem log_entries_never_dangle_witness:
  "(case log_execute example_steps (idle_threads any_log) of
      None \<Rightarrow> False
    | Some s \<Rightarrow> may_log 1 (Clear_log (\<lambda>_. [])) s \<and> (\<exists>t. log_tstep 1 (Clear_log (\<lambda>_. [])) s t) \<and>
        pointers (shared s) = {0} \<and> handles s 0 = [])"
proof -
  obtain s where s: "log_execute example_steps (idle_threads any_log) = Some s"
    and may: "may_log 1 (Clear_log (\<lambda>_. [])) s" and ptrs: "pointers (shared s) = {0}"
    by (simp add: example_steps_def idle_threads_def any_log_def initial_log_def new_entry_def andThen_def
        innermost_def print_func_def get_func_name_def update_entry_def set_max_size_def destroy_entry_def
        lock_free_def set_log_def pointers_def)
  have "log_treach any_log s" by (rule log_execute_reach [OF s treach_start])
  from log_entries_never_dangle [OF log_ok_any_log this may] s may ptrs show ?thesis by simp
qed

end
