(* ===== verification/Core_Errors.thy ===== *)
theory Core_Errors
  imports Error_Codes
begin

text \<open>
  \<open>ToxCore/generated/errors.cpp\<close>: for each error enumeration of the subsystem, what
  \<open>HANDLE\<close> defines (the meaning of every code and the name of the exception), and that it
  meets the contract \<open>error_codes\<close>. \<open>error_value\<close> is the integer value of the C enumerator;
  it is read only for \<open>OK\<close> (0) and for values outside the enumeration.
\<close>

datatype TOX_ERR_BOOTSTRAP =
    TOX_ERR_BOOTSTRAP_OK
  | TOX_ERR_BOOTSTRAP_BAD_HOST
  | TOX_ERR_BOOTSTRAP_BAD_PORT
  | TOX_ERR_BOOTSTRAP_NULL
  | TOX_ERR_BOOTSTRAP_OTHER jint

fun handle_TOX_ERR_BOOTSTRAP :: "TOX_ERR_BOOTSTRAP \<Rightarrow> ErrorHandling" where
  "handle_TOX_ERR_BOOTSTRAP TOX_ERR_BOOTSTRAP_OK = success"
| "handle_TOX_ERR_BOOTSTRAP TOX_ERR_BOOTSTRAP_BAD_HOST = failure ''BAD_HOST''"
| "handle_TOX_ERR_BOOTSTRAP TOX_ERR_BOOTSTRAP_BAD_PORT = failure ''BAD_PORT''"
| "handle_TOX_ERR_BOOTSTRAP TOX_ERR_BOOTSTRAP_NULL = failure ''NULL''"
| "handle_TOX_ERR_BOOTSTRAP (TOX_ERR_BOOTSTRAP_OTHER _) = unhandled"

fun value_TOX_ERR_BOOTSTRAP :: "TOX_ERR_BOOTSTRAP \<Rightarrow> jint" where
  "value_TOX_ERR_BOOTSTRAP (TOX_ERR_BOOTSTRAP_OTHER n) = n"
| "value_TOX_ERR_BOOTSTRAP _ = 0"

definition tox_err_bootstrap_enum :: "TOX_ERR_BOOTSTRAP error_enum" where
  "tox_err_bootstrap_enum =
     \<lparr>handle_error_enum = handle_TOX_ERR_BOOTSTRAP, method_name = ''Bootstrap'', error_value = value_TOX_ERR_BOOTSTRAP\<rparr>"

interpretation tox_err_bootstrap: error_codes tox_err_bootstrap_enum TOX_ERR_BOOTSTRAP_OK TOX_ERR_BOOTSTRAP_OTHER
proof
  note defs = tox_err_bootstrap_enum_def handling_defs
  fix e e' :: TOX_ERR_BOOTSTRAP
  show "code_result tox_err_bootstrap_enum e = SUCCESS \<longleftrightarrow> e = TOX_ERR_BOOTSTRAP_OK" by (cases e) (simp_all add: defs)
  show "code_result tox_err_bootstrap_enum e = UNHANDLED \<longleftrightarrow> (\<exists>n. e = TOX_ERR_BOOTSTRAP_OTHER n)"
    by (cases e) (simp_all add: defs)
  show "code_error tox_err_bootstrap_enum e \<noteq> None \<longleftrightarrow> code_result tox_err_bootstrap_enum e = FAILURE"
    by (cases e) (simp_all add: defs)
  show "code_error tox_err_bootstrap_enum e = code_error tox_err_bootstrap_enum e' \<Longrightarrow> e = e'" if "code_result tox_err_bootstrap_enum e = FAILURE"
    using that by (cases e; cases e'; simp add: defs)
qed (simp add: tox_err_bootstrap_enum_def)

datatype TOX_ERR_FILE_CONTROL =
    TOX_ERR_FILE_CONTROL_OK
  | TOX_ERR_FILE_CONTROL_ALREADY_PAUSED
  | TOX_ERR_FILE_CONTROL_DENIED
  | TOX_ERR_FILE_CONTROL_FRIEND_NOT_CONNECTED
  | TOX_ERR_FILE_CONTROL_FRIEND_NOT_FOUND
  | TOX_ERR_FILE_CONTROL_NOT_FOUND
  | TOX_ERR_FILE_CONTROL_NOT_PAUSED
  | TOX_ERR_FILE_CONTROL_SENDQ
  | TOX_ERR_FILE_CONTROL_OTHER jint

fun handle_TOX_ERR_FILE_CONTROL :: "TOX_ERR_FILE_CONTROL \<Rightarrow> ErrorHandling" where
  "handle_TOX_ERR_FILE_CONTROL TOX_ERR_FILE_CONTROL_OK = success"
| "handle_TOX_ERR_FILE_CONTROL TOX_ERR_FILE_CONTROL_ALREADY_PAUSED = failure ''ALREADY_PAUSED''"
| "handle_TOX_ERR_FILE_CONTROL TOX_ERR_FILE_CONTROL_DENIED = failure ''DENIED''"
| "handle_TOX_ERR_FILE_CONTROL TOX_ERR_FILE_CONTROL_FRIEND_NOT_CONNECTED = failure ''FRIEND_NOT_CONNECTED''"
| "handle_TOX_ERR_FILE_CONTROL TOX_ERR_FILE_CONTROL_FRIEND_NOT_FOUND = failure ''FRIEND_NOT_FOUND''"
| "handle_TOX_ERR_FILE_CONTROL TOX_ERR_FILE_CONTROL_NOT_FOUND = failure ''NOT_FOUND''"
| "handle_TOX_ERR_FILE_CONTROL TOX_ERR_FILE_CONTROL_NOT_PAUSED = failure ''NOT_PAUSED''"
| "handle_TOX_ERR_FILE_CONTROL TOX_ERR_FILE_CONTROL_SENDQ = failure ''SENDQ''"
| "handle_TOX_ERR_FILE_CONTROL (TOX_ERR_FILE_CONTROL_OTHER _) = unhandled"

fun value_TOX_ERR_FILE_CONTROL :: "TOX_ERR_FILE_CONTROL \<Rightarrow> jint" where
  "value_TOX_ERR_FILE_CONTROL (TOX_ERR_FILE_CONTROL_OTHER n) = n"
| "value_TOX_ERR_FILE_CONTROL _ = 0"

definition tox_err_file_control_enum :: "TOX_ERR_FILE_CONTROL error_enum" where
  "tox_err_file_control_enum =
     \<lparr>handle_error_enum = handle_TOX_ERR_FILE_CONTROL, method_name = ''FileControl'', error_value = value_TOX_ERR_FILE_CONTROL\<rparr>"

interpretation tox_err_file_control: error_codes tox_err_file_control_enum TOX_ERR_FILE_CONTROL_OK TOX_ERR_FILE_CONTROL_OTHER
proof
  note defs = tox_err_file_control_enum_def handling_defs
  fix e e' :: TOX_ERR_FILE_CONTROL
  show "code_result tox_err_file_control_enum e = SUCCESS \<longleftrightarrow> e = TOX_ERR_FILE_CONTROL_OK" by (cases e) (simp_all add: defs)
  show "code_result tox_err_file_control_enum e = UNHANDLED \<longleftrightarrow> (\<exists>n. e = TOX_ERR_FILE_CONTROL_OTHER n)"
    by (cases e) (simp_all add: defs)
  show "code_error tox_err_file_control_enum e \<noteq> None \<longleftrightarrow> code_result tox_err_file_control_enum e = FAILURE"
    by (cases e) (simp_all add: defs)
  show "code_error tox_err_file_control_enum e = code_error tox_err_file_control_enum e' \<Longrightarrow> e = e'" if "code_result tox_err_file_control_enum e = FAILURE"
    using that by (cases e; cases e'; simp add: defs)
qed (simp add: tox_err_file_control_enum_def)

datatype TOX_ERR_FILE_GET =
    TOX_ERR_FILE_GET_OK
  | TOX_ERR_FILE_GET_FRIEND_NOT_FOUND
  | TOX_ERR_FILE_GET_NOT_FOUND
  | TOX_ERR_FILE_GET_NULL
  | TOX_ERR_FILE_GET_OTHER jint

fun handle_TOX_ERR_FILE_GET :: "TOX_ERR_FILE_GET \<Rightarrow> ErrorHandling" where
  "handle_TOX_ERR_FILE_GET TOX_ERR_FILE_GET_OK = success"
| "handle_TOX_ERR_FILE_GET TOX_ERR_FILE_GET_FRIEND_NOT_FOUND = failure ''FRIEND_NOT_FOUND''"
| "handle_TOX_ERR_FILE_GET TOX_ERR_FILE_GET_NOT_FOUND = failure ''NOT_FOUND''"
| "handle_TOX_ERR_FILE_GET TOX_ERR_FILE_GET_NULL = failure ''NULL''"
| "handle_TOX_ERR_FILE_GET (TOX_ERR_FILE_GET_OTHER _) = unhandled"

fun value_TOX_ERR_FILE_GET :: "TOX_ERR_FILE_GET \<Rightarrow> jint" where
  "value_TOX_ERR_FILE_GET (TOX_ERR_FILE_GET_OTHER n) = n"
| "value_TOX_ERR_FILE_GET _ = 0"

definition tox_err_file_get_enum :: "TOX_ERR_FILE_GET error_enum" where
  "tox_err_file_get_enum =
     \<lparr>handle_error_enum = handle_TOX_ERR_FILE_GET, method_name = ''FileGet'', error_value = value_TOX_ERR_FILE_GET\<rparr>"

interpretation tox_err_file_get: error_codes tox_err_file_get_enum TOX_ERR_FILE_GET_OK TOX_ERR_FILE_GET_OTHER
proof
  note defs = tox_err_file_get_enum_def handling_defs
  fix e e' :: TOX_ERR_FILE_GET
  show "code_result tox_err_file_get_enum e = SUCCESS \<longleftrightarrow> e = TOX_ERR_FILE_GET_OK" by (cases e) (simp_all add: defs)
  show "code_result tox_err_file_get_enum e = UNHANDLED \<longleftrightarrow> (\<exists>n. e = TOX_ERR_FILE_GET_OTHER n)"
    by (cases e) (simp_all add: defs)
  show "code_error tox_err_file_get_enum e \<noteq> None \<longleftrightarrow> code_result tox_err_file_get_enum e = FAILURE"
    by (cases e) (simp_all add: defs)
  show "code_error tox_err_file_get_enum e = code_error tox_err_file_get_enum e' \<Longrightarrow> e = e'" if "code_result tox_err_file_get_enum e = FAILURE"
    using that by (cases e; cases e'; simp add: defs)
qed (simp add: tox_err_file_get_enum_def)

datatype TOX_ERR_FILE_SEEK =
    TOX_ERR_FILE_SEEK_OK
  | TOX_ERR_FILE_SEEK_DENIED
  | TOX_ERR_FILE_SEEK_FRIEND_NOT_CONNECTED
  | TOX_ERR_FILE_SEEK_FRIEND_NOT_FOUND
  | TOX_ERR_FILE_SEEK_INVALID_POSITION
  | TOX_ERR_FILE_SEEK_NOT_FOUND
  | TOX_ERR_FILE_SEEK_SENDQ
  | TOX_ERR_FILE_SEEK_OTHER jint

fun handle_TOX_ERR_FILE_SEEK :: "TOX_ERR_FILE_SEEK \<Rightarrow> ErrorHandling" where
  "handle_TOX_ERR_FILE_SEEK TOX_ERR_FILE_SEEK_OK = success"
| "handle_TOX_ERR_FILE_SEEK TOX_ERR_FILE_SEEK_DENIED = failure ''DENIED''"
| "handle_TOX_ERR_FILE_SEEK TOX_ERR_FILE_SEEK_FRIEND_NOT_CONNECTED = failure ''FRIEND_NOT_CONNECTED''"
| "handle_TOX_ERR_FILE_SEEK TOX_ERR_FILE_SEEK_FRIEND_NOT_FOUND = failure ''FRIEND_NOT_FOUND''"
| "handle_TOX_ERR_FILE_SEEK TOX_ERR_FILE_SEEK_INVALID_POSITION = failure ''INVALID_POSITION''"
| "handle_TOX_ERR_FILE_SEEK TOX_ERR_FILE_SEEK_NOT_FOUND = failure ''NOT_FOUND''"
| "handle_TOX_ERR_FILE_SEEK TOX_ERR_FILE_SEEK_SENDQ = failure ''SENDQ''"
| "handle_TOX_ERR_FILE_SEEK (TOX_ERR_FILE_SEEK_OTHER _) = unhandled"

fun value_TOX_ERR_FILE_SEEK :: "TOX_ERR_FILE_SEEK \<Rightarrow> jint" where
  "value_TOX_ERR_FILE_SEEK (TOX_ERR_FILE_SEEK_OTHER n) = n"
| "value_TOX_ERR_FILE_SEEK _ = 0"

definition tox_err_file_seek_enum :: "TOX_ERR_FILE_SEEK error_enum" where
  "tox_err_file_seek_enum =
     \<lparr>handle_error_enum = handle_TOX_ERR_FILE_SEEK, method_name = ''FileSeek'', error_value = value_TOX_ERR_FILE_SEEK\<rparr>"

interpretation tox_err_file_seek: error_codes tox_err_file_seek_enum TOX_ERR_FILE_SEEK_OK TOX_ERR_FILE_SEEK_OTHER
proof
  note defs = tox_err_file_seek_enum_def handling_defs
  fix e e' :: TOX_ERR_FILE_SEEK
  show "code_result tox_err_file_seek_enum e = SUCCESS \<longleftrightarrow> e = TOX_ERR_FILE_SEEK_OK" by (cases e) (simp_all add: defs)
  show "code_result tox_err_file_seek_enum e = UNHANDLED \<longleftrightarrow> (\<exists>n. e = TOX_ERR_FILE_SEEK_OTHER n)"
    by (cases e) (simp_all add: defs)
  show "code_error tox_err_file_seek_enum e \<noteq> None \<longleftrightarrow> code_result tox_err_file_seek_enum e = FAILURE"
    by (cases e) (simp_all add: defs)
  show "code_error tox_err_file_seek_enum e = code_error tox_err_file_seek_enum e' \<Longrightarrow> e = e'" if "code_result tox_err_file_seek_enum e = FAILURE"
    using that by (cases e; cases e'; simp add: defs)
qed (simp add: tox_err_file_seek_enum_def)

datatype TOX_ERR_FILE_SEND_CHUNK =
    TOX_ERR_FILE_SEND_CHUNK_OK
  | TOX_ERR_FILE_SEND_CHUNK_FRIEND_NOT_CONNECTED
  | TOX_ERR_FILE_SEND_CHUNK_FRIEND_NOT_FOUND
  | TOX_ERR_FILE_SEND_CHUNK_INVALID_LENGTH
  | TOX_ERR_FILE_SEND_CHUNK_NOT_FOUND
  | TOX_ERR_FILE_SEND_CHUNK_NOT_TRANSFERRING
  | TOX_ERR_FILE_SEND_CHUNK_NULL
  | TOX_ERR_FILE_SEND_CHUNK_SENDQ
  | TOX_ERR_FILE_SEND_CHUNK_WRONG_POSITION
  | TOX_ERR_FILE_SEND_CHUNK_OTHER jint

fun handle_TOX_ERR_FILE_SEND_CHUNK :: "TOX_ERR_FILE_SEND_CHUNK \<Rightarrow> ErrorHandling" where
  "handle_TOX_ERR_FILE_SEND_CHUNK TOX_ERR_FILE_SEND_CHUNK_OK = success"
| "handle_TOX_ERR_FILE_SEND_CHUNK TOX_ERR_FILE_SEND_CHUNK_FRIEND_NOT_CONNECTED = failure ''FRIEND_NOT_CONNECTED''"
| "handle_TOX_ERR_FILE_SEND_CHUNK TOX_ERR_FILE_SEND_CHUNK_FRIEND_NOT_FOUND = failure ''FRIEND_NOT_FOUND''"
| "handle_TOX_ERR_FILE_SEND_CHUNK TOX_ERR_FILE_SEND_CHUNK_INVALID_LENGTH = failure ''INVALID_LENGTH''"
| "handle_TOX_ERR_FILE_SEND_CHUNK TOX_ERR_FILE_SEND_CHUNK_NOT_FOUND = failure ''NOT_FOUND''"
| "handle_TOX_ERR_FILE_SEND_CHUNK TOX_ERR_FILE_SEND_CHUNK_NOT_TRANSFERRING = failure ''NOT_TRANSFERRING''"
| "handle_TOX_ERR_FILE_SEND_CHUNK TOX_ERR_FILE_SEND_CHUNK_NULL = failure ''NULL''"
| "handle_TOX_ERR_FILE_SEND_CHUNK TOX_ERR_FILE_SEND_CHUNK_SENDQ = failure ''SENDQ''"
| "handle_TOX_ERR_FILE_SEND_CHUNK TOX_ERR_FILE_SEND_CHUNK_WRONG_POSITION = failure ''WRONG_POSITION''"
| "handle_TOX_ERR_FILE_SEND_CHUNK (TOX_ERR_FILE_SEND_CHUNK_OTHER _) = unhandled"

fun value_TOX_ERR_FILE_SEND_CHUNK :: "TOX_ERR_FILE_SEND_CHUNK \<Rightarrow> jint" where
  "value_TOX_ERR_FILE_SEND_CHUNK (TOX_ERR_FILE_SEND_CHUNK_OTHER n) = n"
| "value_TOX_ERR_FILE_SEND_CHUNK _ = 0"

definition tox_err_file_send_chunk_enum :: "TOX_ERR_FILE_SEND_CHUNK error_enum" where
  "tox_err_file_send_chunk_enum =
     \<lparr>handle_error_enum = handle_TOX_ERR_FILE_SEND_CHUNK, method_name = ''FileSendChunk'', error_value = value_TOX_ERR_FILE_SEND_CHUNK\<rparr>"

interpretation tox_err_file_send_chunk: error_codes tox_err_file_send_chunk_enum TOX_ERR_FILE_SEND_CHUNK_OK TOX_ERR_FILE_SEND_CHUNK_OTHER
proof
  note defs = tox_err_file_send_chunk_enum_def handling_defs
  fix e e' :: TOX_ERR_FILE_SEND_CHUNK
  show "code_result tox_err_file_send_chunk_enum e = SUCCESS \<longleftrightarrow> e = TOX_ERR_FILE_SEND_CHUNK_OK" by (cases e) (simp_all add: defs)
  show "code_result tox_err_file_send_chunk_enum e = UNHANDLED \<longleftrightarrow> (\<exists>n. e = TOX_ERR_FILE_SEND_CHUNK_OTHER n)"
    by (cases e) (simp_all add: defs)
  show "code_error tox_err_file_send_chunk_enum e \<noteq> None \<longleftrightarrow> code_result tox_err_file_send_chunk_enum e = FAILURE"
    by (cases e) (simp_all add: defs)
  show "code_error tox_err_file_send_chunk_enum e = code_error tox_err_file_send_chunk_enum e' \<Longrightarrow> e = e'" if "code_result tox_err_file_send_chunk_enum e = FAILURE"
    using that by (cases e; cases e'; simp add: defs)
qed (simp add: tox_err_file_send_chunk_enum_def)

datatype TOX_ERR_FILE_SEND =
    TOX_ERR_FILE_SEND_OK
  | TOX_ERR_FILE_SEND_FRIEND_NOT_CONNECTED
  | TOX_ERR_FILE_SEND_FRIEND_NOT_FOUND
  | TOX_ERR_FILE_SEND_NAME_TOO_LONG
  | TOX_ERR_FILE_SEND_NULL
  | TOX_ERR_FILE_SEND_TOO_MANY
  | TOX_ERR_FILE_SEND_OTHER jint

fun handle_TOX_ERR_FILE_SEND :: "TOX_ERR_FILE_SEND \<Rightarrow> ErrorHandling" where
  "handle_TOX_ERR_FILE_SEND TOX_ERR_FILE_SEND_OK = success"
| "handle_TOX_ERR_FILE_SEND TOX_ERR_FILE_SEND_FRIEND_NOT_CONNECTED = failure ''FRIEND_NOT_CONNECTED''"
| "handle_TOX_ERR_FILE_SEND TOX_ERR_FILE_SEND_FRIEND_NOT_FOUND = failure ''FRIEND_NOT_FOUND''"
| "handle_TOX_ERR_FILE_SEND TOX_ERR_FILE_SEND_NAME_TOO_LONG = failure ''NAME_TOO_LONG''"
| "handle_TOX_ERR_FILE_SEND TOX_ERR_FILE_SEND_NULL = failure ''NULL''"
| "handle_TOX_ERR_FILE_SEND TOX_ERR_FILE_SEND_TOO_MANY = failure ''TOO_MANY''"
| "handle_TOX_ERR_FILE_SEND (TOX_ERR_FILE_SEND_OTHER _) = unhandled"

fun value_TOX_ERR_FILE_SEND :: "TOX_ERR_FILE_SEND \<Rightarrow> jint" where
  "value_TOX_ERR_FILE_SEND (TOX_ERR_FILE_SEND_OTHER n) = n"
| "value_TOX_ERR_FILE_SEND _ = 0"

definition tox_err_file_send_enum :: "TOX_ERR_FILE_SEND error_enum" where
  "tox_err_file_send_enum =
     \<lparr>handle_error_enum = handle_TOX_ERR_FILE_SEND, method_name = ''FileSend'', error_value = value_TOX_ERR_FILE_SEND\<rparr>"

interpretation tox_err_file_send: error_codes tox_err_file_send_enum TOX_ERR_FILE_SEND_OK TOX_ERR_FILE_SEND_OTHER
proof
  note defs = tox_err_file_send_enum_def handling_defs
  fix e e' :: TOX_ERR_FILE_SEND
  show "code_result tox_err_file_send_enum e = SUCCESS \<longleftrightarrow> e = TOX_ERR_FILE_SEND_OK" by (cases e) (simp_all add: defs)
  show "code_result tox_err_file_send_enum e = UNHANDLED \<longleftrightarrow> (\<exists>n. e = TOX_ERR_FILE_SEND_OTHER n)"
    by (cases e) (simp_all add: defs)
  show "code_error tox_err_file_send_enum e \<noteq> None \<longleftrightarrow> code_result tox_err_file_send_enum e = FAILURE"
    by (cases e) (simp_all add: defs)
  show "code_error tox_err_file_send_enum e = code_error tox_err_file_send_enum e' \<Longrightarrow> e = e'" if "code_result tox_err_file_send_enum e = FAILURE"
    using that by (cases e; cases e'; simp add: defs)
qed (simp add: tox_err_file_send_enum_def)

datatype TOX_ERR_FRIEND_ADD =
    TOX_ERR_FRIEND_ADD_OK
  | TOX_ERR_FRIEND_ADD_ALREADY_SENT
  | TOX_ERR_FRIEND_ADD_BAD_CHECKSUM
  | TOX_ERR_FRIEND_ADD_MALLOC
  | TOX_ERR_FRIEND_ADD_NO_MESSAGE
  | TOX_ERR_FRIEND_ADD_NULL
  | TOX_ERR_FRIEND_ADD_OWN_KEY
  | TOX_ERR_FRIEND_ADD_SET_NEW_NOSPAM
  | TOX_ERR_FRIEND_ADD_TOO_LONG
  | TOX_ERR_FRIEND_ADD_OTHER jint

fun handle_TOX_ERR_FRIEND_ADD :: "TOX_ERR_FRIEND_ADD \<Rightarrow> ErrorHandling" where
  "handle_TOX_ERR_FRIEND_ADD TOX_ERR_FRIEND_ADD_OK = success"
| "handle_TOX_ERR_FRIEND_ADD TOX_ERR_FRIEND_ADD_ALREADY_SENT = failure ''ALREADY_SENT''"
| "handle_TOX_ERR_FRIEND_ADD TOX_ERR_FRIEND_ADD_BAD_CHECKSUM = failure ''BAD_CHECKSUM''"
| "handle_TOX_ERR_FRIEND_ADD TOX_ERR_FRIEND_ADD_MALLOC = failure ''MALLOC''"
| "handle_TOX_ERR_FRIEND_ADD TOX_ERR_FRIEND_ADD_NO_MESSAGE = failure ''NO_MESSAGE''"
| "handle_TOX_ERR_FRIEND_ADD TOX_ERR_FRIEND_ADD_NULL = failure ''NULL''"
| "handle_TOX_ERR_FRIEND_ADD TOX_ERR_FRIEND_ADD_OWN_KEY = failure ''OWN_KEY''"
| "handle_TOX_ERR_FRIEND_ADD TOX_ERR_FRIEND_ADD_SET_NEW_NOSPAM = failure ''SET_NEW_NOSPAM''"
| "handle_TOX_ERR_FRIEND_ADD TOX_ERR_FRIEND_ADD_TOO_LONG = failure ''TOO_LONG''"
| "handle_TOX_ERR_FRIEND_ADD (TOX_ERR_FRIEND_ADD_OTHER _) = unhandled"

fun value_TOX_ERR_FRIEND_ADD :: "TOX_ERR_FRIEND_ADD \<Rightarrow> jint" where
  "value_TOX_ERR_FRIEND_ADD (TOX_ERR_FRIEND_ADD_OTHER n) = n"
| "value_TOX_ERR_FRIEND_ADD _ = 0"

definition tox_err_friend_add_enum :: "TOX_ERR_FRIEND_ADD error_enum" where
  "tox_err_friend_add_enum =
     \<lparr>handle_error_enum = handle_TOX_ERR_FRIEND_ADD, method_name = ''FriendAdd'', error_value = value_TOX_ERR_FRIEND_ADD\<rparr>"

interpretation tox_err_friend_add: error_codes tox_err_friend_add_enum TOX_ERR_FRIEND_ADD_OK TOX_ERR_FRIEND_ADD_OTHER
proof
  note defs = tox_err_friend_add_enum_def handling_defs
  fix e e' :: TOX_ERR_FRIEND_ADD
  show "code_result tox_err_friend_add_enum e = SUCCESS \<longleftrightarrow> e = TOX_ERR_FRIEND_ADD_OK" by (cases e) (simp_all add: defs)
  show "code_result tox_err_friend_add_enum e = UNHANDLED \<longleftrightarrow> (\<exists>n. e = TOX_ERR_FRIEND_ADD_OTHER n)"
    by (cases e) (simp_all add: defs)
  show "code_error tox_err_friend_add_enum e \<noteq> None \<longleftrightarrow> code_result tox_err_friend_add_enum e = FAILURE"
    by (cases e) (simp_all add: defs)
  show "code_error tox_err_friend_add_enum e = code_error tox_err_friend_add_enum e' \<Longrightarrow> e = e'" if "code_result tox_err_friend_add_enum e = FAILURE"
    using that by (cases e; cases e'; simp add: defs)
qed (simp add: tox_err_friend_add_enum_def)

datatype TOX_ERR_FRIEND_BY_PUBLIC_KEY =
    TOX_ERR_FRIEND_BY_PUBLIC_KEY_OK
  | TOX_ERR_FRIEND_BY_PUBLIC_KEY_NOT_FOUND
  | TOX_ERR_FRIEND_BY_PUBLIC_KEY_NULL
  | TOX_ERR_FRIEND_BY_PUBLIC_KEY_OTHER jint

fun handle_TOX_ERR_FRIEND_BY_PUBLIC_KEY :: "TOX_ERR_FRIEND_BY_PUBLIC_KEY \<Rightarrow> ErrorHandling" where
  "handle_TOX_ERR_FRIEND_BY_PUBLIC_KEY TOX_ERR_FRIEND_BY_PUBLIC_KEY_OK = success"
| "handle_TOX_ERR_FRIEND_BY_PUBLIC_KEY TOX_ERR_FRIEND_BY_PUBLIC_KEY_NOT_FOUND = failure ''NOT_FOUND''"
| "handle_TOX_ERR_FRIEND_BY_PUBLIC_KEY TOX_ERR_FRIEND_BY_PUBLIC_KEY_NULL = failure ''NULL''"
| "handle_TOX_ERR_FRIEND_BY_PUBLIC_KEY (TOX_ERR_FRIEND_BY_PUBLIC_KEY_OTHER _) = unhandled"

fun value_TOX_ERR_FRIEND_BY_PUBLIC_KEY :: "TOX_ERR_FRIEND_BY_PUBLIC_KEY \<Rightarrow> jint" where
  "value_TOX_ERR_FRIEND_BY_PUBLIC_KEY (TOX_ERR_FRIEND_BY_PUBLIC_KEY_OTHER n) = n"
| "value_TOX_ERR_FRIEND_BY_PUBLIC_KEY _ = 0"

definition tox_err_friend_by_public_key_enum :: "TOX_ERR_FRIEND_BY_PUBLIC_KEY error_enum" where
  "tox_err_friend_by_public_key_enum =
     \<lparr>handle_error_enum = handle_TOX_ERR_FRIEND_BY_PUBLIC_KEY, method_name = ''FriendByPublicKey'', error_value = value_TOX_ERR_FRIEND_BY_PUBLIC_KEY\<rparr>"

interpretation tox_err_friend_by_public_key: error_codes tox_err_friend_by_public_key_enum TOX_ERR_FRIEND_BY_PUBLIC_KEY_OK TOX_ERR_FRIEND_BY_PUBLIC_KEY_OTHER
proof
  note defs = tox_err_friend_by_public_key_enum_def handling_defs
  fix e e' :: TOX_ERR_FRIEND_BY_PUBLIC_KEY
  show "code_result tox_err_friend_by_public_key_enum e = SUCCESS \<longleftrightarrow> e = TOX_ERR_FRIEND_BY_PUBLIC_KEY_OK" by (cases e) (simp_all add: defs)
  show "code_result tox_err_friend_by_public_key_enum e = UNHANDLED \<longleftrightarrow> (\<exists>n. e = TOX_ERR_FRIEND_BY_PUBLIC_KEY_OTHER n)"
    by (cases e) (simp_all add: defs)
  show "code_error tox_err_friend_by_public_key_enum e \<noteq> None \<longleftrightarrow> code_result tox_err_friend_by_public_key_enum e = FAILURE"
    by (cases e) (simp_all add: defs)
  show "code_error tox_err_friend_by_public_key_enum e = code_error tox_err_friend_by_public_key_enum e' \<Longrightarrow> e = e'" if "code_result tox_err_friend_by_public_key_enum e = FAILURE"
    using that by (cases e; cases e'; simp add: defs)
qed (simp add: tox_err_friend_by_public_key_enum_def)

datatype TOX_ERR_FRIEND_CUSTOM_PACKET =
    TOX_ERR_FRIEND_CUSTOM_PACKET_OK
  | TOX_ERR_FRIEND_CUSTOM_PACKET_EMPTY
  | TOX_ERR_FRIEND_CUSTOM_PACKET_FRIEND_NOT_CONNECTED
  | TOX_ERR_FRIEND_CUSTOM_PACKET_FRIEND_NOT_FOUND
  | TOX_ERR_FRIEND_CUSTOM_PACKET_INVALID
  | TOX_ERR_FRIEND_CUSTOM_PACKET_NULL
  | TOX_ERR_FRIEND_CUSTOM_PACKET_SENDQ
  | TOX_ERR_FRIEND_CUSTOM_PACKET_TOO_LONG
  | TOX_ERR_FRIEND_CUSTOM_PACKET_OTHER jint

fun handle_TOX_ERR_FRIEND_CUSTOM_PACKET :: "TOX_ERR_FRIEND_CUSTOM_PACKET \<Rightarrow> ErrorHandling" where
  "handle_TOX_ERR_FRIEND_CUSTOM_PACKET TOX_ERR_FRIEND_CUSTOM_PACKET_OK = success"
| "handle_TOX_ERR_FRIEND_CUSTOM_PACKET TOX_ERR_FRIEND_CUSTOM_PACKET_EMPTY = failure ''EMPTY''"
| "handle_TOX_ERR_FRIEND_CUSTOM_PACKET TOX_ERR_FRIEND_CUSTOM_PACKET_FRIEND_NOT_CONNECTED = failure ''FRIEND_NOT_CONNECTED''"
| "handle_TOX_ERR_FRIEND_CUSTOM_PACKET TOX_ERR_FRIEND_CUSTOM_PACKET_FRIEND_NOT_FOUND = failure ''FRIEND_NOT_FOUND''"
| "handle_TOX_ERR_FRIEND_CUSTOM_PACKET TOX_ERR_FRIEND_CUSTOM_PACKET_INVALID = failure ''INVALID''"
| "handle_TOX_ERR_FRIEND_CUSTOM_PACKET TOX_ERR_FRIEND_CUSTOM_PACKET_NULL = failure ''NULL''"
| "handle_TOX_ERR_FRIEND_CUSTOM_PACKET TOX_ERR_FRIEND_CUSTOM_PACKET_SENDQ = failure ''SENDQ''"
| "handle_TOX_ERR_FRIEND_CUSTOM_PACKET TOX_ERR_FRIEND_CUSTOM_PACKET_TOO_LONG = failure ''TOO_LONG''"
| "handle_TOX_ERR_FRIEND_CUSTOM_PACKET (TOX_ERR_FRIEND_CUSTOM_PACKET_OTHER _) = unhandled"

fun value_TOX_ERR_FRIEND_CUSTOM_PACKET :: "TOX_ERR_FRIEND_CUSTOM_PACKET \<Rightarrow> jint" where
  "value_TOX_ERR_FRIEND_CUSTOM_PACKET (TOX_ERR_FRIEND_CUSTOM_PACKET_OTHER n) = n"
| "value_TOX_ERR_FRIEND_CUSTOM_PACKET _ = 0"

definition tox_err_friend_custom_packet_enum :: "TOX_ERR_FRIEND_CUSTOM_PACKET error_enum" where
  "tox_err_friend_custom_packet_enum =
     \<lparr>handle_error_enum = handle_TOX_ERR_FRIEND_CUSTOM_PACKET, method_name = ''FriendCustomPacket'', error_value = value_TOX_ERR_FRIEND_CUSTOM_PACKET\<rparr>"

interpretation tox_err_friend_custom_packet: error_codes tox_err_friend_custom_packet_enum TOX_ERR_FRIEND_CUSTOM_PACKET_OK TOX_ERR_FRIEND_CUSTOM_PACKET_OTHER
proof
  note defs = tox_err_friend_custom_packet_enum_def handling_defs
  fix e e' :: TOX_ERR_FRIEND_CUSTOM_PACKET
  show "code_result tox_err_friend_custom_packet_enum e = SUCCESS \<longleftrightarrow> e = TOX_ERR_FRIEND_CUSTOM_PACKET_OK" by (cases e) (simp_all add: defs)
  show "code_result tox_err_friend_custom_packet_enum e = UNHANDLED \<longleftrightarrow> (\<exists>n. e = TOX_ERR_FRIEND_CUSTOM_PACKET_OTHER n)"
    by (cases e) (simp_all add: defs)
  show "code_error tox_err_friend_custom_packet_enum e \<noteq> None \<longleftrightarrow> code_result tox_err_friend_custom_packet_enum e = FAILURE"
    by (cases e) (simp_all add: defs)
  show "code_error tox_err_friend_custom_packet_enum e = code_error tox_err_friend_custom_packet_enum e' \<Longrightarrow> e = e'" if "code_result tox_err_friend_custom_packet_enum e = FAILURE"
    using that by (cases e; cases e'; simp add: defs)
qed (simp add: tox_err_friend_custom_packet_enum_def)

datatype TOX_ERR_FRIEND_DELETE =
    TOX_ERR_FRIEND_DELETE_OK
  | TOX_ERR_FRIEND_DELETE_FRIEND_NOT_FOUND
  | TOX_ERR_FRIEND_DELETE_OTHER jint

fun handle_TOX_ERR_FRIEND_DELETE :: "TOX_ERR_FRIEND_DELETE \<Rightarrow> ErrorHandling" where
  "handle_TOX_ERR_FRIEND_DELETE TOX_ERR_FRIEND_DELETE_OK = success"
| "handle_TOX_ERR_FRIEND_DELETE TOX_ERR_FRIEND_DELETE_FRIEND_NOT_FOUND = failure ''FRIEND_NOT_FOUND''"
| "handle_TOX_ERR_FRIEND_DELETE (TOX_ERR_FRIEND_DELETE_OTHER _) = unhandled"

fun value_TOX_ERR_FRIEND_DELETE :: "TOX_ERR_FRIEND_DELETE \<Rightarrow> jint" where
  "value_TOX_ERR_FRIEND_DELETE (TOX_ERR_FRIEND_DELETE_OTHER n) = n"
| "value_TOX_ERR_FRIEND_DELETE _ = 0"

definition tox_err_friend_delete_enum :: "TOX_ERR_FRIEND_DELETE error_enum" where
  "tox_err_friend_delete_enum =
     \<lparr>handle_error_enum = handle_TOX_ERR_FRIEND_DELETE, method_name = ''FriendDelete'', error_value = value_TOX_ERR_FRIEND_DELETE\<rparr>"

interpretation tox_err_friend_delete: error_codes tox_err_friend_delete_enum TOX_ERR_FRIEND_DELETE_OK TOX_ERR_FRIEND_DELETE_OTHER
proof
  note defs = tox_err_friend_delete_enum_def handling_defs
  fix e e' :: TOX_ERR_FRIEND_DELETE
  show "code_result tox_err_friend_delete_enum e = SUCCESS \<longleftrightarrow> e = TOX_ERR_FRIEND_DELETE_OK" by (cases e) (simp_all add: defs)
  show "code_result tox_err_friend_delete_enum e = UNHANDLED \<longleftrightarrow> (\<exists>n. e = TOX_ERR_FRIEND_DELETE_OTHER n)"
    by (cases e) (simp_all add: defs)
  show "code_error tox_err_friend_delete_enum e \<noteq> None \<longleftrightarrow> code_result tox_err_friend_delete_enum e = FAILURE"
    by (cases e) (simp_all add: defs)
  show "code_error tox_err_friend_delete_enum e = code_error tox_err_friend_delete_enum e' \<Longrightarrow> e = e'" if "code_result tox_err_friend_delete_enum e = FAILURE"
    using that by (cases e; cases e'; simp add: defs)
qed (simp add: tox_err_friend_delete_enum_def)

datatype TOX_ERR_FRIEND_GET_PUBLIC_KEY =
    TOX_ERR_FRIEND_GET_PUBLIC_KEY_OK
  | TOX_ERR_FRIEND_GET_PUBLIC_KEY_FRIEND_NOT_FOUND
  | TOX_ERR_FRIEND_GET_PUBLIC_KEY_OTHER jint

fun handle_TOX_ERR_FRIEND_GET_PUBLIC_KEY :: "TOX_ERR_FRIEND_GET_PUBLIC_KEY \<Rightarrow> ErrorHandling" where
  "handle_TOX_ERR_FRIEND_GET_PUBLIC_KEY TOX_ERR_FRIEND_GET_PUBLIC_KEY_OK = success"
| "handle_TOX_ERR_FRIEND_GET_PUBLIC_KEY TOX_ERR_FRIEND_GET_PUBLIC_KEY_FRIEND_NOT_FOUND = failure ''FRIEND_NOT_FOUND''"
| "handle_TOX_ERR_FRIEND_GET_PUBLIC_KEY (TOX_ERR_FRIEND_GET_PUBLIC_KEY_OTHER _) = unhandled"

fun value_TOX_ERR_FRIEND_GET_PUBLIC_KEY :: "TOX_ERR_FRIEND_GET_PUBLIC_KEY \<Rightarrow> jint" where
  "value_TOX_ERR_FRIEND_GET_PUBLIC_KEY (TOX_ERR_FRIEND_GET_PUBLIC_KEY_OTHER n) = n"
| "value_TOX_ERR_FRIEND_GET_PUBLIC_KEY _ = 0"

definition tox_err_friend_get_public_key_enum :: "TOX_ERR_FRIEND_GET_PUBLIC_KEY error_enum" where
  "tox_err_friend_get_public_key_enum =
     \<lparr>handle_error_enum = handle_TOX_ERR_FRIEND_GET_PUBLIC_KEY, method_name = ''FriendGetPublicKey'', error_value = value_TOX_ERR_FRIEND_GET_PUBLIC_KEY\<rparr>"

interpretation tox_err_friend_get_public_key: error_codes tox_err_friend_get_public_key_enum TOX_ERR_FRIEND_GET_PUBLIC_KEY_OK TOX_ERR_FRIEND_GET_PUBLIC_KEY_OTHER
proof
  note defs = tox_err_friend_get_public_key_enum_def handling_defs
  fix e e' :: TOX_ERR_FRIEND_GET_PUBLIC_KEY
  show "code_result tox_err_friend_get_public_key_enum e = SUCCESS \<longleftrightarrow> e = TOX_ERR_FRIEND_GET_PUBLIC_KEY_OK" by (cases e) (simp_all add: defs)
  show "code_result tox_err_friend_get_public_key_enum e = UNHANDLED \<longleftrightarrow> (\<exists>n. e = TOX_ERR_FRIEND_GET_PUBLIC_KEY_OTHER n)"
    by (cases e) (simp_all add: defs)
  show "code_error tox_err_friend_get_public_key_enum e \<noteq> None \<longleftrightarrow> code_result tox_err_friend_get_public_key_enum e = FAILURE"
    by (cases e) (simp_all add: defs)
  show "code_error tox_err_friend_get_public_key_enum e = code_error tox_err_friend_get_public_key_enum e' \<Longrightarrow> e = e'" if "code_result tox_err_friend_get_public_key_enum e = FAILURE"
    using that by (cases e; cases e'; simp add: defs)
qed (simp add: tox_err_friend_get_public_key_enum_def)

datatype TOX_ERR_FRIEND_SEND_MESSAGE =
    TOX_ERR_FRIEND_SEND_MESSAGE_OK
  | TOX_ERR_FRIEND_SEND_MESSAGE_EMPTY
  | TOX_ERR_FRIEND_SEND_MESSAGE_FRIEND_NOT_CONNECTED
  | TOX_ERR_FRIEND_SEND_MESSAGE_FRIEND_NOT_FOUND
  | TOX_ERR_FRIEND_SEND_MESSAGE_NULL
  | TOX_ERR_FRIEND_SEND_MESSAGE_SENDQ
  | TOX_ERR_FRIEND_SEND_MESSAGE_TOO_LONG
  | TOX_ERR_FRIEND_SEND_MESSAGE_OTHER jint

fun handle_TOX_ERR_FRIEND_SEND_MESSAGE :: "TOX_ERR_FRIEND_SEND_MESSAGE \<Rightarrow> ErrorHandling" where
  "handle_TOX_ERR_FRIEND_SEND_MESSAGE TOX_ERR_FRIEND_SEND_MESSAGE_OK = success"
| "handle_TOX_ERR_FRIEND_SEND_MESSAGE TOX_ERR_FRIEND_SEND_MESSAGE_EMPTY = failure ''EMPTY''"
| "handle_TOX_ERR_FRIEND_SEND_MESSAGE TOX_ERR_FRIEND_SEND_MESSAGE_FRIEND_NOT_CONNECTED = failure ''FRIEND_NOT_CONNECTED''"
| "handle_TOX_ERR_FRIEND_SEND_MESSAGE TOX_ERR_FRIEND_SEND_MESSAGE_FRIEND_NOT_FOUND = failure ''FRIEND_NOT_FOUND''"
| "handle_TOX_ERR_FRIEND_SEND_MESSAGE TOX_ERR_FRIEND_SEND_MESSAGE_NULL = failure ''NULL''"
| "handle_TOX_ERR_FRIEND_SEND_MESSAGE TOX_ERR_FRIEND_SEND_MESSAGE_SENDQ = failure ''SENDQ''"
| "handle_TOX_ERR_FRIEND_SEND_MESSAGE TOX_ERR_FRIEND_SEND_MESSAGE_TOO_LONG = failure ''TOO_LONG''"
| "handle_TOX_ERR_FRIEND_SEND_MESSAGE (TOX_ERR_FRIEND_SEND_MESSAGE_OTHER _) = unhandled"

fun value_TOX_ERR_FRIEND_SEND_MESSAGE :: "TOX_ERR_FRIEND_SEND_MESSAGE \<Rightarrow> jint" where
  "value_TOX_ERR_FRIEND_SEND_MESSAGE (TOX_ERR_FRIEND_SEND_MESSAGE_OTHER n) = n"
| "value_TOX_ERR_FRIEND_SEND_MESSAGE _ = 0"

definition tox_err_friend_send_message_enum :: "TOX_ERR_FRIEND_SEND_MESSAGE error_enum" where
  "tox_err_friend_send_message_enum =
     \<lparr>handle_error_enum = handle_TOX_ERR_FRIEND_SEND_MESSAGE, method_name = ''FriendSendMessage'', error_value = value_TOX_ERR_FRIEND_SEND_MESSAGE\<rparr>"

interpretation tox_err_friend_send_message: error_codes tox_err_friend_send_message_enum TOX_ERR_FRIEND_SEND_MESSAGE_OK TOX_ERR_FRIEND_SEND_MESSAGE_OTHER
proof
  note defs = tox_err_friend_send_message_enum_def handling_defs
  fix e e' :: TOX_ERR_FRIEND_SEND_MESSAGE
  show "code_result tox_err_friend_send_message_enum e = SUCCESS \<longleftrightarrow> e = TOX_ERR_FRIEND_SEND_MESSAGE_OK" by (cases e) (simp_all add: defs)
  show "code_result tox_err_friend_send_message_enum e = UNHANDLED \<longleftrightarrow> (\<exists>n. e = TOX_ERR_FRIEND_SEND_MESSAGE_OTHER n)"
    by (cases e) (simp_all add: defs)
  show "code_error tox_err_friend_send_message_enum e \<noteq> None \<longleftrightarrow> code_result tox_err_friend_send_message_enum e = FAILURE"
    by (cases e) (simp_all add: defs)
  show "code_error tox_err_friend_send_message_enum e = code_error tox_err_friend_send_message_enum e' \<Longrightarrow> e = e'" if "code_result tox_err_friend_send_message_enum e = FAILURE"
    using that by (cases e; cases e'; simp add: defs)
qed (simp add: tox_err_friend_send_message_enum_def)

datatype TOX_ERR_GET_PORT =
    TOX_ERR_GET_PORT_OK
  | TOX_ERR_GET_PORT_NOT_BOUND
  | TOX_ERR_GET_PORT_OTHER jint

fun handle_TOX_ERR_GET_PORT :: "TOX_ERR_GET_PORT \<Rightarrow> ErrorHandling" where
  "handle_TOX_ERR_GET_PORT TOX_ERR_GET_PORT_OK = success"
| "handle_TOX_ERR_GET_PORT TOX_ERR_GET_PORT_NOT_BOUND = failure ''NOT_BOUND''"
| "handle_TOX_ERR_GET_PORT (TOX_ERR_GET_PORT_OTHER _) = unhandled"

fun value_TOX_ERR_GET_PORT :: "TOX_ERR_GET_PORT \<Rightarrow> jint" where
  "value_TOX_ERR_GET_PORT (TOX_ERR_GET_PORT_OTHER n) = n"
| "value_TOX_ERR_GET_PORT _ = 0"

definition tox_err_get_port_enum :: "TOX_ERR_GET_PORT error_enum" where
  "tox_err_get_port_enum =
     \<lparr>handle_error_enum = handle_TOX_ERR_GET_PORT, method_name = ''GetPort'', error_value = value_TOX_ERR_GET_PORT\<rparr>"

interpretation tox_err_get_port: error_codes tox_err_get_port_enum TOX_ERR_GET_PORT_OK TOX_ERR_GET_PORT_OTHER
proof
  note defs = tox_err_get_port_enum_def handling_defs
  fix e e' :: TOX_ERR_GET_PORT
  show "code_result tox_err_get_port_enum e = SUCCESS \<longleftrightarrow> e = TOX_ERR_GET_PORT_OK" by (cases e) (simp_all add: defs)
  show "code_result tox_err_get_port_enum e = UNHANDLED \<longleftrightarrow> (\<exists>n. e = TOX_ERR_GET_PORT_OTHER n)"
    by (cases e) (simp_all add: defs)
  show "code_error tox_err_get_port_enum e \<noteq> None \<longleftrightarrow> code_result tox_err_get_port_enum e = FAILURE"
    by (cases e) (simp_all add: defs)
  show "code_error tox_err_get_port_enum e = code_error tox_err_get_port_enum e' \<Longrightarrow> e = e'" if "code_result tox_err_get_port_enum e = FAILURE"
    using that by (cases e; cases e'; simp add: defs)
qed (simp add: tox_err_get_port_enum_def)

datatype TOX_ERR_NEW =
    TOX_ERR_NEW_OK
  | TOX_ERR_NEW_LOAD_BAD_FORMAT
  | TOX_ERR_NEW_LOAD_ENCRYPTED
  | TOX_ERR_NEW_MALLOC
  | TOX_ERR_NEW_NULL
  | TOX_ERR_NEW_PORT_ALLOC
  | TOX_ERR_NEW_PROXY_BAD_HOST
  | TOX_ERR_NEW_PROXY_BAD_PORT
  | TOX_ERR_NEW_PROXY_BAD_TYPE
  | TOX_ERR_NEW_PROXY_NOT_FOUND
  | TOX_ERR_NEW_OTHER jint

fun handle_TOX_ERR_NEW :: "TOX_ERR_NEW \<Rightarrow> ErrorHandling" where
  "handle_TOX_ERR_NEW TOX_ERR_NEW_OK = success"
| "handle_TOX_ERR_NEW TOX_ERR_NEW_LOAD_BAD_FORMAT = failure ''LOAD_BAD_FORMAT''"
| "handle_TOX_ERR_NEW TOX_ERR_NEW_LOAD_ENCRYPTED = failure ''LOAD_ENCRYPTED''"
| "handle_TOX_ERR_NEW TOX_ERR_NEW_MALLOC = failure ''MALLOC''"
| "handle_TOX_ERR_NEW TOX_ERR_NEW_NULL = failure ''NULL''"
| "handle_TOX_ERR_NEW TOX_ERR_NEW_PORT_ALLOC = failure ''PORT_ALLOC''"
| "handle_TOX_ERR_NEW TOX_ERR_NEW_PROXY_BAD_HOST = failure ''PROXY_BAD_HOST''"
| "handle_TOX_ERR_NEW TOX_ERR_NEW_PROXY_BAD_PORT = failure ''PROXY_BAD_PORT''"
| "handle_TOX_ERR_NEW TOX_ERR_NEW_PROXY_BAD_TYPE = failure ''PROXY_BAD_TYPE''"
| "handle_TOX_ERR_NEW TOX_ERR_NEW_PROXY_NOT_FOUND = failure ''PROXY_NOT_FOUND''"
| "handle_TOX_ERR_NEW (TOX_ERR_NEW_OTHER _) = unhandled"

fun value_TOX_ERR_NEW :: "TOX_ERR_NEW \<Rightarrow> jint" where
  "value_TOX_ERR_NEW (TOX_ERR_NEW_OTHER n) = n"
| "value_TOX_ERR_NEW _ = 0"

definition tox_err_new_enum :: "TOX_ERR_NEW error_enum" where
  "tox_err_new_enum =
     \<lparr>handle_error_enum = handle_TOX_ERR_NEW, method_name = ''New'', error_value = value_TOX_ERR_NEW\<rparr>"

interpretation tox_err_new: error_codes tox_err_new_enum TOX_ERR_NEW_OK TOX_ERR_NEW_OTHER
proof
  note defs = tox_err_new_enum_def handling_defs
  fix e e' :: TOX_ERR_NEW
  show "code_result tox_err_new_enum e = SUCCESS \<longleftrightarrow> e = TOX_ERR_NEW_OK" by (cases e) (simp_all add: defs)
  show "code_result tox_err_new_enum e = UNHANDLED \<longleftrightarrow> (\<exists>n. e = TOX_ERR_NEW_OTHER n)"
    by (cases e) (simp_all add: defs)
  show "code_error tox_err_new_enum e \<noteq> None \<longleftrightarrow> code_result tox_err_new_enum e = FAILURE"
    by (cases e) (simp_all add: defs)
  show "code_error tox_err_new_enum e = code_error tox_err_new_enum e' \<Longrightarrow> e = e'" if "code_result tox_err_new_enum e = FAILURE"
    using that by (cases e; cases e'; simp add: defs)
qed (simp add: tox_err_new_enum_def)

datatype TOX_ERR_SET_INFO =
    TOX_ERR_SET_INFO_OK
  | TOX_ERR_SET_INFO_NULL
  | TOX_ERR_SET_INFO_TOO_LONG
  | TOX_ERR_SET_INFO_OTHER jint

fun handle_TOX_ERR_SET_INFO :: "TOX_ERR_SET_INFO \<Rightarrow> ErrorHandling" where
  "handle_TOX_ERR_SET_INFO TOX_ERR_SET_INFO_OK = success"
| "handle_TOX_ERR_SET_INFO TOX_ERR_SET_INFO_NULL = failure ''NULL''"
| "handle_TOX_ERR_SET_INFO TOX_ERR_SET_INFO_TOO_LONG = failure ''TOO_LONG''"
| "handle_TOX_ERR_SET_INFO (TOX_ERR_SET_INFO_OTHER _) = unhandled"

fun value_TOX_ERR_SET_INFO :: "TOX_ERR_SET_INFO \<Rightarrow> jint" where
  "value_TOX_ERR_SET_INFO (TOX_ERR_SET_INFO_OTHER n) = n"
| "value_TOX_ERR_SET_INFO _ = 0"

definition tox_err_set_info_enum :: "TOX_ERR_SET_INFO error_enum" where
  "tox_err_set_info_enum =
     \<lparr>handle_error_enum = handle_TOX_ERR_SET_INFO, method_name = ''SetInfo'', error_value = value_TOX_ERR_SET_INFO\<rparr>"

interpretation tox_err_set_info: error_codes tox_err_set_info_enum TOX_ERR_SET_INFO_OK TOX_ERR_SET_INFO_OTHER
proof
  note defs = tox_err_set_info_enum_def handling_defs
  fix e e' :: TOX_ERR_SET_INFO
  show "code_result tox_err_set_info_enum e = SUCCESS \<longleftrightarrow> e = TOX_ERR_SET_INFO_OK" by (cases e) (simp_all add: defs)
  show "code_result tox_err_set_info_enum e = UNHANDLED \<longleftrightarrow> (\<exists>n. e = TOX_ERR_SET_INFO_OTHER n)"
    by (cases e) (simp_all add: defs)
  show "code_error tox_err_set_info_enum e \<noteq> None \<longleftrightarrow> code_result tox_err_set_info_enum e = FAILURE"
    by (cases e) (simp_all add: defs)
  show "code_error tox_err_set_info_enum e = code_error tox_err_set_info_enum e' \<Longrightarrow> e = e'" if "code_result tox_err_set_info_enum e = FAILURE"
    using that by (cases e; cases e'; simp add: defs)
qed (simp add: tox_err_set_info_enum_def)

datatype TOX_ERR_SET_TYPING =
    TOX_ERR_SET_TYPING_OK
  | TOX_ERR_SET_TYPING_FRIEND_NOT_FOUND
  | TOX_ERR_SET_TYPING_OTHER jint

fun handle_TOX_ERR_SET_TYPING :: "TOX_ERR_SET_TYPING \<Rightarrow> ErrorHandling" where
  "handle_TOX_ERR_SET_TYPING TOX_ERR_SET_TYPING_OK = success"
| "handle_TOX_ERR_SET_TYPING TOX_ERR_SET_TYPING_FRIEND_NOT_FOUND = failure ''FRIEND_NOT_FOUND''"
| "handle_TOX_ERR_SET_TYPING (TOX_ERR_SET_TYPING_OTHER _) = unhandled"

fun value_TOX_ERR_SET_TYPING :: "TOX_ERR_SET_TYPING \<Rightarrow> jint" where
  "value_TOX_ERR_SET_TYPING (TOX_ERR_SET_TYPING_OTHER n) = n"
| "value_TOX_ERR_SET_TYPING _ = 0"

definition tox_err_set_typing_enum :: "TOX_ERR_SET_TYPING error_enum" where
  "tox_err_set_typing_enum =
     \<lparr>handle_error_enum = handle_TOX_ERR_SET_TYPING, method_name = ''SetTyping'', error_value = value_TOX_ERR_SET_TYPING\<rparr>"

interpretation tox_err_set_typing: error_codes tox_err_set_typing_enum TOX_ERR_SET_TYPING_OK TOX_ERR_SET_TYPING_OTHER
proof
  note defs = tox_err_set_typing_enum_def handling_defs
  fix e e' :: TOX_ERR_SET_TYPING
  show "code_result tox_err_set_typing_enum e = SUCCESS \<longleftrightarrow> e = TOX_ERR_SET_TYPING_OK" by (cases e) (simp_all add: defs)
  show "code_result tox_err_set_typing_enum e = UNHANDLED \<longleftrightarrow> (\<exists>n. e = TOX_ERR_SET_TYPING_OTHER n)"
    by (cases e) (simp_all add: defs)
  show "code_error tox_err_set_typing_enum e \<noteq> None \<longleftrightarrow> code_result tox_err_set_typing_enum e = FAILURE"
    by (cases e) (simp_all add: defs)
  show "code_error tox_err_set_typing_enum e = code_error tox_err_set_typing_enum e' \<Longrightarrow> e = e'" if "code_result tox_err_set_typing_enum e = FAILURE"
    using that by (cases e; cases e'; simp add: defs)
qed (simp add: tox_err_set_typing_enum_def)

end
