(* ===== verification/Native_Calls.thy ===== *)
theory Native_Calls
  imports World Core_Errors
begin

text \<open>
  What the native methods share: toxcore functions applied to the state behind an object
  pointer, buffers of fixed size, and the \<open>get_vector\<close> and \<open>constant_size\<close> templates of
  \<open>ToxCore/ToxCore.h\<close> with their registration in the function table on first use.
\<close>

section \<open>Functions of toxcore\<close>

text \<open>The address of a C function, and what it does.\<close>

type_synonym 'f cfun = "uintptr \<times> 'f"

abbreviation addr_of :: "'f cfun \<Rightarrow> uintptr" where
  "addr_of \<equiv> fst"

abbreviation run_c :: "'f cfun \<Rightarrow> 'f" where
  "run_c \<equiv> snd"

definition on_state ::
  "('st \<Rightarrow> ('s, 'r \<times> 'e \<times> 'st) prog) \<Rightarrow> ('cb, 'st) native_object \<Rightarrow>
   ('s, 'r \<times> 'e \<times> ('cb, 'st) native_object) prog" where
  "on_state f x =
     andThen (f (obj_state x)) (\<lambda>(r, e, st). ret (r, e, x\<lparr>obj_state := st\<rparr>))"

definition on_state_noerr ::
  "('st \<Rightarrow> ('s, 'r \<times> 'st) prog) \<Rightarrow> ('cb, 'st) native_object \<Rightarrow>
   ('s, 'r \<times> ('cb, 'st) native_object) prog" where
  "on_state_noerr f x = andThen (f (obj_state x)) (\<lambda>(r, st). ret (r, x\<lparr>obj_state := st\<rparr>))"

text \<open>
  Some C functions get a pointer without the length of the array behind it. The library passes
  the pointer on as it is; how far the function reads is part of what the function is, and so
  of the parameter that stands for it: its result is \<open>None\<close> when it accesses memory outside of
  the array.
\<close>

definition call_c :: "'a option \<Rightarrow> ('s, 'a) prog" where
  "call_c r = (case r of None \<Rightarrow> fail (UB ''access outside of an array'') | Some a \<Rightarrow> ret a)"

definition in_bounds :: "'a option \<Rightarrow> bool" where
  "in_bounds r \<longleftrightarrow> r \<noteq> None"

text \<open>A pointer that is null or reaches at least \<open>n\<close> elements far.\<close>

definition at_least :: "nat \<Rightarrow> 'a list option \<Rightarrow> bool" where
  "at_least n p \<longleftrightarrow> (case p of None \<Rightarrow> True | Some xs \<Rightarrow> n \<le> length xs)"

lemma call_c_in_bounds: "in_bounds r \<Longrightarrow> call_c r = ret (the r)"
  by (auto simp: in_bounds_def call_c_def)

lemma call_c_Some [simp]: "call_c (Some a) = ret a"
  by (simp add: call_c_def)

lemma call_c_None [simp]: "call_c None = fail (UB ''access outside of an array'')"
  by (simp add: call_c_def)

text \<open>
  \<open>data\<close> copied to the beginning of \<open>buf\<close>. For a buffer that a C function fills, \<open>data\<close> is what
  that function writes and so a part of its result, as long as it says; writing past the end
  of the buffer is undefined.
\<close>

definition fill_buffer :: "'a list \<Rightarrow> 'a list \<Rightarrow> ('s, 'a list) prog" where
  "fill_buffer buf data =
     (if length data \<le> length buf then ret (data @ drop (length data) buf)
      else fail (UB ''write past the end of an array''))"

definition TOX_SECRET_KEY_SIZE :: nat where "TOX_SECRET_KEY_SIZE = 32"
definition TOX_ADDRESS_SIZE :: nat where "TOX_ADDRESS_SIZE = 38"
definition TOX_FILE_ID_LENGTH :: nat where "TOX_FILE_ID_LENGTH = 32"

section \<open>Vectors\<close>

text \<open>
  \<open>register_funcs_0\<close>: the initialiser of a function-local static runs on the first call
  only.
\<close>

definition register_funcs_0 ::
  "uintptr \<Rightarrow> ('z logenv_scheme, string) prog \<Rightarrow> ('z logenv_scheme, bool) prog" where
  "register_funcs_0 mk name =
     andThen (reads static_funcs) (\<lambda>done_before.
     if mk \<in> set done_before then ret True
     else
       andThen name (\<lambda>nm.
       andThen (register_funcs [(mk, nm)]) (\<lambda>_.
       andThen (modifies (\<lambda>s. s\<lparr>static_funcs := mk # static_funcs s\<rparr>)) (\<lambda>_.
       ret True))))"

definition constant_size_name :: "nat \<Rightarrow> string" where
  "constant_size_name n = ''constant_size<'' @ to_string_nat n @ ''>''"

definition constant_size :: "uintptr \<Rightarrow> nat \<Rightarrow> 'st \<Rightarrow> ('z logenv_scheme, nat) prog" where
  "constant_size mk n tox =
     andThen (register_funcs_0 mk (ret (constant_size_name n))) (\<lambda>ok.
     andThen (cassert ''register_funcs_0 ()'' ok) (\<lambda>_.
     ret n))"

text \<open>
  An instantiation of \<open>get_vector\<close>: the address of its \<open>make\<close>, the size function (of
  toxcore, or an instance of \<open>constant_size\<close>), and the address and output of the data
  function.
\<close>

datatype 'st size_function =
    Tox_size uintptr "'st \<Rightarrow> nat"
  | Constant_size uintptr nat

fun size_addr :: "'st size_function \<Rightarrow> uintptr" where
  "size_addr (Tox_size a _) = a"
| "size_addr (Constant_size a _) = a"

fun get_size :: "'st size_function \<Rightarrow> 'st \<Rightarrow> ('z logenv_scheme, nat) prog" where
  "get_size (Tox_size _ f) tox = ret (f tox)"
| "get_size (Constant_size a n) tox = constant_size a n tox"

record ('st, 'a) vector_getter =
  vg_make :: uintptr
  vg_size :: "'st size_function"
  vg_data_addr :: uintptr
  vg_data :: "'st \<Rightarrow> 'a list"

definition get_vector_name :: "(uintptr \<Rightarrow> string option) \<Rightarrow> ('st, 'a) vector_getter \<Rightarrow> string" where
  "get_vector_name names g =
     ''get_vector<'' @ func_name names (size_addr (vg_size g)) @ '', '' @
       func_name names (vg_data_addr g) @ ''>''"

definition get_vector_make ::
  "('st, 'a::zero) vector_getter \<Rightarrow> 'st \<Rightarrow> ('z logenv_scheme, 'a list \<times> 'st) prog" where
  "get_vector_make g tox =
     andThen (get_size (vg_size g) tox) (\<lambda>n.
     andThen (fill_buffer (replicate n 0) (vg_data g tox)) (\<lambda>vec.
     andThen (register_funcs_0 (vg_make g) (reads (\<lambda>s. get_vector_name (func_names s) g))) (\<lambda>ok.
     andThen (cassert ''register_funcs_0 ()'' ok) (\<lambda>_.
     ret (vec, tox)))))"

section \<open>The function registry\<close>

text \<open>
  \<open>makes\<close> are the addresses of the template functions that register themselves: one of
  them is in the table exactly when its static has been initialised.
\<close>

definition registry_ok :: "uintptr set \<Rightarrow> 'z logenv_scheme \<Rightarrow> bool" where
  "registry_ok makes s \<longleftrightarrow>
     (\<forall>a \<in> makes. func_names s a \<noteq> None \<longleftrightarrow> a \<in> set (static_funcs s))"

text \<open>
  The effect of a first use of a \<open>make\<close> function, and the names it makes known.
\<close>

definition known :: "uintptr \<Rightarrow> string \<Rightarrow> 'z logenv_scheme \<Rightarrow> 'z logenv_scheme" where
  "known mk nm s =
     (if mk \<in> set (static_funcs s) then s
      else set_names ((func_names s)(mk \<mapsto> nm)) (mk # static_funcs s) s)"

lemma register_funcs_0_eq:
  assumes "registry_ok makes s" and "mk \<in> makes" and "name s = Done (nm, s)"
  shows "register_funcs_0 mk name s = Done (True, known mk nm s)"
  using assms
  by (auto simp: register_funcs_0_def known_def registry_ok_def andThen_def register_func_def
      set_names_def)

lemma registry_ok_known: "registry_ok makes s \<Longrightarrow> mk \<in> makes \<Longrightarrow> registry_ok makes (known mk nm s)"
  by (auto simp: registry_ok_def known_def)

lemma names_wf_known:
  assumes "names_wf (func_names s)" and "nm \<noteq> []" and "\<not> isdigit (hd nm)"
  shows "names_wf (func_names (known mk nm s))"
  using assms by (auto simp: names_wf_def known_def)

lemma set_names_set_names [simp]: "set_names a b (set_names c d s) = set_names a b s"
  by (simp add: set_names_def)

lemma known_cong:
  assumes "func_names t = func_names s" and "static_funcs t = static_funcs s"
  shows "known mk nm t = set_names (func_names (known mk nm s)) (static_funcs (known mk nm s)) t"
  using assms set_names_id [of t] by (simp add: known_def)

lemma known_fields [simp]:
  "jni_log_of (known mk nm s) = jni_log_of s" "pending (known mk nm s) = pending s"
  "jvm_of (known mk nm s) = jvm_of s" "logenv.more (known mk nm s) = logenv.more s"
  by (simp_all add: known_def)

subsection \<open>Vectors\<close>

text \<open>
  The template functions are among \<open>makes\<close>, and the data function fills exactly the size
  announced for the object.
\<close>

fun size_of_object :: "'st size_function \<Rightarrow> 'st \<Rightarrow> nat" where
  "size_of_object (Tox_size _ f) tox = f tox"
| "size_of_object (Constant_size _ n) tox = n"

definition getter_ok :: "uintptr set \<Rightarrow> ('st, 'a) vector_getter \<Rightarrow> bool" where
  "getter_ok makes g \<longleftrightarrow>
     vg_make g \<in> makes \<and>
     (case vg_size g of Tox_size _ _ \<Rightarrow> True | Constant_size a _ \<Rightarrow> a \<in> makes)"

definition fills :: "('st, 'a) vector_getter \<Rightarrow> 'st \<Rightarrow> bool" where
  "fills g tox \<longleftrightarrow> length (vg_data g tox) = size_of_object (vg_size g) tox"

text \<open>What is registered after a use.\<close>

fun known_size :: "'st size_function \<Rightarrow> 'z logenv_scheme \<Rightarrow> 'z logenv_scheme" where
  "known_size (Tox_size _ _) s = s"
| "known_size (Constant_size a n) s = known a (constant_size_name n) s"

definition known_getter :: "('st, 'a) vector_getter \<Rightarrow> 'z logenv_scheme \<Rightarrow> 'z logenv_scheme" where
  "known_getter g s =
     (let t = known_size (vg_size g) s in known (vg_make g) (get_vector_name (func_names t) g) t)"

lemma get_size_eq:
  assumes "registry_ok makes s" and "case f of Tox_size _ _ \<Rightarrow> True | Constant_size a _ \<Rightarrow> a \<in> makes"
  shows "get_size f tox s = Done (size_of_object f tox, known_size f s)"
  using assms
  by (cases f) (simp_all add: constant_size_def andThen_def register_funcs_0_eq)

lemma registry_ok_known_size:
  assumes "registry_ok makes s" and "case f of Tox_size _ _ \<Rightarrow> True | Constant_size a _ \<Rightarrow> a \<in> makes"
  shows "registry_ok makes (known_size f s)"
  using assms by (cases f) (simp_all add: registry_ok_known)

lemma get_vector_make_eq:
  assumes "registry_ok makes s" and "getter_ok makes g" and "fills g tox"
  shows "get_vector_make g tox s = Done ((vg_data g tox, tox), known_getter g s)"
  using assms registry_ok_known_size [OF assms(1), of "vg_size g"]
  by (simp add: get_vector_make_def getter_ok_def fills_def andThen_def get_size_eq fill_buffer_def
      register_funcs_0_eq known_getter_def Let_def)

lemma known_getter_cong:
  assumes "func_names t = func_names s" and "static_funcs t = static_funcs s"
  shows "known_getter g t =
    set_names (func_names (known_getter g s)) (static_funcs (known_getter g s)) t"
proof -
  let ?f = "vg_size g"
  have size: "known_size ?f t = set_names (func_names (known_size ?f s)) (static_funcs (known_size ?f s)) t"
  proof (cases ?f)
    case Tox_size
    with assms set_names_id [of t] show ?thesis by simp
  next
    case Constant_size
    with known_cong [OF assms] show ?thesis by simp
  qed
  then have "func_names (known_size ?f t) = func_names (known_size ?f s)"
    "static_funcs (known_size ?f t) = static_funcs (known_size ?f s)"
    by simp_all
  from known_cong [OF this] show ?thesis by (simp add: known_getter_def Let_def) (simp add: size)
qed

lemma registry_ok_known_getter:
  "registry_ok makes s \<Longrightarrow> getter_ok makes g \<Longrightarrow> registry_ok makes (known_getter g s)"
  by (simp add: known_getter_def Let_def getter_ok_def registry_ok_known registry_ok_known_size)

lemma template_names: "constant_size_name n \<noteq> []" "\<not> isdigit (hd (constant_size_name n))"
  "get_vector_name names g \<noteq> []" "\<not> isdigit (hd (get_vector_name names g))"
  by (simp_all add: constant_size_name_def get_vector_name_def isdigit_def)

lemma names_wf_known_getter:
  "names_wf (func_names s) \<Longrightarrow> names_wf (func_names (known_getter g s))"
  by (cases "vg_size g") (simp_all add: known_getter_def Let_def names_wf_known template_names)

end
