(* ===== verification/Core_Api.thy ===== *)
theory Core_Api
  imports Native_Calls
begin

text \<open>
  The native methods of \<open>ToxCoreJni\<close>: \<open>ToxCore/{lifecycle,connection,clientinfo,friendlist,
  filetransfer,interaction,custom,debug}.cpp\<close> and \<open>ToxCore/generated/impls.h\<close>. A method
  takes the toxcore functions it calls as its first arguments.
\<close>

type_synonym ('tox, 'av, 'r) native = "(('tox, 'av) world, 'r) prog"

text \<open>The signatures of the toxcore functions, after the object pointer.\<close>

type_synonym ('tox, 'r, 'e) tox_err = "'tox \<Rightarrow> 'r \<times> 'e \<times> 'tox"

text \<open>The same for functions that get a pointer without a length, with \<open>None\<close> as for \<open>call_c\<close>.\<close>

type_synonym ('tox, 'r, 'e) tox_ptr = "'tox \<Rightarrow> ('r \<times> 'e \<times> 'tox) option"

section \<open>lifecycle.cpp\<close>

definition assert_valid_uint16 :: "jint \<Rightarrow> ('z jenv_scheme, unit) prog" where
  "assert_valid_uint16 port =
     andThen (tox4j_assert ''ToxCore/lifecycle.cpp:276'' ''port >= 0'' (sint port \<ge> 0)) (\<lambda>_.
     tox4j_assert ''ToxCore/lifecycle.cpp:277'' ''port <= 65535'' (sint port \<le> 65535))"

text \<open>
  \<open>tox_new_unique\<close>: the address and state of the new object, or null, and an error code.
\<close>

type_synonym 'tox tox_new_fun = "(tox_options \<Rightarrow> (uintptr \<times> 'tox) option \<times> TOX_ERR_NEW) cfun"

definition new_object_of :: "(uintptr \<times> 'st) option \<Rightarrow> ('cb, 'st) native_object option" where
  "new_object_of = map_option (\<lambda>(a, st). \<lparr>obj_addr = a, obj_callbacks = [], obj_state = st\<rparr>)"

definition show_pointer :: "(uintptr \<times> 'st) option \<Rightarrow> uintptr" where
  "show_pointer p = (case p of None \<Rightarrow> 0 | Some (a, _) \<Rightarrow> a)"

text \<open>The success function: callbacks are set, then the manager takes the object over.\<close>

definition toxNew_success :: "'tox tox option \<Rightarrow> ('tox, 'av, jint) native" where
  "toxNew_success tox =
     andThen (tox4j_assert ''ToxCore/lifecycle.cpp:292'' ''tox != nullptr'' (tox \<noteq> None)) (\<lambda>_.
     andThen (setter_set (foldl setter_add (tox_callbacks (Some no_events)) core_callbacks) (the tox)) (\<lambda>(tox, events).
     on_manager core_lens (\<lambda>m. add m (Some tox) events)))"

text \<open>The options, from the conversion of the proxy type to the save data.\<close>

definition toxNew_options ::
  "jboolean \<Rightarrow> jboolean \<Rightarrow> jboolean \<Rightarrow> jint \<Rightarrow> jstring \<Rightarrow> jint \<Rightarrow>
   jint \<Rightarrow> jint \<Rightarrow> jint \<Rightarrow> jint \<Rightarrow> uint8 jarray \<Rightarrow> ('z jenv_scheme, tox_options) prog" where
  "toxNew_options ipv6Enabled udpEnabled localDiscoveryEnabled
     proxyType proxyHost proxyPort startPort endPort tcpPort saveDataType saveData =
     andThen (valueOf_TOX_PROXY_TYPE proxyType) (\<lambda>proxy_type.
     andThen (utf_chars proxyHost) (\<lambda>proxy_host.
     andThen (if proxy_type \<noteq> TOX_PROXY_TYPE_NONE then assert_valid_uint16 proxyPort else ret ()) (\<lambda>_.
     andThen (assert_valid_uint16 startPort) (\<lambda>_.
     andThen (assert_valid_uint16 endPort) (\<lambda>_.
     andThen (assert_valid_uint16 tcpPort) (\<lambda>_.
     andThen (fromJavaArray saveData) (\<lambda>save_data.
     andThen (valueOf_TOX_SAVEDATA_TYPE saveDataType) (\<lambda>savedata_type.
     andThen (array_size save_data) (\<lambda>_.
     ret \<lparr>opt_ipv6_enabled = (ipv6Enabled \<noteq> 0), opt_udp_enabled = (udpEnabled \<noteq> 0),
          opt_local_discovery_enabled = (localDiscoveryEnabled \<noteq> 0),
          opt_proxy_type = proxy_type, opt_proxy_host = proxy_host,
          opt_proxy_port = ucast proxyPort, opt_start_port = ucast startPort,
          opt_end_port = ucast endPort, opt_tcp_port = ucast tcpPort,
          opt_savedata_type = savedata_type, opt_savedata = save_data\<rparr>)))))))))"

text \<open>\<open>options_available\<close>: whether \<open>tox_options_new\<close> could allocate.\<close>

definition toxNew ::
  "bool \<Rightarrow> 'tox tox_new_fun \<Rightarrow> jboolean \<Rightarrow> jboolean \<Rightarrow> jboolean \<Rightarrow> jint \<Rightarrow> jstring \<Rightarrow> jint \<Rightarrow>
   jint \<Rightarrow> jint \<Rightarrow> jint \<Rightarrow> jint \<Rightarrow> uint8 jarray \<Rightarrow> ('tox, 'av, jint) native" where
  "toxNew options_available tox_new ipv6Enabled udpEnabled localDiscoveryEnabled
     proxyType proxyHost proxyPort startPort endPort tcpPort saveDataType saveData =
    (if \<not> options_available
     then andThen (throw_tox_exception core_subsystem tox_err_new_enum TOX_ERR_NEW_MALLOC) (\<lambda>_. ret 0)
     else
       andThen (toxNew_options ipv6Enabled udpEnabled localDiscoveryEnabled proxyType proxyHost proxyPort
                  startPort endPort tcpPort saveDataType saveData) (\<lambda>opts.
       andThen (with_error_handling_new core_subsystem tox_err_new_enum
                  (\<lambda>p. Arg_tox (show_pointer p)) (\<lambda>p. ret (new_object_of p)) 0 toxNew_success
                  (addr_of tox_new) [Arg_options (Some opts)]
                  (ret (case run_c tox_new opts of (p, error) \<Rightarrow> (p, error, ()))))
         (\<lambda>(n, _). ret n)))"

definition toxKill :: "jint \<Rightarrow> ('tox, 'av, unit) native" where
  "toxKill instanceNumber =
     on_manager core_lens (\<lambda>m. andThen (kill m instanceNumber) (\<lambda>m'. ret ((), m')))"

definition toxFinalize :: "jint \<Rightarrow> ('tox, 'av, unit) native" where
  "toxFinalize instanceNumber =
     on_manager core_lens (\<lambda>m. andThen (finalize m instanceNumber) (\<lambda>m'. ret ((), m')))"

text \<open>A method that returns a vector which \<open>get_vector\<close> reads out of the object.\<close>

definition get_bytes :: "('tox, uint8) vector_getter \<Rightarrow> jint \<Rightarrow> ('tox, 'av, uint8 jarray) native" where
  "get_bytes g instanceNumber =
     with_instance_noerr core_class Arg_uint8_vector toJavaArray None instanceNumber
       (vg_make g) [] (on_state_noerr (get_vector_make g))"

definition toxGetSavedata :: "('tox, uint8) vector_getter \<Rightarrow> jint \<Rightarrow> ('tox, 'av, uint8 jarray) native" where
  "toxGetSavedata tox_get_savedata instanceNumber = get_bytes tox_get_savedata instanceNumber"

section \<open>connection.cpp\<close>

type_synonym 'tox bootstrap_fun =
  "(string option \<Rightarrow> uint16 \<Rightarrow> pointer \<Rightarrow> ('tox, bool, TOX_ERR_BOOTSTRAP) tox_ptr) cfun"

definition toxBootstrapLike ::
  "'tox bootstrap_fun \<Rightarrow> jint \<Rightarrow> jstring \<Rightarrow> jint \<Rightarrow> uint8 jarray \<Rightarrow> ('tox, 'av, unit) native" where
  "toxBootstrapLike function instanceNumber address port publicKey =
     andThen (tox4j_assert ''ToxCore/connection.cpp:18'' ''port >= 0'' (sint port \<ge> 0)) (\<lambda>_.
     andThen (tox4j_assert ''ToxCore/connection.cpp:19'' ''port <= 65535'' (sint port \<le> 65535)) (\<lambda>_.
     andThen (fromJavaArray publicKey) (\<lambda>public_key.
     andThen (array_size public_key) (\<lambda>n.
     andThen (tox4j_assert ''ToxCore/connection.cpp:22''
                ''!publicKey || public_key.size () == TOX_PUBLIC_KEY_SIZE''
                (publicKey = None \<or> n = TOX_PUBLIC_KEY_SIZE)) (\<lambda>_.
     andThen (utf_chars address) (\<lambda>host.
     with_instance_ign core_class tox_err_bootstrap_enum instanceNumber (addr_of function)
       [Arg_cstr host, log_sint port, Arg_bytes public_key]
       (on_state (\<lambda>tox. call_c (run_c function host (ucast port) public_key tox)))))))))"

definition toxBootstrap ::
  "'tox bootstrap_fun \<Rightarrow> jint \<Rightarrow> jstring \<Rightarrow> jint \<Rightarrow> uint8 jarray \<Rightarrow> ('tox, 'av, unit) native" where
  "toxBootstrap tox_bootstrap instanceNumber address port publicKey =
     toxBootstrapLike tox_bootstrap instanceNumber address port publicKey"

definition toxAddTcpRelay ::
  "'tox bootstrap_fun \<Rightarrow> jint \<Rightarrow> jstring \<Rightarrow> jint \<Rightarrow> uint8 jarray \<Rightarrow> ('tox, 'av, unit) native" where
  "toxAddTcpRelay tox_add_tcp_relay instanceNumber address port publicKey =
     toxBootstrapLike tox_add_tcp_relay instanceNumber address port publicKey"

type_synonym 'tox port_fun = "(('tox, uint16, TOX_ERR_GET_PORT) tox_err) cfun"

text \<open>\<open>identity\<close>, with the conversion of a \<open>uint16_t\<close> to \<open>jint\<close> on return.\<close>

definition toxSelfGetUdpPort :: "'tox port_fun \<Rightarrow> jint \<Rightarrow> ('tox, 'av, jint) native" where
  "toxSelfGetUdpPort tox_self_get_udp_port instanceNumber =
     with_instance_err core_class tox_err_get_port_enum (\<lambda>r. log_uint r) ret 0 (\<lambda>r. ret (ucast r))
       instanceNumber (addr_of tox_self_get_udp_port) []
       (on_state (\<lambda>tox. ret (run_c tox_self_get_udp_port tox)))"

definition toxSelfGetTcpPort :: "'tox port_fun \<Rightarrow> jint \<Rightarrow> ('tox, 'av, jint) native" where
  "toxSelfGetTcpPort tox_self_get_tcp_port instanceNumber =
     with_instance_err core_class tox_err_get_port_enum (\<lambda>r. log_uint r) ret 0 (\<lambda>r. ret (ucast r))
       instanceNumber (addr_of tox_self_get_tcp_port) []
       (on_state (\<lambda>tox. ret (run_c tox_self_get_tcp_port tox)))"

text \<open>The instantiation \<open>get_vector<uint8_t, constant_size<N>::make, get_data>\<close>.\<close>

definition constant_getter ::
  "uintptr \<Rightarrow> uintptr \<Rightarrow> nat \<Rightarrow> ('tox \<Rightarrow> 'a list) cfun \<Rightarrow> ('tox, 'a) vector_getter" where
  "constant_getter mk size_mk n get_data =
     \<lparr>vg_make = mk, vg_size = Constant_size size_mk n, vg_data_addr = addr_of get_data,
      vg_data = run_c get_data\<rparr>"

definition toxSelfGetDhtId ::
  "uintptr \<Rightarrow> uintptr \<Rightarrow> ('tox \<Rightarrow> uint8 list) cfun \<Rightarrow> jint \<Rightarrow> ('tox, 'av, uint8 jarray) native" where
  "toxSelfGetDhtId mk size_mk tox_self_get_dht_id instanceNumber =
     get_bytes (constant_getter mk size_mk TOX_PUBLIC_KEY_SIZE tox_self_get_dht_id) instanceNumber"

text \<open>
  \<open>tox_iterate\<close>: the callbacks registered on the \<open>Tox\<close> object that toxcore makes, in order, and
  its state afterwards. Callbacks of a \<open>ToxAV\<close> on top of this object that toxcore makes already
  during \<open>tox_iterate\<close> are not modelled; those made during \<open>toxav_iterate\<close> are. The protobuf
  serialiser is a parameter; \<open>ByteSizeLong\<close> is the length of its output.
\<close>

type_synonym 'tox iterate_fun = "('tox \<Rightarrow> core_callback list \<times> 'tox) cfun"

definition run_iterate ::
  "(core_callback_name \<Rightarrow> uintptr) \<Rightarrow> 'tox iterate_fun \<Rightarrow> 'tox tox \<Rightarrow> core_events \<Rightarrow>
   ('z logenv_scheme, core_events \<times> 'tox tox) prog" where
  "run_iterate addr tox_iterate tox events =
    (let (calls, st) = run_c tox_iterate (obj_state tox) in
     andThen (deliver callback_name (obj_callbacks tox) (invoke addr (obj_addr tox)) calls events) (\<lambda>events.
     ret (events, tox\<lparr>obj_state := st\<rparr>)))"

definition toxIterate ::
  "(core_callback_name \<Rightarrow> uintptr) \<Rightarrow> (core_events \<Rightarrow> uint8 list) \<Rightarrow> 'tox iterate_fun \<Rightarrow> jint \<Rightarrow>
   ('tox, 'av, uint8 jarray) native" where
  "toxIterate addr serialize tox_iterate instanceNumber =
     with_instance core_lens None instanceNumber (\<lambda>tox events.
       with_log_entry (instance_log_entry_open instanceNumber (addr_of tox_iterate) [Arg_tox (obj_addr tox)])
         (\<lambda>log_entry.
            andThen (print_result log_entry (\<lambda>_. Arg_void) (run_iterate addr tox_iterate tox events))
              (\<lambda>(events, tox).
            if length (serialize events) = 0 then ret (None, tox, events)
            else andThen (toJavaArray (serialize events)) (\<lambda>arr. ret (arr, tox, no_events)))))"

section \<open>clientinfo.cpp\<close>

definition toxSelfGetPublicKey ::
  "uintptr \<Rightarrow> uintptr \<Rightarrow> ('tox \<Rightarrow> uint8 list) cfun \<Rightarrow> jint \<Rightarrow> ('tox, 'av, uint8 jarray) native" where
  "toxSelfGetPublicKey mk size_mk tox_self_get_public_key instanceNumber =
     get_bytes (constant_getter mk size_mk TOX_PUBLIC_KEY_SIZE tox_self_get_public_key) instanceNumber"

definition toxSelfGetSecretKey ::
  "uintptr \<Rightarrow> uintptr \<Rightarrow> ('tox \<Rightarrow> uint8 list) cfun \<Rightarrow> jint \<Rightarrow> ('tox, 'av, uint8 jarray) native" where
  "toxSelfGetSecretKey mk size_mk tox_self_get_secret_key instanceNumber =
     get_bytes (constant_getter mk size_mk TOX_SECRET_KEY_SIZE tox_self_get_secret_key) instanceNumber"

definition toxSelfGetAddress ::
  "uintptr \<Rightarrow> uintptr \<Rightarrow> ('tox \<Rightarrow> uint8 list) cfun \<Rightarrow> jint \<Rightarrow> ('tox, 'av, uint8 jarray) native" where
  "toxSelfGetAddress mk size_mk tox_self_get_address instanceNumber =
     get_bytes (constant_getter mk size_mk TOX_ADDRESS_SIZE tox_self_get_address) instanceNumber"

type_synonym 'tox set_info_fun = "(pointer \<Rightarrow> nat \<Rightarrow> ('tox, bool, TOX_ERR_SET_INFO) tox_err) cfun"

definition toxSelfSetName :: "'tox set_info_fun \<Rightarrow> jint \<Rightarrow> uint8 jarray \<Rightarrow> ('tox, 'av, unit) native" where
  "toxSelfSetName tox_self_set_name instanceNumber name =
     andThen (fromJavaArray name) (\<lambda>name_array.
     andThen (array_size name_array) (\<lambda>n.
     with_instance_ign core_class tox_err_set_info_enum instanceNumber (addr_of tox_self_set_name)
       [log_data name_array n] (on_state (\<lambda>tox. ret (run_c tox_self_set_name name_array n tox)))))"

definition toxSelfGetName :: "('tox, uint8) vector_getter \<Rightarrow> jint \<Rightarrow> ('tox, 'av, uint8 jarray) native" where
  "toxSelfGetName tox_self_get_name instanceNumber = get_bytes tox_self_get_name instanceNumber"

definition toxSelfSetStatusMessage ::
  "'tox set_info_fun \<Rightarrow> jint \<Rightarrow> uint8 jarray \<Rightarrow> ('tox, 'av, unit) native" where
  "toxSelfSetStatusMessage tox_self_set_status_message instanceNumber statusMessage =
     andThen (fromJavaArray statusMessage) (\<lambda>status_message_array.
     andThen (array_size status_message_array) (\<lambda>n.
     with_instance_ign core_class tox_err_set_info_enum instanceNumber
       (addr_of tox_self_set_status_message) [log_data status_message_array n]
       (on_state (\<lambda>tox. ret (run_c tox_self_set_status_message status_message_array n tox)))))"

definition toxSelfGetStatusMessage ::
  "('tox, uint8) vector_getter \<Rightarrow> jint \<Rightarrow> ('tox, 'av, uint8 jarray) native" where
  "toxSelfGetStatusMessage tox_self_get_status_message instanceNumber =
     get_bytes tox_self_get_status_message instanceNumber"

definition toxSelfSetStatus ::
  "(TOX_USER_STATUS \<Rightarrow> 'tox \<Rightarrow> 'tox) cfun \<Rightarrow> jint \<Rightarrow> jint \<Rightarrow> ('tox, 'av, unit) native" where
  "toxSelfSetStatus tox_self_set_status instanceNumber status =
     andThen (valueOf_TOX_USER_STATUS status) (\<lambda>st.
     with_instance_noerr core_class (\<lambda>_. Arg_void) ret () instanceNumber (addr_of tox_self_set_status)
       [Arg_enum (print_arg_TOX_USER_STATUS st)]
       (on_state_noerr (\<lambda>tox. ret ((), run_c tox_self_set_status st tox))))"

section \<open>friendlist.cpp\<close>

definition toxFriendAdd ::
  "(pointer \<Rightarrow> pointer \<Rightarrow> nat \<Rightarrow> ('tox, uint32, TOX_ERR_FRIEND_ADD) tox_ptr) cfun \<Rightarrow>
   jint \<Rightarrow> uint8 jarray \<Rightarrow> uint8 jarray \<Rightarrow> ('tox, 'av, jint) native" where
  "toxFriendAdd tox_friend_add instanceNumber address message =
     andThen (fromJavaArray message) (\<lambda>messageData.
     andThen (fromJavaArray address) (\<lambda>addressData.
     andThen (array_size addressData) (\<lambda>m.
     andThen (tox4j_assert ''ToxCore/friendlist.cpp:16''
                ''!address || addressData.size () == TOX_ADDRESS_SIZE''
                (address = None \<or> m = TOX_ADDRESS_SIZE)) (\<lambda>_.
     andThen (array_size messageData) (\<lambda>n.
     with_instance_err core_class tox_err_friend_add_enum (\<lambda>r. log_uint r) ret 0 ret instanceNumber
       (addr_of tox_friend_add) [Arg_bytes addressData, log_data messageData n]
       (on_state (\<lambda>tox. call_c (run_c tox_friend_add addressData messageData n tox))))))))"

definition toxFriendAddNorequest ::
  "(pointer \<Rightarrow> ('tox, uint32, TOX_ERR_FRIEND_ADD) tox_ptr) cfun \<Rightarrow>
   jint \<Rightarrow> uint8 jarray \<Rightarrow> ('tox, 'av, jint) native" where
  "toxFriendAddNorequest tox_friend_add_norequest instanceNumber publicKey =
     andThen (fromJavaArray publicKey) (\<lambda>public_key.
     andThen (array_size public_key) (\<lambda>m.
     andThen (tox4j_assert ''ToxCore/friendlist.cpp:32''
                ''!publicKey || public_key.size () == TOX_PUBLIC_KEY_SIZE''
                (publicKey = None \<or> m = TOX_PUBLIC_KEY_SIZE)) (\<lambda>_.
     with_instance_err core_class tox_err_friend_add_enum (\<lambda>r. log_uint r) ret 0 ret instanceNumber
       (addr_of tox_friend_add_norequest) [Arg_bytes public_key]
       (on_state (\<lambda>tox. call_c (run_c tox_friend_add_norequest public_key tox))))))"

definition toxFriendDelete ::
  "(uint32 \<Rightarrow> ('tox, bool, TOX_ERR_FRIEND_DELETE) tox_err) cfun \<Rightarrow> jint \<Rightarrow> jint \<Rightarrow>
   ('tox, 'av, unit) native" where
  "toxFriendDelete tox_friend_delete instanceNumber friendNumber =
     with_instance_ign core_class tox_err_friend_delete_enum instanceNumber (addr_of tox_friend_delete)
       [log_sint friendNumber] (on_state (\<lambda>tox. ret (run_c tox_friend_delete friendNumber tox)))"

definition toxFriendByPublicKey ::
  "(pointer \<Rightarrow> ('tox, uint32, TOX_ERR_FRIEND_BY_PUBLIC_KEY) tox_ptr) cfun \<Rightarrow>
   jint \<Rightarrow> uint8 jarray \<Rightarrow> ('tox, 'av, jint) native" where
  "toxFriendByPublicKey tox_friend_by_public_key instanceNumber publicKey =
     andThen (fromJavaArray publicKey) (\<lambda>public_key.
     andThen (array_size public_key) (\<lambda>m.
     andThen (tox4j_assert ''ToxCore/friendlist.cpp:61''
                ''!publicKey || public_key.size () == TOX_PUBLIC_KEY_SIZE''
                (publicKey = None \<or> m = TOX_PUBLIC_KEY_SIZE)) (\<lambda>_.
     with_instance_err core_class tox_err_friend_by_public_key_enum (\<lambda>r. log_uint r) ret 0 ret
       instanceNumber (addr_of tox_friend_by_public_key) [Arg_bytes public_key]
       (on_state (\<lambda>tox. call_c (run_c tox_friend_by_public_key public_key tox))))))"

text \<open>
  A local array that toxcore fills: \<open>stack\<close> is what it contains before the call, which is
  also what is logged. The result pairs the return value with the array after the call.
\<close>

definition fill_local ::
  "uint8 list \<Rightarrow> ('tox \<Rightarrow> (bool \<times> uint8 list) \<times> 'e \<times> 'tox) \<Rightarrow> 'tox \<Rightarrow>
   ('s, (bool \<times> uint8 list) \<times> 'e \<times> 'tox) prog" where
  "fill_local stack f tox =
    (let ((b, out), e, tox') = f tox in
     andThen (fill_buffer stack out) (\<lambda>arr. ret ((b, arr), e, tox')))"

definition toxFriendGetPublicKey ::
  "uint8 list \<Rightarrow>
   (uint32 \<Rightarrow> ('tox, bool \<times> uint8 list, TOX_ERR_FRIEND_GET_PUBLIC_KEY) tox_err) cfun \<Rightarrow>
   jint \<Rightarrow> jint \<Rightarrow> ('tox, 'av, uint8 jarray) native" where
  "toxFriendGetPublicKey stack tox_friend_get_public_key instanceNumber friendNumber =
     with_instance_err core_class tox_err_friend_get_public_key_enum (\<lambda>(b, _). show_bool b) ret None
       (\<lambda>(_, public_key). toJavaArray public_key)
       instanceNumber (addr_of tox_friend_get_public_key) [log_sint friendNumber, Arg_bytes (Some stack)]
       (on_state (fill_local stack (run_c tox_friend_get_public_key friendNumber)))"

definition toxSelfGetFriendList :: "('tox, jint) vector_getter \<Rightarrow> jint \<Rightarrow> ('tox, 'av, jint jarray) native" where
  "toxSelfGetFriendList tox_self_get_friend_list instanceNumber =
     with_instance_noerr core_class Arg_jint_vector toJavaArray None instanceNumber
       (vg_make tox_self_get_friend_list) [] (on_state_noerr (get_vector_make tox_self_get_friend_list))"

section \<open>filetransfer.cpp\<close>

definition toxFileControl ::
  "(uint32 \<Rightarrow> uint32 \<Rightarrow> TOX_FILE_CONTROL \<Rightarrow> ('tox, bool, TOX_ERR_FILE_CONTROL) tox_err) cfun \<Rightarrow>
   jint \<Rightarrow> jint \<Rightarrow> jint \<Rightarrow> jint \<Rightarrow> ('tox, 'av, unit) native" where
  "toxFileControl tox_file_control instanceNumber friendNumber fileNumber control =
     andThen (valueOf_TOX_FILE_CONTROL control) (\<lambda>c.
     with_instance_ign core_class tox_err_file_control_enum instanceNumber (addr_of tox_file_control)
       [log_sint friendNumber, log_sint fileNumber, Arg_enum (print_arg_TOX_FILE_CONTROL c)]
       (on_state (\<lambda>tox. ret (run_c tox_file_control friendNumber fileNumber c tox))))"

definition toxFileSeek ::
  "(uint32 \<Rightarrow> uint32 \<Rightarrow> uint64 \<Rightarrow> ('tox, bool, TOX_ERR_FILE_SEEK) tox_err) cfun \<Rightarrow>
   jint \<Rightarrow> jint \<Rightarrow> jint \<Rightarrow> jlong \<Rightarrow> ('tox, 'av, unit) native" where
  "toxFileSeek tox_file_seek instanceNumber friendNumber fileNumber position =
     with_instance_ign core_class tox_err_file_seek_enum instanceNumber (addr_of tox_file_seek)
       [log_sint friendNumber, log_sint fileNumber, log_sint position]
       (on_state (\<lambda>tox. ret (run_c tox_file_seek friendNumber fileNumber position tox)))"

definition file_size_arg :: "jlong \<Rightarrow> jlong" where
  "file_size_arg fileSize = (if sint fileSize < 0 then - 1 else fileSize)"

definition toxFileSend ::
  "(uint32 \<Rightarrow> uint32 \<Rightarrow> uint64 \<Rightarrow> pointer \<Rightarrow> pointer \<Rightarrow> nat \<Rightarrow>
      ('tox, uint32, TOX_ERR_FILE_SEND) tox_ptr) cfun \<Rightarrow>
   jint \<Rightarrow> jint \<Rightarrow> jint \<Rightarrow> jlong \<Rightarrow> uint8 jarray \<Rightarrow> uint8 jarray \<Rightarrow> ('tox, 'av, jint) native" where
  "toxFileSend tox_file_send instanceNumber friendNumber kind fileSize fileId filename =
     andThen (fromJavaArray fileId) (\<lambda>fileIdData.
     andThen (fromJavaArray filename) (\<lambda>filenameData.
     andThen (array_size filenameData) (\<lambda>n.
     with_instance_err core_class tox_err_file_send_enum (\<lambda>r. log_uint r) ret 0 ret instanceNumber
       (addr_of tox_file_send)
       [log_sint friendNumber, log_sint kind, log_sint (file_size_arg fileSize),
        Arg_bytes fileIdData, log_data filenameData n]
       (on_state (\<lambda>tox. call_c (run_c tox_file_send friendNumber kind (file_size_arg fileSize)
          fileIdData filenameData n tox))))))"

definition toxFileSendChunk ::
  "(uint32 \<Rightarrow> uint32 \<Rightarrow> uint64 \<Rightarrow> pointer \<Rightarrow> nat \<Rightarrow>
      ('tox, bool, TOX_ERR_FILE_SEND_CHUNK) tox_err) cfun \<Rightarrow>
   jint \<Rightarrow> jint \<Rightarrow> jint \<Rightarrow> jlong \<Rightarrow> uint8 jarray \<Rightarrow> ('tox, 'av, unit) native" where
  "toxFileSendChunk tox_file_send_chunk instanceNumber friendNumber fileNumber position chunk =
     andThen (fromJavaArray chunk) (\<lambda>chunkData.
     andThen (array_size chunkData) (\<lambda>n.
     with_instance_ign core_class tox_err_file_send_chunk_enum instanceNumber
       (addr_of tox_file_send_chunk)
       [log_sint friendNumber, log_sint fileNumber, log_sint position, log_data chunkData n]
       (on_state (\<lambda>tox. ret (run_c tox_file_send_chunk friendNumber fileNumber position chunkData n tox)))))"

definition toxFileGetFileId ::
  "uint8 list \<Rightarrow>
   (uint32 \<Rightarrow> uint32 \<Rightarrow> ('tox, bool \<times> uint8 list, TOX_ERR_FILE_GET) tox_err) cfun \<Rightarrow>
   jint \<Rightarrow> jint \<Rightarrow> jint \<Rightarrow> ('tox, 'av, uint8 jarray) native" where
  "toxFileGetFileId stack tox_file_get_file_id instanceNumber friendNumber fileNumber =
     with_instance_err core_class tox_err_file_get_enum (\<lambda>(b, _). show_bool b) ret None
       (\<lambda>(_, file_id). toJavaArray file_id)
       instanceNumber (addr_of tox_file_get_file_id)
       [log_sint friendNumber, log_sint fileNumber, Arg_bytes (Some stack)]
       (on_state (fill_local stack (run_c tox_file_get_file_id friendNumber fileNumber)))"

section \<open>interaction.cpp and custom.cpp\<close>

definition toxSelfSetTyping ::
  "(uint32 \<Rightarrow> bool \<Rightarrow> ('tox, bool, TOX_ERR_SET_TYPING) tox_err) cfun \<Rightarrow>
   jint \<Rightarrow> jint \<Rightarrow> jboolean \<Rightarrow> ('tox, 'av, unit) native" where
  "toxSelfSetTyping tox_self_set_typing instanceNumber friendNumber isTyping =
     with_instance_ign core_class tox_err_set_typing_enum instanceNumber (addr_of tox_self_set_typing)
       [log_sint friendNumber, log_uint isTyping]
       (on_state (\<lambda>tox. ret (run_c tox_self_set_typing friendNumber (isTyping \<noteq> 0) tox)))"

definition toxFriendSendMessage ::
  "(uint32 \<Rightarrow> TOX_MESSAGE_TYPE \<Rightarrow> pointer \<Rightarrow> nat \<Rightarrow>
      ('tox, uint32, TOX_ERR_FRIEND_SEND_MESSAGE) tox_err) cfun \<Rightarrow>
   jint \<Rightarrow> jint \<Rightarrow> jint \<Rightarrow> jint \<Rightarrow> uint8 jarray \<Rightarrow> ('tox, 'av, jint) native" where
  "toxFriendSendMessage tox_friend_send_message instanceNumber friendNumber messageType timeDelta message =
     andThen (fromJavaArray message) (\<lambda>message_array.
     andThen (valueOf_TOX_MESSAGE_TYPE messageType) (\<lambda>ty.
     andThen (array_size message_array) (\<lambda>n.
     with_instance_err core_class tox_err_friend_send_message_enum (\<lambda>r. log_uint r) ret 0 ret
       instanceNumber (addr_of tox_friend_send_message)
       [log_sint friendNumber, Arg_enum (print_arg_TOX_MESSAGE_TYPE ty), log_data message_array n]
       (on_state (\<lambda>tox. ret (run_c tox_friend_send_message friendNumber ty message_array n tox))))))"

type_synonym 'tox packet_fun =
  "(uint32 \<Rightarrow> pointer \<Rightarrow> nat \<Rightarrow> ('tox, bool, TOX_ERR_FRIEND_CUSTOM_PACKET) tox_err) cfun"

definition toxFriendSendLossyPacket ::
  "'tox packet_fun \<Rightarrow> jint \<Rightarrow> jint \<Rightarrow> uint8 jarray \<Rightarrow> ('tox, 'av, unit) native" where
  "toxFriendSendLossyPacket tox_friend_send_lossy_packet instanceNumber friendNumber packet =
     andThen (fromJavaArray packet) (\<lambda>packetData.
     andThen (array_size packetData) (\<lambda>n.
     with_instance_ign core_class tox_err_friend_custom_packet_enum instanceNumber
       (addr_of tox_friend_send_lossy_packet) [log_sint friendNumber, log_data packetData n]
       (on_state (\<lambda>tox. ret (run_c tox_friend_send_lossy_packet friendNumber packetData n tox)))))"

definition toxFriendSendLosslessPacket ::
  "'tox packet_fun \<Rightarrow> jint \<Rightarrow> jint \<Rightarrow> uint8 jarray \<Rightarrow> ('tox, 'av, unit) native" where
  "toxFriendSendLosslessPacket tox_friend_send_lossless_packet instanceNumber friendNumber packet =
     andThen (fromJavaArray packet) (\<lambda>packetData.
     andThen (array_size packetData) (\<lambda>n.
     with_instance_ign core_class tox_err_friend_custom_packet_enum instanceNumber
       (addr_of tox_friend_send_lossless_packet) [log_sint friendNumber, log_data packetData n]
       (on_state (\<lambda>tox. ret (run_c tox_friend_send_lossless_packet friendNumber packetData n tox)))))"

section \<open>generated/impls.h\<close>

definition toxIterationInterval :: "('tox \<Rightarrow> uint32) cfun \<Rightarrow> jint \<Rightarrow> ('tox, 'av, jint) native" where
  "toxIterationInterval tox_iteration_interval instanceNumber =
     with_instance_noerr core_class (\<lambda>r. log_uint r) ret 0 instanceNumber
       (addr_of tox_iteration_interval) []
       (on_state_noerr (\<lambda>tox. ret (run_c tox_iteration_interval tox, tox)))"

text \<open>\<open>status_value\<close> is the integer value of the C enumerator, which is what Java gets.\<close>

definition toxSelfGetStatus ::
  "(TOX_USER_STATUS \<Rightarrow> jint) \<Rightarrow> ('tox \<Rightarrow> TOX_USER_STATUS) cfun \<Rightarrow> jint \<Rightarrow> ('tox, 'av, jint) native" where
  "toxSelfGetStatus status_value tox_self_get_status instanceNumber =
     with_instance_noerr core_class (\<lambda>st. Arg_enum (print_arg_TOX_USER_STATUS st))
       (\<lambda>st. ret (status_value st)) 0 instanceNumber (addr_of tox_self_get_status) []
       (on_state_noerr (\<lambda>tox. ret (run_c tox_self_get_status tox, tox)))"

definition toxSelfSetNospam ::
  "(uint32 \<Rightarrow> 'tox \<Rightarrow> 'tox) cfun \<Rightarrow> jint \<Rightarrow> jint \<Rightarrow> ('tox, 'av, unit) native" where
  "toxSelfSetNospam tox_self_set_nospam instanceNumber nospam =
     with_instance_noerr core_class (\<lambda>_. Arg_void) ret () instanceNumber
       (addr_of tox_self_set_nospam) [log_sint nospam]
       (on_state_noerr (\<lambda>tox. ret ((), run_c tox_self_set_nospam nospam tox)))"

definition toxFriendExists ::
  "(uint32 \<Rightarrow> 'tox \<Rightarrow> bool) cfun \<Rightarrow> jint \<Rightarrow> jint \<Rightarrow> ('tox, 'av, jboolean) native" where
  "toxFriendExists tox_friend_exists instanceNumber friendNumber =
     with_instance_noerr core_class show_bool (\<lambda>b. ret (if b then 1 else 0)) 0 instanceNumber
       (addr_of tox_friend_exists) [log_sint friendNumber]
       (on_state_noerr (\<lambda>tox. ret (run_c tox_friend_exists friendNumber tox, tox)))"

definition toxSelfGetNospam :: "('tox \<Rightarrow> uint32) cfun \<Rightarrow> jint \<Rightarrow> ('tox, 'av, jint) native" where
  "toxSelfGetNospam tox_self_get_nospam instanceNumber =
     with_instance_noerr core_class (\<lambda>r. log_uint r) ret 0 instanceNumber
       (addr_of tox_self_get_nospam) []
       (on_state_noerr (\<lambda>tox. ret (run_c tox_self_get_nospam tox, tox)))"

section \<open>The invoke methods of lifecycle.cpp\<close>

text \<open>All of them check the object pointer and append one event through a callback.\<close>

definition invoke_on ::
  "jint \<Rightarrow> (core_events \<Rightarrow> ('tox, 'av, core_events) native) \<Rightarrow> ('tox, 'av, unit) native" where
  "invoke_on instanceNumber callback =
     with_instance core_lens () instanceNumber (\<lambda>tox events.
       andThen (cassert ''tox != nullptr'' (obj_addr tox \<noteq> 0)) (\<lambda>_.
       andThen (callback events) (\<lambda>events. ret ((), tox, events))))"

definition with_bytes ::
  "uint8 jarray \<Rightarrow> (pointer \<Rightarrow> nat \<Rightarrow> ('tox, 'av, 'r) native) \<Rightarrow> ('tox, 'av, 'r) native" where
  "with_bytes jArray f =
     andThen (fromJavaArray jArray) (\<lambda>array. andThen (array_size array) (\<lambda>n. f array n))"

definition invokeSelfConnectionStatus :: "jint \<Rightarrow> jint \<Rightarrow> ('tox, 'av, unit) native" where
  "invokeSelfConnectionStatus instanceNumber connection_status =
     invoke_on instanceNumber (\<lambda>events.
       andThen (valueOf_TOX_CONNECTION connection_status) (\<lambda>st.
       tox4j_self_connection_status_cb st events))"

definition invokeFileRecvControl :: "jint \<Rightarrow> jint \<Rightarrow> jint \<Rightarrow> jint \<Rightarrow> ('tox, 'av, unit) native" where
  "invokeFileRecvControl instanceNumber friend_number file_number control =
     invoke_on instanceNumber (\<lambda>events.
       andThen (valueOf_TOX_FILE_CONTROL control) (\<lambda>c.
       tox4j_file_recv_control_cb friend_number file_number c events))"

definition invokeFileRecv ::
  "jint \<Rightarrow> jint \<Rightarrow> jint \<Rightarrow> jint \<Rightarrow> jlong \<Rightarrow> uint8 jarray \<Rightarrow> ('tox, 'av, unit) native" where
  "invokeFileRecv instanceNumber friend_number file_number kind file_size filename =
     invoke_on instanceNumber (\<lambda>events. with_bytes filename (\<lambda>data n.
       tox4j_file_recv_cb friend_number file_number kind file_size data n events))"

definition invokeFileRecvChunk ::
  "jint \<Rightarrow> jint \<Rightarrow> jint \<Rightarrow> jlong \<Rightarrow> uint8 jarray \<Rightarrow> ('tox, 'av, unit) native" where
  "invokeFileRecvChunk instanceNumber friend_number file_number position data =
     invoke_on instanceNumber (\<lambda>events. with_bytes data (\<lambda>data n.
       tox4j_file_recv_chunk_cb friend_number file_number position data n events))"

text \<open>The \<open>jint\<close> length is sign-extended to \<open>size_t\<close>.\<close>

definition invokeFileChunkRequest ::
  "jint \<Rightarrow> jint \<Rightarrow> jint \<Rightarrow> jlong \<Rightarrow> jint \<Rightarrow> ('tox, 'av, unit) native" where
  "invokeFileChunkRequest instanceNumber friend_number file_number position len =
     invoke_on instanceNumber (\<lambda>events.
       tox4j_file_chunk_request_cb friend_number file_number position (scast len) events)"

definition invokeFriendConnectionStatus :: "jint \<Rightarrow> jint \<Rightarrow> jint \<Rightarrow> ('tox, 'av, unit) native" where
  "invokeFriendConnectionStatus instanceNumber friend_number connection_status =
     invoke_on instanceNumber (\<lambda>events.
       andThen (valueOf_TOX_CONNECTION connection_status) (\<lambda>st.
       tox4j_friend_connection_status_cb friend_number st events))"

definition invokeFriendLosslessPacket :: "jint \<Rightarrow> jint \<Rightarrow> uint8 jarray \<Rightarrow> ('tox, 'av, unit) native" where
  "invokeFriendLosslessPacket instanceNumber friend_number data =
     invoke_on instanceNumber (\<lambda>events. with_bytes data (\<lambda>data n.
       tox4j_friend_lossless_packet_cb friend_number data n events))"

definition invokeFriendLossyPacket :: "jint \<Rightarrow> jint \<Rightarrow> uint8 jarray \<Rightarrow> ('tox, 'av, unit) native" where
  "invokeFriendLossyPacket instanceNumber friend_number data =
     invoke_on instanceNumber (\<lambda>events. with_bytes data (\<lambda>data n.
       tox4j_friend_lossy_packet_cb friend_number data n events))"

definition invokeFriendMessage ::
  "jint \<Rightarrow> jint \<Rightarrow> jint \<Rightarrow> jint \<Rightarrow> uint8 jarray \<Rightarrow> ('tox, 'av, unit) native" where
  "invokeFriendMessage instanceNumber friend_number type time_delta message =
     invoke_on instanceNumber (\<lambda>events. with_bytes message (\<lambda>data n.
       andThen (valueOf_TOX_MESSAGE_TYPE type) (\<lambda>ty.
       tox4j_friend_message_cb friend_number ty data n events)))"

definition invokeFriendName :: "jint \<Rightarrow> jint \<Rightarrow> uint8 jarray \<Rightarrow> ('tox, 'av, unit) native" where
  "invokeFriendName instanceNumber friend_number name =
     invoke_on instanceNumber (\<lambda>events. with_bytes name (\<lambda>data n.
       tox4j_friend_name_cb friend_number data n events))"

definition invokeFriendRequest ::
  "jint \<Rightarrow> uint8 jarray \<Rightarrow> jint \<Rightarrow> uint8 jarray \<Rightarrow> ('tox, 'av, unit) native" where
  "invokeFriendRequest instanceNumber public_key time_delta message =
     invoke_on instanceNumber (\<lambda>events.
       andThen (fromJavaArray public_key) (\<lambda>public_keyArray. with_bytes message (\<lambda>data n.
       tox4j_friend_request_cb public_keyArray data n events)))"

definition invokeFriendStatus :: "jint \<Rightarrow> jint \<Rightarrow> jint \<Rightarrow> ('tox, 'av, unit) native" where
  "invokeFriendStatus instanceNumber friend_number status =
     invoke_on instanceNumber (\<lambda>events.
       andThen (valueOf_TOX_USER_STATUS status) (\<lambda>st.
       tox4j_friend_status_cb friend_number st events))"

definition invokeFriendStatusMessage :: "jint \<Rightarrow> jint \<Rightarrow> uint8 jarray \<Rightarrow> ('tox, 'av, unit) native" where
  "invokeFriendStatusMessage instanceNumber friend_number message =
     invoke_on instanceNumber (\<lambda>events. with_bytes message (\<lambda>data n.
       tox4j_friend_status_message_cb friend_number data n events))"

definition invokeFriendTyping :: "jint \<Rightarrow> jint \<Rightarrow> jboolean \<Rightarrow> ('tox, 'av, unit) native" where
  "invokeFriendTyping instanceNumber friend_number is_typing =
     invoke_on instanceNumber (\<lambda>events. tox4j_friend_typing_cb friend_number (is_typing \<noteq> 0) events)"

definition invokeFriendReadReceipt :: "jint \<Rightarrow> jint \<Rightarrow> jint \<Rightarrow> ('tox, 'av, unit) native" where
  "invokeFriendReadReceipt instanceNumber friend_number message_id =
     invoke_on instanceNumber (\<lambda>events. tox4j_friend_read_receipt_cb friend_number message_id events)"

section \<open>debug.cpp\<close>

definition tox4jLastLog :: "(log_entry list \<Rightarrow> uint8 list) \<Rightarrow> ('tox, 'av, uint8 jarray) native" where
  "tox4jLastLog serialize =
     andThen log_empty (\<lambda>empty.
     if empty then ret None
     else andThen (clear_log serialize) toJavaArray)"

definition tox4jSetMaxLogSize :: "jint \<Rightarrow> ('tox, 'av, unit) native" where
  "tox4jSetMaxLogSize maxSize = set_max_size maxSize"

definition tox4jGetMaxLogSize :: "('tox, 'av, jint) native" where
  "tox4jGetMaxLogSize = get_max_size"

definition tox4jGetCurrentLogSize :: "('tox, 'av, jint) native" where
  "tox4jGetCurrentLogSize = log_size"

text \<open>\<open>GetArrayLength\<close> of a null reference has no meaning.\<close>

fun filter_strings :: "jstring list \<Rightarrow> ('tox, 'av, string list) native" where
  "filter_strings [] = ret []"
| "filter_strings (str # strs) =
     andThen (jni_call ''GetObjectArrayElement'') (\<lambda>_.
     andThen (utf_chars str) (\<lambda>filter.
     andThen (filter_strings strs) (\<lambda>rest.
     ret (utf_to_string filter # rest))))"

definition tox4jSetLogFilter :: "jstring jarray \<Rightarrow> ('tox, 'av, unit) native" where
  "tox4jSetLogFilter filters =
     andThen (jni_call ''GetArrayLength'') (\<lambda>_.
     case filters of
       None \<Rightarrow> fail (UB ''GetArrayLength of a null array'')
     | Some strs \<Rightarrow> andThen (filter_strings strs) set_filter)"

end
