(* ===== verification/Log_Sequences.thy ===== *)
theory Log_Sequences
  imports Log_Threads Core_Api
begin

text \<open>
  The steps of the threads that share the log (\<open>Log_Threads\<close>) and the sequential functions of
  \<open>Debug_Log\<close>, which all other theories use: every interleaving is a run of one thread, and
  the sequential functions are runs of one thread.
\<close>

section \<open>One thread for all\<close>

text \<open>The state in which thread 0 has the entries of the thread that holds the mutex.\<close>

definition one_thread :: "'z log_threads \<Rightarrow> 'z log_threads" where
  "one_thread s =
     s\<lparr>log_holder := map_option (\<lambda>_. 0) (log_holder s),
       handles := (\<lambda>_. [])(0 := (case log_holder s of None \<Rightarrow> [] | Some i \<Rightarrow> handles s i)),
       naming := (\<lambda>_. False)(0 := (case log_holder s of None \<Rightarrow> False | Some i \<Rightarrow> naming s i))\<rparr>"

lemma one_thread_idle [simp]: "one_thread (idle_threads sh) = idle_threads sh"
  by (simp add: one_thread_def idle_threads_def fun_eq_iff)

lemma one_thread_simps [simp]:
  "shared (one_thread s) = shared s" "one_thread (s\<lparr>shared := sh\<rparr>) = (one_thread s)\<lparr>shared := sh\<rparr>"
  "lock_free 0 (one_thread s)"
  by (simp_all add: one_thread_def lock_free_def split: option.splits)

lemma one_thread_holder:
  assumes "threads_ok s" and "lock_free i s"
  shows "handles (one_thread s) 0 = handles s i" and "naming (one_thread s) 0 = naming s i"
  using assms(2) threads_okD(4,5) [OF assms(1), of i]
  by (auto simp: one_thread_def lock_free_def split: option.splits)

text \<open>A step of any thread is a step of thread 0.\<close>

lemma one_thread_step:
  assumes ok: "threads_ok s" and step: "log_tstep i a s t"
  shows "log_tstep 0 a (one_thread s) (one_thread t)"
proof -
  from step obtain r sh where may: "may_log i a s" and t: "t = after_action i a r sh s"
    and run: "run_action (handles s i) a (shared s) = Done (r, sh)"
    by (auto elim: log_tstepE)
  show ?thesis
  proof (cases "lock_free i s")
    case True
    note same = one_thread_holder [OF ok True]
    have "may_log 0 a (one_thread s)" using may same by (cases a) auto
    moreover have "run_action (handles (one_thread s) 0) a (shared (one_thread s)) = Done (r, sh)"
      using run same by simp
    moreover have "after_action 0 a r sh (one_thread s) = one_thread t"
      using t same may True
      by (cases a; cases r) (auto simp: one_thread_def lock_free_def fun_eq_iff split: option.splits)
    ultimately show ?thesis by (metis log_tstepI)
  next
    case False
    then have none: "handles s i = []" "\<not> naming s i"
      using holder_lock_free [OF ok] threads_okD(5) [OF ok] by blast+
    then have "may_log 0 a (one_thread s)" using may False by (cases a) auto
    moreover have "run_action (handles (one_thread s) 0) a (shared (one_thread s)) = Done (r, sh)"
      using run may none False by (cases a) auto
    moreover have "after_action 0 a r sh (one_thread s) = one_thread t"
      using t may none False by (cases a) auto
    ultimately show ?thesis by (metis log_tstepI)
  qed
qed

lemma log_execute_step:
  "log_execute ((i, a) # steps) s = Some u \<longleftrightarrow> (\<exists>t. log_tstep i a s t \<and> log_execute steps t = Some u)"
  by (auto split: if_splits outcome.splits elim!: log_tstepE intro: log_tstepI)

lemma one_thread_execute:
  "threads_ok s \<Longrightarrow> log_execute steps s = Some t \<Longrightarrow>
   log_execute (map (\<lambda>(i, a). (0, a)) steps) (one_thread s) = Some (one_thread t)"
proof (induction steps arbitrary: s)
  case (Cons step steps)
  obtain i a where step: "step = (i, a)" by (cases step)
  from Cons.prems obtain u where u: "log_tstep i a s u" "log_execute steps u = Some t"
    unfolding step log_execute_step by blast
  have "log_execute (map (\<lambda>(i, a). (0, a)) steps) (one_thread u) = Some (one_thread t)"
    by (rule Cons.IH [OF tstep_ok [OF Cons.prems(1) u(1)] u(2)])
  with one_thread_step [OF Cons.prems(1) u(1)] show ?case
    by (auto simp: step log_execute_step simp del: log_execute.simps)
qed simp

section \<open>The sequential functions as steps\<close>

lemma log_execute_append:
  "log_execute (xs @ ys) s = Option.bind (log_execute xs s) (log_execute ys)"
  by (induction xs arbitrary: s) (auto split: outcome.split)

text \<open>
  \<open>realised i ep m\<close>: what \<open>m\<close> does to the log, thread \<open>i\<close> can do by steps, whatever entries it has
  open beside its innermost entry \<open>ep\<close>, and with the same entries and the mutex as before.
\<close>

definition innermost_is :: "nat \<Rightarrow> entry_ptr \<Rightarrow> 'z log_threads \<Rightarrow> bool" where
  "innermost_is i ep s \<longleftrightarrow> threads_ok s \<and> lock_free i s \<and> \<not> naming s i \<and>
    (case ep of None \<Rightarrow> True | Some p \<Rightarrow> \<exists>hs. handles s i = p # hs)"

definition realised :: "nat \<Rightarrow> entry_ptr \<Rightarrow> ('z logenv_scheme, 'r) prog \<Rightarrow> bool" where
  "realised i ep m \<longleftrightarrow>
    (\<forall>s r sh. innermost_is i ep s \<longrightarrow> m (shared s) = Done (r, sh) \<longrightarrow>
      (\<exists>acts. log_execute (map (Pair i) acts) s = Some (s\<lparr>shared := sh\<rparr>)))"

lemma realisedI:
  "(\<And>s r sh. innermost_is i ep s \<Longrightarrow> m (shared s) = Done (r, sh) \<Longrightarrow>
     \<exists>acts. log_execute (map (Pair i) acts) s = Some (s\<lparr>shared := sh\<rparr>)) \<Longrightarrow> realised i ep m"
  by (simp add: realised_def)

lemma realisedD:
  "realised i ep m \<Longrightarrow> innermost_is i ep s \<Longrightarrow> m (shared s) = Done (r, sh) \<Longrightarrow>
   \<exists>acts. log_execute (map (Pair i) acts) s = Some (s\<lparr>shared := sh\<rparr>)"
  by (simp add: realised_def)

lemma realised_inside: "realised i None m \<Longrightarrow> realised i ep m"
  by (simp add: realised_def innermost_is_def)

lemma execute_ok: "log_execute steps s = Some t \<Longrightarrow> threads_ok s \<Longrightarrow> threads_ok t"
proof (induction steps arbitrary: s)
  case (Cons step steps)
  then show ?case
    by (cases step) (auto simp: log_execute_step tstep_ok simp del: log_execute.simps(2))
qed simp

text \<open>The state in which thread \<open>i\<close> has, as its innermost entry, the entry \<open>p\<close>.\<close>

definition holding :: "nat \<Rightarrow> nat \<Rightarrow> 'z logenv_scheme \<Rightarrow> 'z log_threads \<Rightarrow> 'z log_threads" where
  "holding i p sh s = s\<lparr>shared := sh, log_holder := Some i, handles := (handles s)(i := p # handles s i)\<rparr>"

lemma holding_simps [simp]:
  "shared (holding i p sh s) = sh" "handles (holding i p sh s) i = p # handles s i"
  "naming (holding i p sh s) = naming s" "lock_free i (holding i p sh s)"
  "(holding i p sh s)\<lparr>shared := sh'\<rparr> = holding i p sh' s"
  by (simp_all add: holding_def lock_free_def)

lemma execute_open:
  assumes "lock_free i s" and "\<not> naming s i" and "new_entry (shared s) = Done (Some p, sh)"
    and "print_func p f sh = Done ((), sh')"
  shows "log_execute [(i, Open_entry), (i, Name_entry f)] s = Some (holding i p sh' s)"
proof -
  have "(naming s)(i := False) = naming s" using assms(2) by (simp add: fun_upd_idem)
  with assms show ?thesis by (simp add: innermost_def andThen_def holding_def)
qed

lemma execute_write:
  assumes "\<not> naming s i" and "write_through p w sh = Done ((), sh')"
  shows "log_execute [(i, Write_entry w)] (holding i p sh s) = Some (holding i p sh' s)"
  using assms by (simp add: innermost_def andThen_def)

lemma execute_arguments:
  assumes "\<not> naming s i"
  shows "print_args p args sh = Done ((), sh') \<Longrightarrow>
    log_execute (map (\<lambda>a. (i, Write_entry (Argument a))) args) (holding i p sh s) = Some (holding i p sh' s)"
proof (induction args arbitrary: sh)
  case (Cons a args)
  then obtain u where u: "print_args p [a] sh = Done ((), u)" "print_args p args u = Done ((), sh')"
    by (auto simp: andThen_def split: outcome.splits)
  have "log_execute ([(i, Write_entry (Argument a))] @ map (\<lambda>a. (i, Write_entry (Argument a))) args)
      (holding i p sh s) = Some (holding i p sh' s)"
    unfolding log_execute_append using execute_write [OF assms, of p "Argument a" sh u] u(1) Cons.IH [OF u(2)]
    by (simp del: log_execute.simps(2) print_args.simps(2))
  then show ?case by simp
qed simp

lemma execute_close:
  assumes "threads_ok s" and "lock_free i s" and "\<not> naming s i"
    and "destroy_entry (Some p) sh = Done ((), sh')"
  shows "log_execute [(i, Close_entry)] (holding i p sh s) = Some (s\<lparr>shared := sh'\<rparr>)"
proof -
  have "log_holder s = (if handles s i = [] then None else Some i)"
    using threads_okD(4) [OF assms(1), of i] assms(2) by (auto simp: lock_free_def split: option.splits)
  with assms show ?thesis by (auto simp: innermost_def andThen_def holding_def fun_upd_idem)
qed

lemma realised_pure:
  assumes "\<And>s r t. m s = Done (r, t) \<Longrightarrow> t = s"
  shows "realised i ep m"
  by (rule realisedI) (auto intro!: exI [of _ "[]"] dest!: assms)

lemma realised_ret: "realised i ep (ret r)"
  by (rule realised_pure) simp

lemma innermost_is_shared:
  assumes "innermost_is i ep s" and "log_execute steps s = Some (s\<lparr>shared := u\<rparr>)"
  shows "innermost_is i ep (s\<lparr>shared := u\<rparr>)"
  using assms execute_ok [OF assms(2)] by (cases ep) (simp_all add: innermost_is_def lock_free_def)

lemma realised_andThen:
  assumes m: "realised i ep m" and f: "\<And>a. realised i ep (f a)"
  shows "realised i ep (andThen m f)"
proof (rule realisedI)
  fix s r sh
  assume s: "innermost_is i ep s" and run: "andThen m f (shared s) = Done (r, sh)"
  from run obtain a u where m': "m (shared s) = Done (a, u)" and f': "f a u = Done (r, sh)"
    by (auto simp: andThen_Done_iff)
  from realisedD [OF m s m'] obtain xs where xs: "log_execute (map (Pair i) xs) s = Some (s\<lparr>shared := u\<rparr>)" ..
  from realisedD [OF f innermost_is_shared [OF s xs], of a r sh] f'
  obtain ys where "log_execute (map (Pair i) ys) (s\<lparr>shared := u\<rparr>) = Some (s\<lparr>shared := sh\<rparr>)" by auto
  with xs have "log_execute (map (Pair i) (xs @ ys)) s = Some (s\<lparr>shared := sh\<rparr>)"
    by (simp add: log_execute_append)
  then show "\<exists>acts. log_execute (map (Pair i) acts) s = Some (s\<lparr>shared := sh\<rparr>)" ..
qed

lemma realised_clock: "realised i ep clock_now"
  by (rule realisedI) (auto simp: andThen_def clock_now_def intro!: exI [of _ "[Read_clock]"])

lemma realised_write: "realised i (Some p) (write_through p w)"
  by (rule realisedI) (auto simp: innermost_is_def innermost_def andThen_def intro!: exI [of _ "[Write_entry w]"])

text \<open>The constructors of \<open>LogEntry\<close> and \<open>InstanceLogEntry\<close>.\<close>

definition opens :: "nat \<Rightarrow> ('z logenv_scheme, entry_ptr) prog \<Rightarrow> bool" where
  "opens i m \<longleftrightarrow>
    (\<forall>s ep sh. threads_ok s \<and> lock_free i s \<and> \<not> naming s i \<and> m (shared s) = Done (ep, sh) \<longrightarrow>
      (\<exists>acts. log_execute (map (Pair i) acts) s =
        Some (case ep of None \<Rightarrow> s\<lparr>shared := sh\<rparr> | Some p \<Rightarrow> holding i p sh s)))"

lemma opens_log_entry: "opens i (log_entry_open f args)"
  unfolding opens_def
proof (intro allI impI, elim conjE)
  fix s ep sh
  assume s: "threads_ok s" "lock_free i s" "\<not> naming s i"
    and run: "log_entry_open f args (shared s) = Done (ep, sh)"
  show "\<exists>acts. log_execute (map (Pair i) acts) s =
      Some (case ep of None \<Rightarrow> s\<lparr>shared := sh\<rparr> | Some p \<Rightarrow> holding i p sh s)"
  proof (cases ep)
    case None
    with run have "new_entry (shared s) = Done (None, sh)"
      by (auto simp: log_entry_open_def andThen_Done_iff split: option.splits)
    with None s show ?thesis by (auto intro!: exI [of _ "[Open_entry]"])
  next
    case (Some p)
    with run obtain u v where new: "new_entry (shared s) = Done (Some p, u)" "print_func p f u = Done ((), v)"
      and args: "print_args p args v = Done ((), sh)"
      by (auto simp: log_entry_open_def andThen_Done_iff split: option.splits)
    have "log_execute [(i, Open_entry), (i, Name_entry f)] s = Some (holding i p v s)"
      by (rule execute_open [OF s(2,3) new])
    with execute_arguments [OF s(3) args]
    have "log_execute (map (Pair i) ([Open_entry, Name_entry f] @ map (Write_entry \<circ> Argument) args)) s =
        Some (holding i p sh s)"
      unfolding map_append log_execute_append by (simp add: comp_def)
    then show ?thesis unfolding Some option.case by (rule exI)
  qed
qed

lemma opens_instance_log_entry: "opens i (instance_log_entry_open n f args)"
  unfolding opens_def
proof (intro allI impI, elim conjE)
  fix s ep sh
  assume s: "threads_ok s" "lock_free i s" "\<not> naming s i"
    and run: "instance_log_entry_open n f args (shared s) = Done (ep, sh)"
  then obtain u where u: "log_entry_open f args (shared s) = Done (ep, u)"
    and num: "case ep of None \<Rightarrow> sh = u
       | Some p \<Rightarrow> update_entry p (\<lambda>e. e\<lparr>entry_instance := n\<rparr>) u = Done ((), sh)"
    by (auto simp: instance_log_entry_open_def andThen_Done_iff split: option.splits)
  from opens_log_entry [of i f args] s u obtain acts where acts: "log_execute (map (Pair i) acts) s =
      Some (case ep of None \<Rightarrow> s\<lparr>shared := u\<rparr> | Some p \<Rightarrow> holding i p u s)"
    unfolding opens_def by blast
  show "\<exists>acts. log_execute (map (Pair i) acts) s =
      Some (case ep of None \<Rightarrow> s\<lparr>shared := sh\<rparr> | Some p \<Rightarrow> holding i p sh s)"
  proof (cases ep)
    case None
    with acts num show ?thesis by auto
  next
    case (Some p)
    with num execute_write [OF s(3), of p "Instance_number n" u sh] acts
    have "log_execute (map (Pair i) (acts @ [Write_entry (Instance_number n)])) s = Some (holding i p sh s)"
      unfolding map_append log_execute_append by simp
    then show ?thesis unfolding Some option.case by (rule exI)
  qed
qed

lemma innermost_is_holding:
  assumes "innermost_is i ep' s" and "log_execute steps s = Some (holding i p sh s)"
  shows "innermost_is i (Some p) (holding i p sh s)"
  using assms(1) execute_ok [OF assms(2)] by (simp add: innermost_is_def)

text \<open>The scope of an entry, with whatever is logged in it.\<close>

lemma realised_scope:
  assumes m: "opens i m" and scope: "\<And>ep. realised i ep (scope ep)"
  shows "realised i ep (with_log_entry m scope)"
proof (rule realisedI)
  fix s r sh
  assume s: "innermost_is i ep s" and run: "with_log_entry m scope (shared s) = Done (r, sh)"
  then have s': "threads_ok s" "lock_free i s" "\<not> naming s i" by (auto simp: innermost_is_def)
  from run obtain en u v where u: "m (shared s) = Done (en, u)" and v: "scope en u = Done (r, v)"
    and sh: "destroy_entry en v = Done ((), sh)"
    by (auto simp: with_log_entry_def andThen_Done_iff)
  from m s' u obtain xs where xs: "log_execute (map (Pair i) xs) s =
      Some (case en of None \<Rightarrow> s\<lparr>shared := u\<rparr> | Some p \<Rightarrow> holding i p u s)"
    unfolding opens_def by blast
  show "\<exists>acts. log_execute (map (Pair i) acts) s = Some (s\<lparr>shared := sh\<rparr>)"
  proof (cases en)
    case None
    with xs have xs: "log_execute (map (Pair i) xs) s = Some (s\<lparr>shared := u\<rparr>)" by simp
    have "realised i ep (scope None)" by (rule realised_inside [OF scope])
    from realisedD [OF this innermost_is_shared [OF s xs], of r v] v None
    obtain ys where "log_execute (map (Pair i) ys) (s\<lparr>shared := u\<rparr>) = Some (s\<lparr>shared := v\<rparr>)" by auto
    with xs have "log_execute (map (Pair i) (xs @ ys)) s = Some (s\<lparr>shared := v\<rparr>)"
      by (simp add: log_execute_append)
    with None sh show ?thesis by (auto simp: destroy_entry_def simp del: map_append intro!: exI)
  next
    case (Some p)
    with xs have xs: "log_execute (map (Pair i) xs) s = Some (holding i p u s)" by simp
    from realisedD [OF scope innermost_is_holding [OF s xs], of r v] v Some
    obtain ys where ys: "log_execute (map (Pair i) ys) (holding i p u s) = Some (holding i p v s)" by auto
    have "log_execute (map (Pair i) [Close_entry]) (holding i p v s) = Some (s\<lparr>shared := sh\<rparr>)"
      using execute_close [OF s'] sh Some by simp
    with xs ys have "log_execute (map (Pair i) (xs @ ys @ [Close_entry])) s = Some (s\<lparr>shared := sh\<rparr>)"
      unfolding map_append log_execute_append by simp
    then show ?thesis by (rule exI)
  qed
qed

lemma realised_print_result:
  assumes "realised i None func"
  shows "realised i ep (print_result ep sr func)"
proof (cases ep)
  case None
  with assms show ?thesis by (simp add: print_result_def)
next
  case (Some p)
  have *: "print_result ep sr func =
      andThen clock_now (\<lambda>start. andThen func (\<lambda>r. andThen clock_now (\<lambda>stop.
      andThen (write_through p (Times start stop)) (\<lambda>_.
      andThen (write_through p (Result (sr r))) (\<lambda>_. ret r)))))"
    by (simp add: Some print_result_def andThen_assoc)
  show ?thesis unfolding *
    by (intro realised_andThen realised_clock realised_inside [OF assms])
      (auto simp: Some simp del: write_through.simps intro: realised_write realised_ret)
qed

lemma realised_call:
  assumes "realised i None func"
  shows "realised i ep (with_log_entry (log_entry_open f args) (\<lambda>en. print_result en sr func))"
    and "realised i ep (with_log_entry (instance_log_entry_open n f args) (\<lambda>en. print_result en sr func))"
  by (intro realised_scope opens_log_entry opens_instance_log_entry realised_print_result assms)+

text \<open>Callbacks open their entries in the scope of the entry of the call.\<close>

lemma realised_invoke: "realised i None (invoke addr tox cb ev)"
proof -
  have "realised i None (run_callback cb ev)"
    by (rule realised_pure, cases cb)
      (auto simp: callback_defs set_bytes_def andThen_def split: option.splits if_splits)
  then show ?thesis
    unfolding invoke_def tox_cb_invoke_def
    by (intro realised_andThen realised_call(1)) (auto intro: realised_pure simp: cassert_def split: if_splits)
qed

lemma realised_deliver:
  assumes "\<And>c ev. realised i None (invk c ev)"
  shows "realised i None (deliver name registered invk cs ev)"
proof (induction cs arbitrary: ev)
  case (Cons c cs)
  with assms show ?case by (auto intro!: realised_andThen realised_ret)
qed (auto intro: realised_ret)

lemma realised_run_iterate: "realised i None (run_iterate addr tox_iterate tox events)"
  unfolding run_iterate_def
  by (auto split: prod.split intro!: realised_andThen realised_deliver realised_invoke realised_ret)

section \<open>Properties\<close>

text \<open>
  C22. Every interleaving of the threads that share the log leaves the log, the function names
  and the clock as one thread does that makes the same steps in the same order.
\<close>

theorem log_interleavings_sequential:
  assumes "log_ok sh" and "log_execute steps (idle_threads sh) = Some t"
  shows "\<exists>u. log_execute (map (\<lambda>(i, a). (0, a)) steps) (idle_threads sh) = Some u \<and> shared u = shared t"
  using one_thread_execute [OF threads_ok_idle [OF assms(1)] assms(2)] by simp

theorem log_interleavings_sequential_witness:
  "\<exists>t u. log_execute example_steps (idle_threads any_log) = Some t \<and>
     log_execute (map (\<lambda>(i, a). (0, a)) example_steps) (idle_threads any_log) = Some u \<and> shared u = shared t"
proof -
  obtain t where "log_execute example_steps (idle_threads any_log) = Some t"
    by (simp add: example_steps_def idle_threads_def any_log_def initial_log_def new_entry_def andThen_def
        innermost_def print_func_def get_func_name_def update_entry_def set_max_size_def destroy_entry_def
        lock_free_def set_log_def)
  with log_interleavings_sequential [OF log_ok_any_log this] show ?thesis by blast
qed

text \<open>
  C23. The logged part of \<open>toxIterate\<close>, with the entries of all the callbacks that toxcore makes in
  it nested in the entry of the call, does to the log what a thread can do by single steps
  among other threads, in any state in which it can take the mutex; afterwards it has the
  mutex and the entries that it had before.
\<close>

theorem iterate_log_is_steps:
  assumes "log_ok sh" and "log_treach sh s" and "lock_free i s" and "\<not> naming s i"
    and "with_log_entry (instance_log_entry_open n f args) (\<lambda>entry.
      print_result entry (\<lambda>_. Arg_void) (run_iterate addr tox_iterate tox events)) (shared s) = Done (r, sh')"
  shows "\<exists>acts. log_execute (map (Pair i) acts) s = Some (s\<lparr>shared := sh'\<rparr>)"
proof (rule realisedD [OF realised_call(2) _ assms(5)])
  show "realised i None (run_iterate addr tox_iterate tox events)" by (rule realised_run_iterate)
  show "innermost_is i None s"
    using treach_ok [OF assms(2,1)] assms(3,4) by (simp add: innermost_is_def)
qed

definition example_tox :: "unit tox" where
  "example_tox = \<lparr>obj_addr = 1, obj_callbacks = core_callbacks, obj_state = ()\<rparr>"

definition example_iterate :: "unit iterate_fun" where
  "example_iterate = (7, \<lambda>_. ([Cb_friend_typing 3 True], ()))"

definition example_iteration :: "(logenv, core_events \<times> unit tox) prog" where
  "example_iteration =
     with_log_entry (instance_log_entry_open 1 7 []) (\<lambda>entry.
       print_result entry (\<lambda>_. Arg_void) (run_iterate (\<lambda>_. 9) example_iterate example_tox no_events))"

theorem iterate_log_is_steps_witness:
  "\<exists>r sh' acts. example_iteration any_log = Done (r, sh') \<and> length (log_entries (jni_log_of sh')) = 2 \<and>
     log_execute (map (Pair 5) acts) (idle_threads any_log) = Some (idle_threads sh')"
proof -
  obtain r sh' where "example_iteration any_log = Done (r, sh')" and two: "length (log_entries (jni_log_of sh')) = 2"
    by (simp add: example_iteration_def any_log_def initial_log_def new_entry_def andThen_def
        run_iterate_def example_iterate_def example_tox_def with_log_entry_def instance_log_entry_open_def
        log_entry_open_def print_func_def get_func_name_def update_entry_def print_result_def clock_now_def
        destroy_entry_def set_log_def core_callbacks_def invoke_def tox_cb_invoke_def callback_defs no_events_def)
  then have run: "with_log_entry (instance_log_entry_open 1 7 []) (\<lambda>entry.
      print_result entry (\<lambda>_. Arg_void) (run_iterate (\<lambda>_. 9) example_iterate example_tox no_events))
      (shared (idle_threads any_log)) = Done (r, sh')"
    by (simp add: example_iteration_def idle_threads_def)
  have "\<exists>acts. log_execute (map (Pair 5) acts) (idle_threads any_log) = Some ((idle_threads any_log)\<lparr>shared := sh'\<rparr>)"
    by (rule iterate_log_is_steps [OF log_ok_any_log treach_start _ _ run]) (simp_all add: idle_threads_def lock_free_def)
  with run two show ?thesis by (auto simp: example_iteration_def idle_threads_def)
qed

end
