(* ===== verification/Java_Buffers.thy ===== *)
theory Java_Buffers
  imports Java_Arrays
begin

text \<open>
  The buffers behind the arrays and strings of \<open>Java_Arrays\<close>: \<open>util/jni/ArrayFromJava.h\<close> and
  \<open>util/jni/UTFChars.h\<close> as objects that get a buffer from the virtual machine in their
  constructor and give it back in their destructor. Here a request may fail.
\<close>

section \<open>State\<close>

text \<open>
  \<open>buffers\<close> are the buffers the library has to give back, each with the array or string it was
  made for; \<open>grants n\<close> says whether the \<open>n\<close>-th request for a buffer succeeds. The number of the
  request stands for the address of the buffer, \<open>None\<close> for a null pointer or reference.
\<close>

type_synonym jref = "nat option"
type_synonym buffer_ptr = "nat option"

record jbuffers = jenv +
  grants :: "nat \<Rightarrow> bool"
  requests :: nat
  buffers :: "(nat \<times> nat) list"

definition out_of_memory :: throwable where
  "out_of_memory = VmThrowable ''java/lang/OutOfMemoryError''"

text \<open>\<open>Get<Type>ArrayElements\<close> and \<open>GetStringUTFChars\<close>: a buffer, or null and an exception.\<close>

definition get_buffer :: "string \<Rightarrow> nat \<Rightarrow> ('z jbuffers_scheme, buffer_ptr) prog" where
  "get_buffer f r =
     andThen (jni_call f) (\<lambda>_.
     andThen (reads requests) (\<lambda>n.
     andThen (reads (\<lambda>s. grants s n)) (\<lambda>granted.
     if granted
     then andThen (modifies (\<lambda>s. s\<lparr>requests := Suc n, buffers := (n, r) # buffers s\<rparr>)) (\<lambda>_. ret (Some n))
     else andThen (modifies (\<lambda>s. s\<lparr>requests := Suc n, pending := Some out_of_memory\<rparr>)) (\<lambda>_. ret None))))"

text \<open>
  \<open>Release<Type>ArrayElements\<close> and \<open>ReleaseStringUTFChars\<close> may be called with an exception pending,
  but only on a buffer that was made for the same object and was not given back yet.
\<close>

definition release_buffer :: "jref \<Rightarrow> buffer_ptr \<Rightarrow> ('z jbuffers_scheme, unit) prog" where
  "release_buffer r c =
    (case (c, r) of
       (Some n, Some k) \<Rightarrow>
         andThen (reads buffers) (\<lambda>bs.
         if (n, k) \<in> set bs then modifies (\<lambda>s. s\<lparr>buffers := remove1 (n, k) bs\<rparr>)
         else fail (UB ''release of a buffer that is not held''))
     | _ \<Rightarrow> fail (UB ''release of a null pointer''))"

section \<open>Objects\<close>

text \<open>
  \<open>MakeArrayFromJava\<close> is a \<open>unique_ptr\<close> \<open>cArray\<close> whose deleter has the array, \<open>UTFChars\<close> has the string
  and the pointer.
\<close>

datatype wrapper = ArrayFromJava (jArray: jref) (cArray: buffer_ptr) | UTFChars jref buffer_ptr

definition MakeArrayFromJava :: "jref \<Rightarrow> ('z jbuffers_scheme, wrapper) prog" where
  "MakeArrayFromJava arr =
     andThen (case arr of Some r \<Rightarrow> get_buffer ''GetArrayElements'' r | None \<Rightarrow> ret None) (\<lambda>c.
     ret (ArrayFromJava arr c))"

definition UTFChars_new :: "jref \<Rightarrow> ('z jbuffers_scheme, wrapper) prog" where
  "UTFChars_new str =
     andThen (case str of Some r \<Rightarrow> get_buffer ''GetStringUTFChars'' r | None \<Rightarrow> ret None) (\<lambda>c.
     ret (UTFChars str c))"

definition JavaArrayDeleter :: "jref \<Rightarrow> buffer_ptr \<Rightarrow> ('z jbuffers_scheme, unit) prog" where
  "JavaArrayDeleter arr c = release_buffer arr c"

text \<open>The destructors: a \<open>unique_ptr\<close> calls its deleter if it is not null, \<open>~UTFChars\<close> looks at the string.\<close>

fun destroy_wrapper :: "wrapper \<Rightarrow> ('z jbuffers_scheme, unit) prog" where
  "destroy_wrapper (ArrayFromJava arr c) = (if c \<noteq> None then JavaArrayDeleter arr c else ret ())"
| "destroy_wrapper (UTFChars str c) = (if str \<noteq> None then release_buffer str c else ret ())"

text \<open>\<open>size\<close> asks the virtual machine, even if there is no buffer.\<close>

definition wrapper_size :: "(nat \<Rightarrow> nat) \<Rightarrow> wrapper \<Rightarrow> ('z jbuffers_scheme, nat) prog" where
  "wrapper_size len w =
    (case jArray w of Some r \<Rightarrow> andThen (jni_call ''GetArrayLength'') (\<lambda>_. ret (len r)) | None \<Rightarrow> ret 0)"

text \<open>
  \<open>fromJavaArray\<close> returns its array by value. Where the compiler does not leave out the temporary,
  the \<open>unique_ptr\<close> is moved, which leaves null behind, and the temporary is destroyed.
\<close>

definition fromJavaArray_moved :: "jref \<Rightarrow> ('z jbuffers_scheme, wrapper) prog" where
  "fromJavaArray_moved arr =
     andThen (MakeArrayFromJava arr) (\<lambda>temporary.
     let moved = ArrayFromJava (jArray temporary) (cArray temporary);
         left_behind = ArrayFromJava (jArray temporary) None
     in andThen (destroy_wrapper left_behind) (\<lambda>_. ret moved))"

section \<open>Scopes\<close>

text \<open>
  The local variables of a method, made in order and destroyed in the reverse order when the
  rest of the method returns, on every path.
\<close>

datatype java_param = Array_param jref | String_param jref

fun make_wrapper :: "java_param \<Rightarrow> ('z jbuffers_scheme, wrapper) prog" where
  "make_wrapper (Array_param arr) = MakeArrayFromJava arr"
| "make_wrapper (String_param str) = UTFChars_new str"

fun with_wrappers ::
  "java_param list \<Rightarrow> (wrapper list \<Rightarrow> ('z jbuffers_scheme, 'r) prog) \<Rightarrow> ('z jbuffers_scheme, 'r) prog" where
  "with_wrappers [] scope = scope []"
| "with_wrappers (p # ps) scope =
     andThen (make_wrapper p) (\<lambda>w.
     andThen (with_wrappers ps (\<lambda>ws. scope (w # ws))) (\<lambda>r.
     andThen (destroy_wrapper w) (\<lambda>_. ret r)))"

section \<open>Lemmas\<close>

fun param_ref :: "java_param \<Rightarrow> jref" where
  "param_ref (Array_param arr) = arr"
| "param_ref (String_param str) = str"

text \<open>The object made for a parameter, when its request is granted.\<close>

fun wrapper_for :: "java_param \<Rightarrow> nat \<Rightarrow> wrapper" where
  "wrapper_for (Array_param arr) n = ArrayFromJava arr (map_option (\<lambda>_. n) arr)"
| "wrapper_for (String_param str) n = UTFChars str (map_option (\<lambda>_. n) str)"

text \<open>The state after it: one buffer more, if the reference is not null.\<close>

definition hold :: "jref \<Rightarrow> 'z jbuffers_scheme \<Rightarrow> 'z jbuffers_scheme" where
  "hold ref s =
    (case ref of None \<Rightarrow> s
     | Some r \<Rightarrow> s\<lparr>requests := Suc (requests s), buffers := (requests s, r) # buffers s\<rparr>)"

lemma hold_simps [simp]:
  "pending (hold ref s) = pending s" "grants (hold ref s) = grants s"
  by (cases ref; simp add: hold_def)+

lemma make_wrapper_granted:
  assumes "pending s = None" and "grants s (requests s)"
  shows "make_wrapper p s = Done (wrapper_for p (requests s), hold (param_ref p) s)"
  using assms
  by (cases p)
    (simp_all add: MakeArrayFromJava_def UTFChars_new_def get_buffer_def jni_call_def andThen_def hold_def
      split: option.splits)

text \<open>An object gives back its own buffer and nothing else, whatever exception is pending.\<close>

lemma destroy_wrapper_hold:
  "buffers t = buffers (hold (param_ref p) s) \<Longrightarrow>
   destroy_wrapper (wrapper_for p (requests s)) t = Done ((), t\<lparr>buffers := buffers s\<rparr>)"
  by (cases p)
    (auto simp: JavaArrayDeleter_def release_buffer_def hold_def andThen_def split: option.splits)

text \<open>In a scope: every object has a buffer that was made for its own reference.\<close>

fun wrappers_live :: "java_param list \<Rightarrow> wrapper list \<Rightarrow> 'z jbuffers_scheme \<Rightarrow> bool" where
  "wrappers_live [] [] s \<longleftrightarrow> True"
| "wrappers_live (p # ps) (w # ws) s \<longleftrightarrow>
     (\<exists>n. w = wrapper_for p n \<and> (\<forall>r. param_ref p = Some r \<longrightarrow> (n, r) \<in> set (buffers s))) \<and>
     wrappers_live ps ws s"
| "wrappers_live _ _ s \<longleftrightarrow> False"

lemma with_wrappers_balanced:
  fixes s :: "'z jbuffers_scheme"
  assumes "\<And>n. grants s n" and "pending s = None"
    and "\<And>ws u. wrappers_live ps ws u \<Longrightarrow> pending u = None \<Longrightarrow> set (buffers s) \<subseteq> set (buffers u) \<Longrightarrow>
      (\<And>n. grants u n) \<Longrightarrow> wp (scope ws) (\<lambda>r v. Q r \<and> buffers v = buffers u) u"
  shows "wp (with_wrappers ps scope) (\<lambda>r t. Q r \<and> buffers t = buffers s) s"
  using assms
proof (induction ps arbitrary: s scope)
  case Nil
  then show ?case by simp
next
  case (Cons p ps)
  let ?w = "wrapper_for p (requests s)" and ?s = "hold (param_ref p) s"
  have "wp (with_wrappers ps (\<lambda>ws. scope (?w # ws))) (\<lambda>r t. Q r \<and> buffers t = buffers ?s) ?s"
  proof (rule Cons.IH)
    fix ws and u :: "'z jbuffers_scheme"
    assume u: "wrappers_live ps ws u" "pending u = None" "set (buffers ?s) \<subseteq> set (buffers u)" "\<And>n. grants u n"
    have "wrappers_live (p # ps) (?w # ws) u"
      using u(1,3) by (auto simp: hold_def split: option.splits)
    moreover have "set (buffers s) \<subseteq> set (buffers u)"
      using u(3) by (auto simp: hold_def split: option.splits)
    ultimately show "wp (scope (?w # ws)) (\<lambda>r v. Q r \<and> buffers v = buffers u) u"
      using Cons.prems(3) u by blast
  qed (use Cons.prems in simp_all)
  then show ?case
    using make_wrapper_granted [OF Cons.prems(2), of p] Cons.prems(1)
    by (auto simp: wp_iff andThen_def destroy_wrapper_hold)
qed

text \<open>The move of \<open>fromJavaArray\<close> gives nothing back: the array is the one the constructor made.\<close>

lemma fromJavaArray_moved_eq: "fromJavaArray_moved arr = MakeArrayFromJava arr"
proof
  fix s :: "'a jbuffers_scheme"
  have "MakeArrayFromJava arr s = Done (w, t) \<Longrightarrow> w = ArrayFromJava (jArray w) (cArray w)" for w t
    by (auto simp: MakeArrayFromJava_def andThen_def split: option.splits outcome.splits)
  then show "fromJavaArray_moved arr s = MakeArrayFromJava arr s"
    by (auto simp: fromJavaArray_moved_def andThen_def split: outcome.split)
qed

text \<open>
  What no method checks: when the virtual machine has no memory left, \<open>~UTFChars\<close> gives back a
  null pointer, and \<open>size\<close> of an array calls the virtual machine with the exception pending.
\<close>

lemma utf_chars_request_fails:
  assumes "pending s = None" and "\<not> grants s (requests s)"
  shows "andThen (UTFChars_new (Some r)) destroy_wrapper s = Fail (UB ''release of a null pointer'')"
  using assms
  by (simp add: UTFChars_new_def get_buffer_def jni_call_def andThen_def release_buffer_def)

lemma array_request_fails:
  assumes "pending s = None" and "\<not> grants s (requests s)"
  shows "andThen (MakeArrayFromJava (Some r)) (wrapper_size len) s =
      Fail (UB ''JNI call with a pending exception: GetArrayLength'')"
    and "wp (MakeArrayFromJava (Some r)) (\<lambda>w t. wp (destroy_wrapper w) (\<lambda>_ u. buffers u = buffers s) t) s"
  using assms
  by (simp_all add: MakeArrayFromJava_def get_buffer_def jni_call_def andThen_def wrapper_size_def wp_iff)

section \<open>Properties\<close>

text \<open>
  C24. Every buffer a native method gets for its arrays and strings is given back, exactly once
  and for the object it was made for, whatever the method does in between, also when it
  leaves an exception pending; in between all buffers are there. (The virtual machine has
  to grant the requests.)
\<close>

theorem java_buffers_released:
  assumes "\<forall>n. grants s n" and "pending s = None"
    and "\<forall>ws u. wrappers_live ps ws u \<and> pending u = None \<longrightarrow>
      (\<exists>r v. scope ws u = Done (r, v) \<and> buffers v = buffers u)"
  shows "\<exists>r t. with_wrappers ps scope s = Done (r, t) \<and> buffers t = buffers s"
  using with_wrappers_balanced [of s ps scope "\<lambda>_. True"] assms by (auto simp: wp_iff)

text \<open>The same array for two parameters, a null string, and a method that raises an exception.\<close>

definition example_buffers :: jbuffers where
  "example_buffers =
     \<lparr>jvm_of = \<lparr>find_class = (\<lambda>_. True), has_static_method = (\<lambda>_ _ _. True), has_method = (\<lambda>_ _ _. True),
        call_value_of = (\<lambda>_ _. Inr None), new_object = (\<lambda>_ _. Inr None)\<rparr>,
      pending = None, grants = (\<lambda>_. True), requests = 0, buffers = []\<rparr>"

theorem java_buffers_released_witness:
  "\<exists>t :: jbuffers. with_wrappers [Array_param (Some 4), Array_param (Some 4), String_param None]
     (\<lambda>_. set_pending out_of_memory) example_buffers = Done ((), t) \<and> buffers t = []"
  using java_buffers_released [of example_buffers "[Array_param (Some 4), Array_param (Some 4), String_param None]"
      "\<lambda>_. set_pending out_of_memory"]
  by (simp add: example_buffers_def set_pending_def)

end
