(* ===== verification/Jni_Declarations.thy ===== *)
theory Jni_Declarations
  imports Prelude
begin

text \<open>
  The boundary between Java and the library: the \<open>native\<close> methods of the three Java classes, the
  C headers that \<open>javah\<close> generated from them (\<open>ToxCore\<close>, \<open>ToxAv\<close> and \<open>ToxCrypto\<close> under
  \<open>generated/im_tox_tox4j_impl_jni_*Jni.h\<close>), and the rules of the Java Native Interface that relate
  the two: how a Java type is passed to C, how a method descriptor is written, and under
  which symbol the virtual machine looks for a method.
\<close>

section \<open>Types, descriptors and symbols\<close>

datatype java_type =
    J_void | J_boolean | J_byte | J_short | J_int | J_long
  | J_class string
  | J_array java_type

datatype c_type =
    C_void | C_jboolean | C_jbyte | C_jshort | C_jint | C_jlong | C_jstring | C_jobject
  | C_jbooleanArray | C_jbyteArray | C_jshortArray | C_jintArray | C_jlongArray | C_jobjectArray
  | C_JNIEnv_ptr | C_jclass

fun descriptor :: "java_type \<Rightarrow> string" where
  "descriptor J_void = ''V''"
| "descriptor J_boolean = ''Z''"
| "descriptor J_byte = ''B''"
| "descriptor J_short = ''S''"
| "descriptor J_int = ''I''"
| "descriptor J_long = ''J''"
| "descriptor (J_class c) = ''L'' @ c @ '';''"
| "descriptor (J_array t) = ''['' @ descriptor t"

definition method_descriptor :: "java_type list \<Rightarrow> java_type \<Rightarrow> string" where
  "method_descriptor ps r = ''('' @ concat (map descriptor ps) @ '')'' @ descriptor r"

fun c_type_of :: "java_type \<Rightarrow> c_type" where
  "c_type_of J_void = C_void"
| "c_type_of J_boolean = C_jboolean"
| "c_type_of J_byte = C_jbyte"
| "c_type_of J_short = C_jshort"
| "c_type_of J_int = C_jint"
| "c_type_of J_long = C_jlong"
| "c_type_of (J_class c) = (if c = ''java/lang/String'' then C_jstring else C_jobject)"
| "c_type_of (J_array J_boolean) = C_jbooleanArray"
| "c_type_of (J_array J_byte) = C_jbyteArray"
| "c_type_of (J_array J_short) = C_jshortArray"
| "c_type_of (J_array J_int) = C_jintArray"
| "c_type_of (J_array J_long) = C_jlongArray"
| "c_type_of (J_array t) = C_jobjectArray"

text \<open>The mangling of ASCII names: anything but letters and digits is escaped.\<close>

definition alphanumeric :: "char \<Rightarrow> bool" where
  "alphanumeric c \<longleftrightarrow>
     (let n = of_char c :: nat in (48 \<le> n \<and> n \<le> 57) \<or> (65 \<le> n \<and> n \<le> 90) \<or> (97 \<le> n \<and> n \<le> 122))"

definition hex_digit :: "nat \<Rightarrow> char" where
  "hex_digit n = char_of (if n < 10 then 48 + n else 87 + n)"

definition mangle_char :: "char \<Rightarrow> string" where
  "mangle_char c =
    (if alphanumeric c then [c]
     else if c = CHR ''/'' then ''_''
     else if c = CHR ''_'' then ''_1''
     else if c = CHR '';'' then ''_2''
     else if c = CHR ''['' then ''_3''
     else ''_000'' @ [hex_digit (of_char c div 16), hex_digit (of_char c mod 16)])"

definition mangle :: "string \<Rightarrow> string" where
  "mangle s = concat (map mangle_char s)"

section \<open>Native methods of the Java classes\<close>

datatype java_native =
  Native (native_name: string) (native_return: java_type) (native_params: "java_type list")

definition java_core_natives :: "java_native list" where
  "java_core_natives = [
    Native ''toxNew'' J_int [J_boolean, J_boolean, J_boolean, J_int, J_class ''java/lang/String'', J_int, J_int, J_int, J_int, J_int, J_array J_byte],
    Native ''toxKill'' J_void [J_int],
    Native ''toxFinalize'' J_void [J_int],
    Native ''toxGetSavedata'' (J_array J_byte) [J_int],
    Native ''toxBootstrap'' J_void [J_int, J_class ''java/lang/String'', J_int, J_array J_byte],
    Native ''toxAddTcpRelay'' J_void [J_int, J_class ''java/lang/String'', J_int, J_array J_byte],
    Native ''toxSelfGetUdpPort'' J_int [J_int],
    Native ''toxSelfGetTcpPort'' J_int [J_int],
    Native ''toxSelfGetDhtId'' (J_array J_byte) [J_int],
    Native ''toxIterationInterval'' J_int [J_int],
    Native ''toxIterate'' (J_array J_byte) [J_int],
    Native ''toxSelfGetPublicKey'' (J_array J_byte) [J_int],
    Native ''toxSelfGetSecretKey'' (J_array J_byte) [J_int],
    Native ''toxSelfSetNospam'' J_void [J_int, J_int],
    Native ''toxSelfGetNospam'' J_int [J_int],
    Native ''toxSelfGetAddress'' (J_array J_byte) [J_int],
    Native ''toxSelfSetName'' J_void [J_int, J_array J_byte],
    Native ''toxSelfGetName'' (J_array J_byte) [J_int],
    Native ''toxSelfSetStatusMessage'' J_void [J_int, J_array J_byte],
    Native ''toxSelfGetStatusMessage'' (J_array J_byte) [J_int],
    Native ''toxSelfSetStatus'' J_void [J_int, J_int],
    Native ''toxSelfGetStatus'' J_int [J_int],
    Native ''toxFriendAdd'' J_int [J_int, J_array J_byte, J_array J_byte],
    Native ''toxFriendAddNorequest'' J_int [J_int, J_array J_byte],
    Native ''toxFriendDelete'' J_void [J_int, J_int],
    Native ''toxFriendByPublicKey'' J_int [J_int, J_array J_byte],
    Native ''toxFriendGetPublicKey'' (J_array J_byte) [J_int, J_int],
    Native ''toxFriendExists'' J_boolean [J_int, J_int],
    Native ''toxSelfGetFriendList'' (J_array J_int) [J_int],
    Native ''toxSelfSetTyping'' J_void [J_int, J_int, J_boolean],
    Native ''toxFriendSendMessage'' J_int [J_int, J_int, J_int, J_int, J_array J_byte],
    Native ''toxFileControl'' J_void [J_int, J_int, J_int, J_int],
    Native ''toxFileSeek'' J_void [J_int, J_int, J_int, J_long],
    Native ''toxFileSend'' J_int [J_int, J_int, J_int, J_long, J_array J_byte, J_array J_byte],
    Native ''toxFileSendChunk'' J_void [J_int, J_int, J_int, J_long, J_array J_byte],
    Native ''toxFileGetFileId'' (J_array J_byte) [J_int, J_int, J_int],
    Native ''toxFriendSendLossyPacket'' J_void [J_int, J_int, J_array J_byte],
    Native ''toxFriendSendLosslessPacket'' J_void [J_int, J_int, J_array J_byte],
    Native ''invokeSelfConnectionStatus'' J_void [J_int, J_int],
    Native ''invokeFileRecvControl'' J_void [J_int, J_int, J_int, J_int],
    Native ''invokeFileRecv'' J_void [J_int, J_int, J_int, J_int, J_long, J_array J_byte],
    Native ''invokeFileRecvChunk'' J_void [J_int, J_int, J_int, J_long, J_array J_byte],
    Native ''invokeFileChunkRequest'' J_void [J_int, J_int, J_int, J_long, J_int],
    Native ''invokeFriendConnectionStatus'' J_void [J_int, J_int, J_int],
    Native ''invokeFriendLosslessPacket'' J_void [J_int, J_int, J_array J_byte],
    Native ''invokeFriendLossyPacket'' J_void [J_int, J_int, J_array J_byte],
    Native ''invokeFriendMessage'' J_void [J_int, J_int, J_int, J_int, J_array J_byte],
    Native ''invokeFriendName'' J_void [J_int, J_int, J_array J_byte],
    Native ''invokeFriendRequest'' J_void [J_int, J_array J_byte, J_int, J_array J_byte],
    Native ''invokeFriendStatus'' J_void [J_int, J_int, J_int],
    Native ''invokeFriendStatusMessage'' J_void [J_int, J_int, J_array J_byte],
    Native ''invokeFriendTyping'' J_void [J_int, J_int, J_boolean],
    Native ''invokeFriendReadReceipt'' J_void [J_int, J_int, J_int],
    Native ''tox4jLastLog'' (J_array J_byte) [],
    Native ''tox4jGetCurrentLogSize'' J_int [],
    Native ''tox4jSetMaxLogSize'' J_void [J_int],
    Native ''tox4jGetMaxLogSize'' J_int [],
    Native ''tox4jSetLogFilter'' J_void [J_array (J_class ''java/lang/String'')]]"

definition java_av_natives :: "java_native list" where
  "java_av_natives = [
    Native ''toxavNew'' J_int [J_int],
    Native ''toxavKill'' J_void [J_int],
    Native ''toxavFinalize'' J_void [J_int],
    Native ''toxavIterationInterval'' J_int [J_int],
    Native ''toxavIterate'' (J_array J_byte) [J_int],
    Native ''toxavCall'' J_void [J_int, J_int, J_int, J_int],
    Native ''toxavAnswer'' J_void [J_int, J_int, J_int, J_int],
    Native ''toxavCallControl'' J_void [J_int, J_int, J_int],
    Native ''toxavAudioSetBitRate'' J_void [J_int, J_int, J_int],
    Native ''toxavVideoSetBitRate'' J_void [J_int, J_int, J_int],
    Native ''toxavAudioSendFrame'' J_void [J_int, J_int, J_array J_short, J_int, J_int, J_int],
    Native ''toxavVideoSendFrame'' J_void [J_int, J_int, J_int, J_int, J_array J_byte, J_array J_byte, J_array J_byte],
    Native ''invokeAudioReceiveFrame'' J_void [J_int, J_int, J_array J_short, J_int, J_int],
    Native ''invokeAudioBitRate'' J_void [J_int, J_int, J_int],
    Native ''invokeVideoBitRate'' J_void [J_int, J_int, J_int],
    Native ''invokeCall'' J_void [J_int, J_int, J_boolean, J_boolean],
    Native ''invokeCallState'' J_void [J_int, J_int, J_int],
    Native ''invokeVideoReceiveFrame'' J_void [J_int, J_int, J_int, J_int, J_array J_byte, J_array J_byte, J_array J_byte, J_int, J_int, J_int]]"

definition java_crypto_natives :: "java_native list" where
  "java_crypto_natives = [
    Native ''toxPassKeyEncrypt'' (J_array J_byte) [J_array J_byte, J_array J_byte],
    Native ''toxGetSalt'' (J_array J_byte) [J_array J_byte],
    Native ''toxIsDataEncrypted'' J_boolean [J_array J_byte],
    Native ''toxPassKeyDeriveWithSalt'' (J_array J_byte) [J_array J_byte, J_array J_byte],
    Native ''toxPassKeyDerive'' (J_array J_byte) [J_array J_byte],
    Native ''toxPassKeyDecrypt'' (J_array J_byte) [J_array J_byte, J_array J_byte],
    Native ''toxHash'' (J_array J_byte) [J_array J_byte]]"

section \<open>Declarations in the generated headers\<close>

text \<open>The comment above a declaration (class, method, signature) and the prototype.\<close>

datatype jni_decl =
  Declaration (decl_class: string) (decl_method: string) (decl_signature: string)
    (decl_return: c_type) (decl_symbol: string) (decl_params: "c_type list")

definition core_jni_class :: string where
  "core_jni_class = ''im_tox_tox4j_impl_jni_ToxCoreJni''"

definition core_header_1 :: "jni_decl list" where
  "core_header_1 = [
    Declaration core_jni_class ''toxNew'' ''(ZZZILjava/lang/String;IIIII[B)I'' C_jint
      ''Java_im_tox_tox4j_impl_jni_ToxCoreJni_toxNew''
      [C_JNIEnv_ptr, C_jclass, C_jboolean, C_jboolean, C_jboolean, C_jint, C_jstring, C_jint, C_jint, C_jint, C_jint, C_jint, C_jbyteArray],
    Declaration core_jni_class ''toxKill'' ''(I)V'' C_void
      ''Java_im_tox_tox4j_impl_jni_ToxCoreJni_toxKill''
      [C_JNIEnv_ptr, C_jclass, C_jint],
    Declaration core_jni_class ''toxFinalize'' ''(I)V'' C_void
      ''Java_im_tox_tox4j_impl_jni_ToxCoreJni_toxFinalize''
      [C_JNIEnv_ptr, C_jclass, C_jint],
    Declaration core_jni_class ''toxGetSavedata'' ''(I)[B'' C_jbyteArray
      ''Java_im_tox_tox4j_impl_jni_ToxCoreJni_toxGetSavedata''
      [C_JNIEnv_ptr, C_jclass, C_jint],
    Declaration core_jni_class ''toxBootstrap'' ''(ILjava/lang/String;I[B)V'' C_void
      ''Java_im_tox_tox4j_impl_jni_ToxCoreJni_toxBootstrap''
      [C_JNIEnv_ptr, C_jclass, C_jint, C_jstring, C_jint, C_jbyteArray],
    Declaration core_jni_class ''toxAddTcpRelay'' ''(ILjava/lang/String;I[B)V'' C_void
      ''Java_im_tox_tox4j_impl_jni_ToxCoreJni_toxAddTcpRelay''
      [C_JNIEnv_ptr, C_jclass, C_jint, C_jstring, C_jint, C_jbyteArray],
    Declaration core_jni_class ''toxSelfGetUdpPort'' ''(I)I'' C_jint
      ''Java_im_tox_tox4j_impl_jni_ToxCoreJni_toxSelfGetUdpPort''
      [C_JNIEnv_ptr, C_jclass, C_jint],
    Declaration core_jni_class ''toxSelfGetTcpPort'' ''(I)I'' C_jint
      ''Java_im_tox_tox4j_impl_jni_ToxCoreJni_toxSelfGetTcpPort''
      [C_JNIEnv_ptr, C_jclass, C_jint],
    Declaration core_jni_class ''toxSelfGetDhtId'' ''(I)[B'' C_jbyteArray
      ''Java_im_tox_tox4j_impl_jni_ToxCoreJni_toxSelfGetDhtId''
      [C_JNIEnv_ptr, C_jclass, C_jint],
    Declaration core_jni_class ''toxIterationInterval'' ''(I)I'' C_jint
      ''Java_im_tox_tox4j_impl_jni_ToxCoreJni_toxIterationInterval''
      [C_JNIEnv_ptr, C_jclass, C_jint],
    Declaration core_jni_class ''toxIterate'' ''(I)[B'' C_jbyteArray
      ''Java_im_tox_tox4j_impl_jni_ToxCoreJni_toxIterate''
      [C_JNIEnv_ptr, C_jclass, C_jint],
    Declaration core_jni_class ''toxSelfGetPublicKey'' ''(I)[B'' C_jbyteArray
      ''Java_im_tox_tox4j_impl_jni_ToxCoreJni_toxSelfGetPublicKey''
      [C_JNIEnv_ptr, C_jclass, C_jint],
    Declaration core_jni_class ''toxSelfGetSecretKey'' ''(I)[B'' C_jbyteArray
      ''Java_im_tox_tox4j_impl_jni_ToxCoreJni_toxSelfGetSecretKey''
      [C_JNIEnv_ptr, C_jclass, C_jint],
    Declaration core_jni_class ''toxSelfSetNospam'' ''(II)V'' C_void
      ''Java_im_tox_tox4j_impl_jni_ToxCoreJni_toxSelfSetNospam''
      [C_JNIEnv_ptr, C_jclass, C_jint, C_jint],
    Declaration core_jni_class ''toxSelfGetNospam'' ''(I)I'' C_jint
      ''Java_im_tox_tox4j_impl_jni_ToxCoreJni_toxSelfGetNospam''
      [C_JNIEnv_ptr, C_jclass, C_jint],
    Declaration core_jni_class ''toxSelfGetAddress'' ''(I)[B'' C_jbyteArray
      ''Java_im_tox_tox4j_impl_jni_ToxCoreJni_toxSelfGetAddress''
      [C_JNIEnv_ptr, C_jclass, C_jint],
    Declaration core_jni_class ''toxSelfSetName'' ''(I[B)V'' C_void
      ''Java_im_tox_tox4j_impl_jni_ToxCoreJni_toxSelfSetName''
      [C_JNIEnv_ptr, C_jclass, C_jint, C_jbyteArray],
    Declaration core_jni_class ''toxSelfGetName'' ''(I)[B'' C_jbyteArray
      ''Java_im_tox_tox4j_impl_jni_ToxCoreJni_toxSelfGetName''
      [C_JNIEnv_ptr, C_jclass, C_jint]]"

definition core_header_2 :: "jni_decl list" where
  "core_header_2 = [
    Declaration core_jni_class ''toxSelfSetStatusMessage'' ''(I[B)V'' C_void
      ''Java_im_tox_tox4j_impl_jni_ToxCoreJni_toxSelfSetStatusMessage''
      [C_JNIEnv_ptr, C_jclass, C_jint, C_jbyteArray],
    Declaration core_jni_class ''toxSelfGetStatusMessage'' ''(I)[B'' C_jbyteArray
      ''Java_im_tox_tox4j_impl_jni_ToxCoreJni_toxSelfGetStatusMessage''
      [C_JNIEnv_ptr, C_jclass, C_jint],
    Declaration core_jni_class ''toxSelfSetStatus'' ''(II)V'' C_void
      ''Java_im_tox_tox4j_impl_jni_ToxCoreJni_toxSelfSetStatus''
      [C_JNIEnv_ptr, C_jclass, C_jint, C_jint],
    Declaration core_jni_class ''toxSelfGetStatus'' ''(I)I'' C_jint
      ''Java_im_tox_tox4j_impl_jni_ToxCoreJni_toxSelfGetStatus''
      [C_JNIEnv_ptr, C_jclass, C_jint],
    Declaration core_jni_class ''toxFriendAdd'' ''(I[B[B)I'' C_jint
      ''Java_im_tox_tox4j_impl_jni_ToxCoreJni_toxFriendAdd''
      [C_JNIEnv_ptr, C_jclass, C_jint, C_jbyteArray, C_jbyteArray],
    Declaration core_jni_class ''toxFriendAddNorequest'' ''(I[B)I'' C_jint
      ''Java_im_tox_tox4j_impl_jni_ToxCoreJni_toxFriendAddNorequest''
      [C_JNIEnv_ptr, C_jclass, C_jint, C_jbyteArray],
    Declaration core_jni_class ''toxFriendDelete'' ''(II)V'' C_void
      ''Java_im_tox_tox4j_impl_jni_ToxCoreJni_toxFriendDelete''
      [C_JNIEnv_ptr, C_jclass, C_jint, C_jint],
    Declaration core_jni_class ''toxFriendByPublicKey'' ''(I[B)I'' C_jint
      ''Java_im_tox_tox4j_impl_jni_ToxCoreJni_toxFriendByPublicKey''
      [C_JNIEnv_ptr, C_jclass, C_jint, C_jbyteArray],
    Declaration core_jni_class ''toxFriendGetPublicKey'' ''(II)[B'' C_jbyteArray
      ''Java_im_tox_tox4j_impl_jni_ToxCoreJni_toxFriendGetPublicKey''
      [C_JNIEnv_ptr, C_jclass, C_jint, C_jint],
    Declaration core_jni_class ''toxFriendExists'' ''(II)Z'' C_jboolean
      ''Java_im_tox_tox4j_impl_jni_ToxCoreJni_toxFriendExists''
      [C_JNIEnv_ptr, C_jclass, C_jint, C_jint],
    Declaration core_jni_class ''toxSelfGetFriendList'' ''(I)[I'' C_jintArray
      ''Java_im_tox_tox4j_impl_jni_ToxCoreJni_toxSelfGetFriendList''
      [C_JNIEnv_ptr, C_jclass, C_jint],
    Declaration core_jni_class ''toxSelfSetTyping'' ''(IIZ)V'' C_void
      ''Java_im_tox_tox4j_impl_jni_ToxCoreJni_toxSelfSetTyping''
      [C_JNIEnv_ptr, C_jclass, C_jint, C_jint, C_jboolean],
    Declaration core_jni_class ''toxFriendSendMessage'' ''(IIII[B)I'' C_jint
      ''Java_im_tox_tox4j_impl_jni_ToxCoreJni_toxFriendSendMessage''
      [C_JNIEnv_ptr, C_jclass, C_jint, C_jint, C_jint, C_jint, C_jbyteArray],
    Declaration core_jni_class ''toxFileControl'' ''(IIII)V'' C_void
      ''Java_im_tox_tox4j_impl_jni_ToxCoreJni_toxFileControl''
      [C_JNIEnv_ptr, C_jclass, C_jint, C_jint, C_jint, C_jint],
    Declaration core_jni_class ''toxFileSeek'' ''(IIIJ)V'' C_void
      ''Java_im_tox_tox4j_impl_jni_ToxCoreJni_toxFileSeek''
      [C_JNIEnv_ptr, C_jclass, C_jint, C_jint, C_jint, C_jlong],
    Declaration core_jni_class ''toxFileSend'' ''(IIIJ[B[B)I'' C_jint
      ''Java_im_tox_tox4j_impl_jni_ToxCoreJni_toxFileSend''
      [C_JNIEnv_ptr, C_jclass, C_jint, C_jint, C_jint, C_jlong, C_jbyteArray, C_jbyteArray],
    Declaration core_jni_class ''toxFileSendChunk'' ''(IIIJ[B)V'' C_void
      ''Java_im_tox_tox4j_impl_jni_ToxCoreJni_toxFileSendChunk''
      [C_JNIEnv_ptr, C_jclass, C_jint, C_jint, C_jint, C_jlong, C_jbyteArray],
    Declaration core_jni_class ''toxFileGetFileId'' ''(III)[B'' C_jbyteArray
      ''Java_im_tox_tox4j_impl_jni_ToxCoreJni_toxFileGetFileId''
      [C_JNIEnv_ptr, C_jclass, C_jint, C_jint, C_jint]]"

definition core_header_3 :: "jni_decl list" where
  "core_header_3 = [
    Declaration core_jni_class ''toxFriendSendLossyPacket'' ''(II[B)V'' C_void
      ''Java_im_tox_tox4j_impl_jni_ToxCoreJni_toxFriendSendLossyPacket''
      [C_JNIEnv_ptr, C_jclass, C_jint, C_jint, C_jbyteArray],
    Declaration core_jni_class ''toxFriendSendLosslessPacket'' ''(II[B)V'' C_void
      ''Java_im_tox_tox4j_impl_jni_ToxCoreJni_toxFriendSendLosslessPacket''
      [C_JNIEnv_ptr, C_jclass, C_jint, C_jint, C_jbyteArray],
    Declaration core_jni_class ''invokeSelfConnectionStatus'' ''(II)V'' C_void
      ''Java_im_tox_tox4j_impl_jni_ToxCoreJni_invokeSelfConnectionStatus''
      [C_JNIEnv_ptr, C_jclass, C_jint, C_jint],
    Declaration core_jni_class ''invokeFileRecvControl'' ''(IIII)V'' C_void
      ''Java_im_tox_tox4j_impl_jni_ToxCoreJni_invokeFileRecvControl''
      [C_JNIEnv_ptr, C_jclass, C_jint, C_jint, C_jint, C_jint],
    Declaration core_jni_class ''invokeFileRecv'' ''(IIIIJ[B)V'' C_void
      ''Java_im_tox_tox4j_impl_jni_ToxCoreJni_invokeFileRecv''
      [C_JNIEnv_ptr, C_jclass, C_jint, C_jint, C_jint, C_jint, C_jlong, C_jbyteArray],
    Declaration core_jni_class ''invokeFileRecvChunk'' ''(IIIJ[B)V'' C_void
      ''Java_im_tox_tox4j_impl_jni_ToxCoreJni_invokeFileRecvChunk''
      [C_JNIEnv_ptr, C_jclass, C_jint, C_jint, C_jint, C_jlong, C_jbyteArray],
    Declaration core_jni_class ''invokeFileChunkRequest'' ''(IIIJI)V'' C_void
      ''Java_im_tox_tox4j_impl_jni_ToxCoreJni_invokeFileChunkRequest''
      [C_JNIEnv_ptr, C_jclass, C_jint, C_jint, C_jint, C_jlong, C_jint],
    Declaration core_jni_class ''invokeFriendConnectionStatus'' ''(III)V'' C_void
      ''Java_im_tox_tox4j_impl_jni_ToxCoreJni_invokeFriendConnectionStatus''
      [C_JNIEnv_ptr, C_jclass, C_jint, C_jint, C_jint],
    Declaration core_jni_class ''invokeFriendLosslessPacket'' ''(II[B)V'' C_void
      ''Java_im_tox_tox4j_impl_jni_ToxCoreJni_invokeFriendLosslessPacket''
      [C_JNIEnv_ptr, C_jclass, C_jint, C_jint, C_jbyteArray],
    Declaration core_jni_class ''invokeFriendLossyPacket'' ''(II[B)V'' C_void
      ''Java_im_tox_tox4j_impl_jni_ToxCoreJni_invokeFriendLossyPacket''
      [C_JNIEnv_ptr, C_jclass, C_jint, C_jint, C_jbyteArray],
    Declaration core_jni_class ''invokeFriendMessage'' ''(IIII[B)V'' C_void
      ''Java_im_tox_tox4j_impl_jni_ToxCoreJni_invokeFriendMessage''
      [C_JNIEnv_ptr, C_jclass, C_jint, C_jint, C_jint, C_jint, C_jbyteArray],
    Declaration core_jni_class ''invokeFriendName'' ''(II[B)V'' C_void
      ''Java_im_tox_tox4j_impl_jni_ToxCoreJni_invokeFriendName''
      [C_JNIEnv_ptr, C_jclass, C_jint, C_jint, C_jbyteArray],
    Declaration core_jni_class ''invokeFriendRequest'' ''(I[BI[B)V'' C_void
      ''Java_im_tox_tox4j_impl_jni_ToxCoreJni_invokeFriendRequest''
      [C_JNIEnv_ptr, C_jclass, C_jint, C_jbyteArray, C_jint, C_jbyteArray],
    Declaration core_jni_class ''invokeFriendStatus'' ''(III)V'' C_void
      ''Java_im_tox_tox4j_impl_jni_ToxCoreJni_invokeFriendStatus''
      [C_JNIEnv_ptr, C_jclass, C_jint, C_jint, C_jint],
    Declaration core_jni_class ''invokeFriendStatusMessage'' ''(II[B)V'' C_void
      ''Java_im_tox_tox4j_impl_jni_ToxCoreJni_invokeFriendStatusMessage''
      [C_JNIEnv_ptr, C_jclass, C_jint, C_jint, C_jbyteArray],
    Declaration core_jni_class ''invokeFriendTyping'' ''(IIZ)V'' C_void
      ''Java_im_tox_tox4j_impl_jni_ToxCoreJni_invokeFriendTyping''
      [C_JNIEnv_ptr, C_jclass, C_jint, C_jint, C_jboolean],
    Declaration core_jni_class ''invokeFriendReadReceipt'' ''(III)V'' C_void
      ''Java_im_tox_tox4j_impl_jni_ToxCoreJni_invokeFriendReadReceipt''
      [C_JNIEnv_ptr, C_jclass, C_jint, C_jint, C_jint],
    Declaration core_jni_class ''tox4jLastLog'' ''()[B'' C_jbyteArray
      ''Java_im_tox_tox4j_impl_jni_ToxCoreJni_tox4jLastLog''
      [C_JNIEnv_ptr, C_jclass]]"

definition core_header_4 :: "jni_decl list" where
  "core_header_4 = [
    Declaration core_jni_class ''tox4jGetCurrentLogSize'' ''()I'' C_jint
      ''Java_im_tox_tox4j_impl_jni_ToxCoreJni_tox4jGetCurrentLogSize''
      [C_JNIEnv_ptr, C_jclass],
    Declaration core_jni_class ''tox4jSetMaxLogSize'' ''(I)V'' C_void
      ''Java_im_tox_tox4j_impl_jni_ToxCoreJni_tox4jSetMaxLogSize''
      [C_JNIEnv_ptr, C_jclass, C_jint],
    Declaration core_jni_class ''tox4jGetMaxLogSize'' ''()I'' C_jint
      ''Java_im_tox_tox4j_impl_jni_ToxCoreJni_tox4jGetMaxLogSize''
      [C_JNIEnv_ptr, C_jclass],
    Declaration core_jni_class ''tox4jSetLogFilter'' ''([Ljava/lang/String;)V'' C_void
      ''Java_im_tox_tox4j_impl_jni_ToxCoreJni_tox4jSetLogFilter''
      [C_JNIEnv_ptr, C_jclass, C_jobjectArray]]"

definition core_header :: "jni_decl list" where
  "core_header = core_header_1 @ core_header_2 @ core_header_3 @ core_header_4"

definition av_jni_class :: string where
  "av_jni_class = ''im_tox_tox4j_impl_jni_ToxAvJni''"

definition av_header :: "jni_decl list" where
  "av_header = [
    Declaration av_jni_class ''toxavNew'' ''(I)I'' C_jint
      ''Java_im_tox_tox4j_impl_jni_ToxAvJni_toxavNew''
      [C_JNIEnv_ptr, C_jclass, C_jint],
    Declaration av_jni_class ''toxavKill'' ''(I)V'' C_void
      ''Java_im_tox_tox4j_impl_jni_ToxAvJni_toxavKill''
      [C_JNIEnv_ptr, C_jclass, C_jint],
    Declaration av_jni_class ''toxavFinalize'' ''(I)V'' C_void
      ''Java_im_tox_tox4j_impl_jni_ToxAvJni_toxavFinalize''
      [C_JNIEnv_ptr, C_jclass, C_jint],
    Declaration av_jni_class ''toxavIterationInterval'' ''(I)I'' C_jint
      ''Java_im_tox_tox4j_impl_jni_ToxAvJni_toxavIterationInterval''
      [C_JNIEnv_ptr, C_jclass, C_jint],
    Declaration av_jni_class ''toxavIterate'' ''(I)[B'' C_jbyteArray
      ''Java_im_tox_tox4j_impl_jni_ToxAvJni_toxavIterate''
      [C_JNIEnv_ptr, C_jclass, C_jint],
    Declaration av_jni_class ''toxavCall'' ''(IIII)V'' C_void
      ''Java_im_tox_tox4j_impl_jni_ToxAvJni_toxavCall''
      [C_JNIEnv_ptr, C_jclass, C_jint, C_jint, C_jint, C_jint],
    Declaration av_jni_class ''toxavAnswer'' ''(IIII)V'' C_void
      ''Java_im_tox_tox4j_impl_jni_ToxAvJni_toxavAnswer''
      [C_JNIEnv_ptr, C_jclass, C_jint, C_jint, C_jint, C_jint],
    Declaration av_jni_class ''toxavCallControl'' ''(III)V'' C_void
      ''Java_im_tox_tox4j_impl_jni_ToxAvJni_toxavCallControl''
      [C_JNIEnv_ptr, C_jclass, C_jint, C_jint, C_jint],
    Declaration av_jni_class ''toxavAudioSetBitRate'' ''(III)V'' C_void
      ''Java_im_tox_tox4j_impl_jni_ToxAvJni_toxavAudioSetBitRate''
      [C_JNIEnv_ptr, C_jclass, C_jint, C_jint, C_jint],
    Declaration av_jni_class ''toxavVideoSetBitRate'' ''(III)V'' C_void
      ''Java_im_tox_tox4j_impl_jni_ToxAvJni_toxavVideoSetBitRate''
      [C_JNIEnv_ptr, C_jclass, C_jint, C_jint, C_jint],
    Declaration av_jni_class ''toxavAudioSendFrame'' ''(II[SIII)V'' C_void
      ''Java_im_tox_tox4j_impl_jni_ToxAvJni_toxavAudioSendFrame''
      [C_JNIEnv_ptr, C_jclass, C_jint, C_jint, C_jshortArray, C_jint, C_jint, C_jint],
    Declaration av_jni_class ''toxavVideoSendFrame'' ''(IIII[B[B[B)V'' C_void
      ''Java_im_tox_tox4j_impl_jni_ToxAvJni_toxavVideoSendFrame''
      [C_JNIEnv_ptr, C_jclass, C_jint, C_jint, C_jint, C_jint, C_jbyteArray, C_jbyteArray, C_jbyteArray],
    Declaration av_jni_class ''invokeAudioReceiveFrame'' ''(II[SII)V'' C_void
      ''Java_im_tox_tox4j_impl_jni_ToxAvJni_invokeAudioReceiveFrame''
      [C_JNIEnv_ptr, C_jclass, C_jint, C_jint, C_jshortArray, C_jint, C_jint],
    Declaration av_jni_class ''invokeAudioBitRate'' ''(III)V'' C_void
      ''Java_im_tox_tox4j_impl_jni_ToxAvJni_invokeAudioBitRate''
      [C_JNIEnv_ptr, C_jclass, C_jint, C_jint, C_jint],
    Declaration av_jni_class ''invokeVideoBitRate'' ''(III)V'' C_void
      ''Java_im_tox_tox4j_impl_jni_ToxAvJni_invokeVideoBitRate''
      [C_JNIEnv_ptr, C_jclass, C_jint, C_jint, C_jint],
    Declaration av_jni_class ''invokeCall'' ''(IIZZ)V'' C_void
      ''Java_im_tox_tox4j_impl_jni_ToxAvJni_invokeCall''
      [C_JNIEnv_ptr, C_jclass, C_jint, C_jint, C_jboolean, C_jboolean],
    Declaration av_jni_class ''invokeCallState'' ''(III)V'' C_void
      ''Java_im_tox_tox4j_impl_jni_ToxAvJni_invokeCallState''
      [C_JNIEnv_ptr, C_jclass, C_jint, C_jint, C_jint],
    Declaration av_jni_class ''invokeVideoReceiveFrame'' ''(IIII[B[B[BIII)V'' C_void
      ''Java_im_tox_tox4j_impl_jni_ToxAvJni_invokeVideoReceiveFrame''
      [C_JNIEnv_ptr, C_jclass, C_jint, C_jint, C_jint, C_jint, C_jbyteArray, C_jbyteArray, C_jbyteArray, C_jint, C_jint, C_jint]]"

definition crypto_jni_class :: string where
  "crypto_jni_class = ''im_tox_tox4j_impl_jni_ToxCryptoJni''"

definition crypto_header :: "jni_decl list" where
  "crypto_header = [
    Declaration crypto_jni_class ''toxPassKeyEncrypt'' ''([B[B)[B'' C_jbyteArray
      ''Java_im_tox_tox4j_impl_jni_ToxCryptoJni_toxPassKeyEncrypt''
      [C_JNIEnv_ptr, C_jclass, C_jbyteArray, C_jbyteArray],
    Declaration crypto_jni_class ''toxGetSalt'' ''([B)[B'' C_jbyteArray
      ''Java_im_tox_tox4j_impl_jni_ToxCryptoJni_toxGetSalt''
      [C_JNIEnv_ptr, C_jclass, C_jbyteArray],
    Declaration crypto_jni_class ''toxIsDataEncrypted'' ''([B)Z'' C_jboolean
      ''Java_im_tox_tox4j_impl_jni_ToxCryptoJni_toxIsDataEncrypted''
      [C_JNIEnv_ptr, C_jclass, C_jbyteArray],
    Declaration crypto_jni_class ''toxPassKeyDeriveWithSalt'' ''([B[B)[B'' C_jbyteArray
      ''Java_im_tox_tox4j_impl_jni_ToxCryptoJni_toxPassKeyDeriveWithSalt''
      [C_JNIEnv_ptr, C_jclass, C_jbyteArray, C_jbyteArray],
    Declaration crypto_jni_class ''toxPassKeyDerive'' ''([B)[B'' C_jbyteArray
      ''Java_im_tox_tox4j_impl_jni_ToxCryptoJni_toxPassKeyDerive''
      [C_JNIEnv_ptr, C_jclass, C_jbyteArray],
    Declaration crypto_jni_class ''toxPassKeyDecrypt'' ''([B[B)[B'' C_jbyteArray
      ''Java_im_tox_tox4j_impl_jni_ToxCryptoJni_toxPassKeyDecrypt''
      [C_JNIEnv_ptr, C_jclass, C_jbyteArray, C_jbyteArray],
    Declaration crypto_jni_class ''toxHash'' ''([B)[B'' C_jbyteArray
      ''Java_im_tox_tox4j_impl_jni_ToxCryptoJni_toxHash''
      [C_JNIEnv_ptr, C_jclass, C_jbyteArray]]"

section \<open>What \<open>javah\<close> generates\<close>

text \<open>
  The declaration of a static native method, for a class given by its name with slashes. No
  method is overloaded, so the symbol has no signature in it.
\<close>

definition javah :: "string \<Rightarrow> java_native \<Rightarrow> jni_decl" where
  "javah cls n =
     Declaration (mangle cls) (native_name n)
       (method_descriptor (native_params n) (native_return n))
       (c_type_of (native_return n))
       (''Java_'' @ mangle cls @ ''_'' @ mangle (native_name n))
       (C_JNIEnv_ptr # C_jclass # map c_type_of (native_params n))"

lemma mangle_plain: "list_all alphanumeric s \<Longrightarrow> mangle s = s"
  by (induction s) (simp_all add: mangle_def mangle_char_def)

lemma mangle_classes:
  "mangle ''im/tox/tox4j/impl/jni/ToxCoreJni'' = core_jni_class"
  "mangle ''im/tox/tox4j/impl/jni/ToxAvJni'' = av_jni_class"
  "mangle ''im/tox/tox4j/impl/jni/ToxCryptoJni'' = crypto_jni_class"
  by (simp_all add: mangle_def mangle_char_def alphanumeric_def core_jni_class_def av_jni_class_def
      crypto_jni_class_def)

lemmas javah_defs = javah_def mangle_classes mangle_plain alphanumeric_def method_descriptor_def

lemma core_header_generated: "map (javah ''im/tox/tox4j/impl/jni/ToxCoreJni'') java_core_natives = core_header"
  by (simp add: java_core_natives_def core_header_def core_header_1_def core_header_2_def core_header_3_def
      core_header_4_def core_jni_class_def javah_defs)

lemma av_header_generated: "map (javah ''im/tox/tox4j/impl/jni/ToxAvJni'') java_av_natives = av_header"
  by (simp add: java_av_natives_def av_header_def av_jni_class_def javah_defs)

lemma crypto_header_generated: "map (javah ''im/tox/tox4j/impl/jni/ToxCryptoJni'') java_crypto_natives = crypto_header"
  by (simp add: java_crypto_natives_def crypto_header_def crypto_jni_class_def javah_defs)

end
