(* ===== verification/Template_Types.thy ===== *)
theory Template_Types
  imports Jni_Declarations Core_Events Av_Events
begin

text \<open>
  What the templates of the library compute about types: which Java arrays can be converted
  (\<open>util/jni/ArrayFromJava.h\<close>, \<open>util/jni/ArrayToJava.h\<close>) and which functions can be registered as
  callbacks (\<open>tox/common.h\<close>). A template that has no matching specialisation, or whose
  \<open>static_assert\<close> fails, is \<open>None\<close> or false: the program does not compile.
\<close>

section \<open>Types\<close>

text \<open>Integers with their width; \<open>char\<close> is a type of its own. Pointers are to constant data or not.\<close>

datatype cpp_type =
    T_void | T_bool | T_char
  | T_uint nat
  | T_sint nat
  | T_float nat
  | T_enum string
  | T_struct string
  | T_ptr cpp_type
  | T_const_ptr cpp_type

abbreviation uint8_t :: cpp_type where "uint8_t \<equiv> T_uint 8"
abbreviation uint16_t :: cpp_type where "uint16_t \<equiv> T_uint 16"
abbreviation uint32_t :: cpp_type where "uint32_t \<equiv> T_uint 32"
abbreviation uint64_t :: cpp_type where "uint64_t \<equiv> T_uint 64"
abbreviation size_t :: cpp_type where "size_t \<equiv> T_uint 64"
abbreviation int16_t :: cpp_type where "int16_t \<equiv> T_sint 16"
abbreviation int32_t :: cpp_type where "int32_t \<equiv> T_sint 32"

text \<open>\<open>std::make_signed\<close>, which has no result for \<open>bool\<close> and for what is not an integer.\<close>

fun make_signed :: "cpp_type \<Rightarrow> cpp_type option" where
  "make_signed T_char = Some (T_sint 8)"
| "make_signed (T_uint n) = Some (T_sint n)"
| "make_signed (T_sint n) = Some (T_sint n)"
| "make_signed _ = None"

fun sizeof :: "cpp_type \<Rightarrow> nat option" where
  "sizeof T_bool = Some 8"
| "sizeof T_char = Some 8"
| "sizeof (T_uint n) = Some n"
| "sizeof (T_sint n) = Some n"
| "sizeof (T_float n) = Some n"
| "sizeof (T_ptr _) = Some 64"
| "sizeof (T_const_ptr _) = Some 64"
| "sizeof _ = None"

section \<open>Arrays\<close>

text \<open>The specialisations of \<open>detail::ArrayFromJava\<close>: Java array, \<open>JType\<close>, \<open>CType\<close>.\<close>

definition ArrayFromJava_types :: "(string \<times> cpp_type \<times> cpp_type) list" where
  "ArrayFromJava_types =
     [(''jbooleanArray'', T_uint 8, T_bool), (''jbyteArray'', T_sint 8, uint8_t),
      (''jcharArray'', T_uint 16, uint16_t), (''jshortArray'', T_sint 16, int16_t),
      (''jintArray'', T_sint 32, int32_t), (''jlongArray'', T_sint 64, T_sint 64),
      (''jfloatArray'', T_float 32, T_float 32), (''jdoubleArray'', T_float 64, T_float 64)]"

text \<open>The assertions in \<open>MakeArrayFromJava::data\<close>.\<close>

definition data_compiles :: "cpp_type \<Rightarrow> cpp_type \<Rightarrow> bool" where
  "data_compiles JType CType \<longleftrightarrow> make_signed CType = Some JType \<and> sizeof JType = sizeof CType"

text \<open>The specialisations of \<open>detail::ArrayToJava\<close>, by \<open>JType\<close>.\<close>

definition ArrayToJava_types :: "(cpp_type \<times> string) list" where
  "ArrayToJava_types =
     [(T_uint 8, ''jbooleanArray''), (T_sint 8, ''jbyteArray''), (T_uint 16, ''jcharArray''),
      (T_sint 16, ''jshortArray''), (T_sint 32, ''jintArray''), (T_sint 64, ''jlongArray''),
      (T_float 32, ''jfloatArray''), (T_float 64, ''jdoubleArray'')]"

text \<open>The array that \<open>toJavaArray\<close> makes of a vector of \<open>T\<close>.\<close>

definition toJavaArray_type :: "cpp_type \<Rightarrow> string option" where
  "toJavaArray_type T =
     Option.bind (make_signed T) (\<lambda>java_type.
     if sizeof T = sizeof java_type then map_of ArrayToJava_types java_type else None)"

definition fromJavaArray_compiles :: "string \<Rightarrow> bool" where
  "fromJavaArray_compiles JavaArray \<longleftrightarrow>
     (case map_of ArrayFromJava_types JavaArray of None \<Rightarrow> False | Some (JType, CType) \<Rightarrow> data_compiles JType CType)"

section \<open>Callbacks\<close>

text \<open>
  \<open>mk_tox_cb\<close>: the parameters of a callback of toxcore between the object and the user data. There
  are specialisations for one to eleven of them.
\<close>

definition mk_tox_cb :: "cpp_type \<Rightarrow> cpp_type list \<Rightarrow> cpp_type list option" where
  "mk_tox_cb Subsystem params =
    (case params of
       p # rest \<Rightarrow>
         if p = T_ptr Subsystem \<and> rest \<noteq> [] \<and> last rest = T_ptr T_void \<and>
            1 \<le> length (butlast rest) \<and> length (butlast rest) \<le> 11
         then Some (butlast rest) else None
     | [] \<Rightarrow> None)"

text \<open>\<open>tox_cb::func::type\<close>: the type a function must have to be registered for it.\<close>

definition callback_type :: "cpp_type \<Rightarrow> cpp_type list \<Rightarrow> cpp_type list" where
  "callback_type UserData Args = Args @ [T_ptr UserData]"

definition set_compiles :: "cpp_type \<Rightarrow> cpp_type \<Rightarrow> cpp_type list \<Rightarrow> cpp_type list \<Rightarrow> bool" where
  "set_compiles Subsystem UserData sig Callback \<longleftrightarrow>
    (case mk_tox_cb Subsystem sig of None \<Rightarrow> False | Some Args \<Rightarrow> Callback = callback_type UserData Args)"

text \<open>The parameters of the functions \<open>tox4j_<name>_cb\<close> before the events.\<close>

fun core_handler_args :: "core_callback_name \<Rightarrow> cpp_type list" where
  "core_handler_args CB_self_connection_status = [T_enum ''TOX_CONNECTION'']"
| "core_handler_args CB_friend_name = [uint32_t, T_const_ptr uint8_t, size_t]"
| "core_handler_args CB_friend_status_message = [uint32_t, T_const_ptr uint8_t, size_t]"
| "core_handler_args CB_friend_status = [uint32_t, T_enum ''TOX_USER_STATUS'']"
| "core_handler_args CB_friend_connection_status = [uint32_t, T_enum ''TOX_CONNECTION'']"
| "core_handler_args CB_friend_typing = [uint32_t, T_bool]"
| "core_handler_args CB_friend_read_receipt = [uint32_t, uint32_t]"
| "core_handler_args CB_friend_request = [T_const_ptr uint8_t, T_const_ptr uint8_t, size_t]"
| "core_handler_args CB_friend_message = [uint32_t, T_enum ''TOX_MESSAGE_TYPE'', T_const_ptr uint8_t, size_t]"
| "core_handler_args CB_file_recv_control = [uint32_t, uint32_t, T_enum ''TOX_FILE_CONTROL'']"
| "core_handler_args CB_file_chunk_request = [uint32_t, uint32_t, uint64_t, size_t]"
| "core_handler_args CB_file_recv = [uint32_t, uint32_t, uint32_t, uint64_t, T_const_ptr uint8_t, size_t]"
| "core_handler_args CB_file_recv_chunk = [uint32_t, uint32_t, uint64_t, T_const_ptr uint8_t, size_t]"
| "core_handler_args CB_friend_lossy_packet = [uint32_t, T_const_ptr uint8_t, size_t]"
| "core_handler_args CB_friend_lossless_packet = [uint32_t, T_const_ptr uint8_t, size_t]"

fun av_handler_args :: "av_callback_name \<Rightarrow> cpp_type list" where
  "av_handler_args CB_call = [uint32_t, T_bool, T_bool]"
| "av_handler_args CB_call_state = [uint32_t, uint32_t]"
| "av_handler_args CB_audio_bit_rate = [uint32_t, uint32_t]"
| "av_handler_args CB_video_bit_rate = [uint32_t, uint32_t]"
| "av_handler_args CB_audio_receive_frame = [uint32_t, T_const_ptr int16_t, size_t, uint8_t, uint32_t]"
| "av_handler_args CB_video_receive_frame =
     [uint32_t, uint16_t, uint16_t, T_const_ptr uint8_t, T_const_ptr uint8_t, T_const_ptr uint8_t,
      int32_t, int32_t, int32_t]"

section \<open>Lemmas\<close>

lemma set_compiles_iff:
  "set_compiles S U sig (Args @ [T_ptr U]) \<longleftrightarrow>
     sig = T_ptr S # Args @ [T_ptr T_void] \<and> 1 \<le> length Args \<and> length Args \<le> 11"
proof -
  have "rest \<noteq> [] \<and> last rest = x \<and> butlast rest = Args \<longleftrightarrow> rest = Args @ [x]" for rest and x :: cpp_type
    by (metis append_butlast_last_id butlast_snoc last_snoc snoc_eq_iff_butlast)
  then show ?thesis
    by (auto simp: set_compiles_def mk_tox_cb_def callback_type_def split: list.split)
qed

text \<open>The arrays of a header: the types of parameters, and of results.\<close>

fun array_name :: "c_type \<Rightarrow> string option" where
  "array_name C_jbooleanArray = Some ''jbooleanArray''"
| "array_name C_jbyteArray = Some ''jbyteArray''"
| "array_name C_jshortArray = Some ''jshortArray''"
| "array_name C_jintArray = Some ''jintArray''"
| "array_name C_jlongArray = Some ''jlongArray''"
| "array_name _ = None"

definition array_params :: "jni_decl list \<Rightarrow> string set" where
  "array_params ds = set (List.map_filter array_name (concat (map decl_params ds)))"

definition array_results :: "jni_decl list \<Rightarrow> string set" where
  "array_results ds = set (List.map_filter (array_name \<circ> decl_return) ds)"

lemmas header_defs =
  core_header_def core_header_1_def core_header_2_def core_header_3_def core_header_4_def
  av_header_def crypto_header_def

section \<open>What compiles\<close>

text \<open>
  Of the eight conversions of Java arrays four can be used, and each of these is inverse to
  \<open>toJavaArray\<close> on types; \<open>boolean\<close>, \<open>char\<close>, \<open>float\<close> and \<open>double\<close> arrays fail the assertions. The native methods
  need only \<open>byte\<close> and \<open>short\<close>; they return arrays made of \<open>char\<close>, \<open>uint8_t\<close> and \<open>jint\<close>.
\<close>

theorem array_conversions_compile:
  "filter fromJavaArray_compiles (map fst ArrayFromJava_types) =
     [''jbyteArray'', ''jshortArray'', ''jintArray'', ''jlongArray'']"
  "map (\<lambda>A. toJavaArray_type (snd (the (map_of ArrayFromJava_types A))))
     (filter fromJavaArray_compiles (map fst ArrayFromJava_types)) =
   map Some (filter fromJavaArray_compiles (map fst ArrayFromJava_types))"
  by (simp_all add: ArrayFromJava_types_def fromJavaArray_compiles_def data_compiles_def
      toJavaArray_type_def ArrayToJava_types_def)

theorem native_arrays_compile:
  "array_params (core_header @ av_header @ crypto_header) = {''jbyteArray'', ''jshortArray''}"
  "array_results (core_header @ av_header @ crypto_header) =
     {A. \<exists>T \<in> {T_char, uint8_t, int32_t}. toJavaArray_type T = Some A}"
proof -
  show "array_params (core_header @ av_header @ crypto_header) = {''jbyteArray'', ''jshortArray''}"
    by (auto simp: array_params_def header_defs map_filter_simps)
  have "array_results (core_header @ av_header @ crypto_header) = {''jbyteArray'', ''jintArray''}"
    by (auto simp: array_results_def header_defs map_filter_simps)
  then show "array_results (core_header @ av_header @ crypto_header) =
      {A. \<exists>T \<in> {T_char, uint8_t, int32_t}. toJavaArray_type T = Some A}"
    by (auto simp: toJavaArray_type_def ArrayToJava_types_def)
qed

text \<open>
  The callbacks compile exactly for one type of the callbacks of toxcore: the parameters of
  the registered function between the object and the user data.
\<close>

theorem callbacks_compile:
  "set_compiles (T_struct ''Tox'') (T_struct ''Events'') sig (core_handler_args name @ [T_ptr (T_struct ''Events'')]) \<longleftrightarrow>
     sig = T_ptr (T_struct ''Tox'') # core_handler_args name @ [T_ptr T_void]"
  "set_compiles (T_struct ''ToxAV'') (T_struct ''Events'') sig (av_handler_args nm @ [T_ptr (T_struct ''Events'')]) \<longleftrightarrow>
     sig = T_ptr (T_struct ''ToxAV'') # av_handler_args nm @ [T_ptr T_void]"
  unfolding set_compiles_iff by (cases name; simp) (cases nm; simp)

end
