(* ===== verification/Instance_Properties.thy ===== *)
theory Instance_Properties
  imports World
begin

text \<open>
  Properties of the instance manager on its own: its operations implement the contract over
  slots, numbers are fresh and are reused in last-in first-out order, dead instances are
  refused, and no sequence of calls loses an object or deletes one twice.
\<close>

section \<open>Sample states\<close>

text \<open>Instance 1 is live, 2 has been killed, 3 has been killed and finalized.\<close>

definition sample_manager :: "(nat, nat) instance_manager" where
  "sample_manager =
     \<lparr>instances = [\<lparr>object_p = Some 10, events_p = Some 11\<rparr>, null_pointers, null_pointers],
      locks = [False, False, False], freelist = [3], deleted = [20, 30]\<rparr>"

definition sample_env :: jenv where
  "sample_env = \<lparr>jvm_of = complete_vm, pending = None\<rparr>"

lemma sample_manager_ok: "manager_inv sample_manager" "unlocked sample_manager" "has_room sample_manager"
  by (simp_all add: sample_manager_def manager_inv_def unlocked_def has_room_def in_table_def
      instance_index_def null_pointers_def paired_def)

lemma sample_env_ready: "call_ready sample_env"
  by (simp add: sample_env_def call_ready_def)

lemma sample_slots:
  "slot_of sample_manager 1 = Live 10 11" "slot_of sample_manager 2 = Killed"
  "slot_of sample_manager 3 = Finalized" "new_number sample_manager = 3"
  "deleted sample_manager = [20, 30]"
  by (simp_all add: sample_manager_def slot_of_def in_table_def instance_index_def null_pointers_def
      new_number_def)

lemma sample_leak: "leaked_message 1 = ''Leaked Tox instance #1''"
  by code_simp

section \<open>Operations\<close>

text \<open>
  C7. \<open>kill\<close> implements its contract on every branch: on a live instance it deletes exactly
  the object of that instance, on a killed one it does nothing, on an invalid number it
  raises the exception of \<open>check_instance_number\<close>; no other slot changes.
\<close>

theorem kill_implements_spec:
  assumes "manager_inv m" and "unlocked m" and "call_ready s"
  shows "\<exists>m'. kill m n s = Done (m', raise_opt (snd (spec_kill (slot_of m) n)) s) \<and>
     slot_of m' = fst (spec_kill (slot_of m) n) \<and> manager_inv m' \<and> unlocked m' \<and>
     deleted m' = deleted m @ dying_objects (slot_of m n) \<and>
     live_objects m' + mset (dying_objects (slot_of m n)) = live_objects m"
  using kill_refines [OF assms] .

theorem kill_implements_spec_witness:
  "\<exists>m'. kill sample_manager 1 sample_env = Done (m', sample_env) \<and>
     slot_of m' = (slot_of sample_manager)(1 := Killed) \<and> deleted m' = [20, 30, 10]"
  using kill_implements_spec [OF sample_manager_ok(1,2) sample_env_ready, of 1]
  by (auto simp: spec_kill_def sample_slots dying_objects_def)

text \<open>
  C8. \<open>finalize\<close> implements its contract on every branch: a killed instance's number becomes
  free, a live instance is reported as leaked and kept, an invalid number raises the
  exception of \<open>check_instance_number\<close>, and nothing is ever deleted.
\<close>

theorem finalize_implements_spec:
  assumes "manager_inv m" and "unlocked m" and "call_ready s"
  shows "\<exists>m'. finalize m n s = Done (m', raise_opt (snd (spec_finalize (slot_of m) n)) s) \<and>
     slot_of m' = fst (spec_finalize (slot_of m) n) \<and> manager_inv m' \<and> unlocked m' \<and>
     deleted m' = deleted m \<and> live_objects m' = live_objects m"
  using finalize_refines [OF assms] .

theorem finalize_implements_spec_witness:
  "\<exists>m'. finalize sample_manager 1 sample_env =
       Done (m', sample_env\<lparr>pending := Some (illegal_state 1 ''Leaked Tox instance #1'')\<rparr>) \<and>
     slot_of m' = slot_of sample_manager"
  using finalize_implements_spec [OF sample_manager_ok(1,2) sample_env_ready, of 1]
  by (auto simp: spec_finalize_def sample_slots sample_leak)

text \<open>
  \<open>add\<close> hands out a number that no live or killed instance has, makes it stand for the new
  object and leaves every other number alone; nothing is deleted.
\<close>

theorem add_gives_fresh_number:
  assumes "manager_inv m" and "unlocked m" and "has_room m"
  shows "\<exists>m'. add m (Some x) (Some ev) s = Done ((new_number m, m'), s) \<and>
     slot_of m (new_number m) \<in> {Unused, Finalized} \<and>
     slot_of m' = (slot_of m)(new_number m := Live x ev) \<and> manager_inv m' \<and> unlocked m' \<and>
     deleted m' = deleted m \<and> live_objects m' = add_mset x (live_objects m)"
  using add_refines [OF assms] by auto

theorem add_gives_fresh_number_witness:
  "\<exists>m'. add sample_manager (Some 40) (Some 41) sample_env = Done ((3, m'), sample_env) \<and>
     slot_of m' = (slot_of sample_manager)(3 := Live 40 41)"
  using add_gives_fresh_number [OF sample_manager_ok, of 40 41 sample_env]
  by (auto simp: sample_slots)

text \<open>
  C26. Numbers are reused in last-in first-out order: after \<open>kill\<close> and \<open>finalize\<close> of a live
  instance the next \<open>add\<close> gives its number to the new object, so a stale Java reference with
  that number would reach the new object.
\<close>

theorem number_is_reused:
  fixes m :: "('o, 'e) instance_manager" and s :: "'z jenv_scheme"
  assumes m: "manager_inv m" "unlocked m" "call_ready s" and live: "slot_of m n = Live x ev"
  shows "\<exists>m'. andThen (kill m n) (\<lambda>m1. andThen (finalize m1 n) (\<lambda>m2. add m2 (Some y) (Some ev'))) s =
       Done ((n, m'), s) \<and> slot_of m' = (slot_of m)(n := Live y ev')"
proof -
  from kill_refines [OF m, of n] live obtain m1 where m1: "kill m n s = Done (m1, s)"
    "slot_of m1 = (slot_of m)(n := Killed)" "manager_inv m1" "unlocked m1"
    by (auto simp: spec_kill_def)
  note fin = finalize_killed [OF m1(3) m(3), of n]
  let ?m2 = "m1\<lparr>freelist := freelist m1 @ [n]\<rparr>"
  have f: "finalize m1 n s = Done (?m2, s)" "manager_inv ?m2" "slot_of ?m2 = (slot_of m1)(n := Finalized)"
    using fin m1(2) by simp_all
  have "unlocked ?m2" "freelist ?m2 \<noteq> []" "new_number ?m2 = n"
    using m1(4) by (simp_all add: new_number_def)
  note r = add_reuse(1,2) [OF f(2) this(1,2), where x = y and ev = ev'] this(3)
  have "add ?m2 (Some y) (Some ev') s = Done ((n, ?m2\<lparr>freelist := butlast (freelist ?m2),
      instances := (instances ?m2)[instance_index n := \<lparr>object_p = Some y, events_p = Some ev'\<rparr>]\<rparr>), s)"
    unfolding r(1) r(3) by simp
  with m1(1,2) f(1,3) r(2,3) show ?thesis by (simp add: andThen_def)
qed

theorem number_is_reused_witness:
  "\<exists>m'. andThen (kill sample_manager 1) (\<lambda>m1. andThen (finalize m1 1) (\<lambda>m2. add m2 (Some 40) (Some 41)))
       sample_env = Done ((1, m'), sample_env) \<and> slot_of m' = (slot_of sample_manager)(1 := Live 40 41)"
  by (rule number_is_reused [OF sample_manager_ok(1,2) sample_env_ready sample_slots(1)])

text \<open>
  C18. An access to an instance that is not live never calls the function: a killed instance
  raises \<open>ToxKilledException\<close>, a number that is null, negative, out of range or finalized
  raises \<open>IllegalStateException\<close>, both with the number in the message, and nothing else of
  the state changes.
\<close>

theorem dead_instance_is_refused:
  fixes s :: "('tox, 'av) world"
  assumes "manager_inv (core_manager s)" and "unlocked (core_manager s)" and "call_ready s"
    and "\<forall>x ev. slot_of (core_manager s) n \<noteq> Live x ev"
  shows "with_instance core_lens d n func s = Done (d, s\<lparr>pending := Some
    (case slot_of (core_manager s) n of
       Killed \<Rightarrow> NewThrowable killed_class (fullMessage n killed_message)
     | Finalized \<Rightarrow> illegal_state n ''accessed instance thought to be garbage collected''
     | _ \<Rightarrow> illegal_state n (if sint n < 0 then ''instance number out of range''
             else if n = 0 then ''function called on null instance''
             else ''function called on invalid instance''))\<rparr>)"
proof -
  have "access_error (slot_of (core_manager s) n) n \<noteq> None"
    using assms(4) by (auto simp: access_error_None)
  from core.with_instance_dead [OF _ assms(3), of n] this assms(1,2)
  have dead: "with_instance core_lens d n func s =
      Done (d, raise_opt (access_error (slot_of (core_manager s) n) n) s)"
    by simp
  show ?thesis
  proof (cases "slot_of (core_manager s) n")
    case Finalized
    with assms(1) have "in_table (core_manager s) n" by (auto elim: slot_of_cases [where n = n])
    with in_table_sint [OF assms(1)] have "\<not> sint n < 0" "n \<noteq> 0" by fastforce+
    with Finalized dead show ?thesis by (simp add: access_error_def complaint_def)
  qed (use dead assms(4) in \<open>simp_all add: access_error_def complaint_def\<close>)
qed

definition killed_world :: "(nat, nat) world" where
  "killed_world = logenv.extend any_log \<lparr>core_manager = empty_manager\<lparr>instances := [null_pointers],
     locks := [False]\<rparr>, av_manager = empty_manager\<rparr>"

theorem dead_instance_is_refused_witness:
  "with_instance core_lens (7 :: nat) 1 (\<lambda>tox ev. fail (UB ''called'')) killed_world =
     Done (7, killed_world\<lparr>pending := Some (NewThrowable killed_class (fullMessage 1 killed_message))\<rparr>)"
proof -
  have slot: "slot_of (core_manager killed_world) 1 = Killed"
    by (simp add: killed_world_def logenv.defs empty_manager_def slot_of_def in_table_def
        instance_index_def null_pointers_def)
  moreover have "manager_inv (core_manager killed_world)" "unlocked (core_manager killed_world)"
      "call_ready killed_world"
    by (simp_all add: killed_world_def logenv.defs empty_manager_def manager_inv_def unlocked_def
        call_ready_def any_log_def null_pointers_def paired_def)
  ultimately show ?thesis
    using dead_instance_is_refused [of killed_world 1 "7 :: nat"] by simp
qed

section \<open>Sequences of calls\<close>

text \<open>
  C5. Every sequence of \<open>add\<close>, \<open>kill\<close>, \<open>finalize\<close> and accesses on the table of Tox objects, with
  whatever numbers, runs to its end with the invariant kept: no assertion fails, no vector
  is read out of range, no mutex is locked twice. The objects still owned and the objects
  deleted together are exactly the objects added, so none is leaked by the manager and
  none is deleted twice.
\<close>

theorem core_manager_runs:
  fixes s :: "('tox, 'av) world"
  assumes "manager_inv (core_manager s)" and "unlocked (core_manager s)" and "vm_basic (jvm_of s)"
    and "length (instances (core_manager s)) + length (added_objects ops) < 2 ^ 31"
    and "list_all (keeps_identity obj_addr) ops"
  shows "\<exists>t. run_ops core_lens ops s = Done ((), t) \<and>
     manager_inv (core_manager t) \<and> unlocked (core_manager t) \<and>
     image_mset obj_addr (live_objects (core_manager t) + mset (deleted (core_manager t))) =
       image_mset obj_addr (live_objects (core_manager s) + mset (deleted (core_manager s))) +
       image_mset obj_addr (mset (added_objects ops))"
  using core.run_ops_safe [of s ops obj_addr] assms by (simp add: accounted_def)

definition sample_tox :: "nat \<Rightarrow> nat tox" where
  "sample_tox i = \<lparr>obj_addr = of_nat i, obj_callbacks = [], obj_state = 0\<rparr>"

definition sample_ops :: "(nat tox, core_events) manager_op list" where
  "sample_ops = [Op_add (sample_tox 100) no_events, Op_kill 1, Op_kill 1, Op_finalize 1,
     Op_access 1 (\<lambda>x ev. (x, ev)), Op_add (sample_tox 200) no_events, Op_finalize 1]"

theorem core_manager_runs_witness:
  "\<exists>t. run_ops core_lens sample_ops killed_world = Done ((), t) \<and>
     image_mset obj_addr (live_objects (core_manager t) + mset (deleted (core_manager t))) = {#100, 200#}"
proof -
  have "manager_inv (core_manager killed_world)" "unlocked (core_manager killed_world)"
      "vm_basic (jvm_of killed_world)" "length (instances (core_manager killed_world)) = 1"
      "live_objects (core_manager killed_world) = {#}" "deleted (core_manager killed_world) = []"
    by (simp_all add: killed_world_def logenv.defs empty_manager_def manager_inv_def unlocked_def
        any_log_def null_pointers_def paired_def live_objects_def owned_def)
  moreover have "added_objects sample_ops = [sample_tox 100, sample_tox 200]"
      "list_all (keeps_identity obj_addr) sample_ops"
    by (simp_all add: sample_ops_def)
  ultimately show ?thesis
    using core_manager_runs [of killed_world sample_ops] by (auto simp: sample_tox_def)
qed

end
