(* ===== verification/Interleavings.thy ===== *)
theory Interleavings
  imports Instance_Locking Instance_Properties
begin

text \<open>
  What the locking of \<open>Instance_Locking\<close> achieves: no call goes on for ever unless the function
  it runs does, and the calls of all threads together have the effect of the sequential
  operations of \<open>Instance_Manager\<close>, one after the other.
\<close>

section \<open>Termination\<close>

text \<open>
  The steps that all threads together still have to make to end their calls, at most, beside
  those of the functions they run.
\<close>

definition active :: "('o, 'e) locking \<Rightarrow> nat set" where
  "active s = {j. pcs s j \<noteq> Idle}"

definition work :: "('o, 'e) locking \<Rightarrow> nat" where
  "work s = (\<Sum>j\<in>active s. remaining (pcs s j))"

text \<open>
  The two kinds of steps on which the locking has no influence: the entry of a new call, and a
  change that the function inside an access makes to its object. A function of toxcore may make
  any number of them and may never return, and Java may start calls for ever.
\<close>

definition enters :: "('o, 'e) pc \<Rightarrow> bool" where
  "enters p \<longleftrightarrow> p = Idle"

definition works :: "('o, 'e) pc \<Rightarrow> ('o, 'e) pc \<Rightarrow> bool" where
  "works p q \<longleftrightarrow> (\<exists>n x ev x' ev'. p = With_call n x ev \<and> q = With_call n x' ev')"

text \<open>
  \<open>runs c f k s t\<close>: a run of \<open>k\<close> steps of any threads in any interleaving, of which \<open>c\<close> enter a new call
  and \<open>f\<close> are changes made by the functions inside accesses.
\<close>

inductive runs :: "nat \<Rightarrow> nat \<Rightarrow> nat \<Rightarrow> ('o, 'e) locking \<Rightarrow> ('o, 'e) locking \<Rightarrow> bool" where
  runs_none: "runs 0 0 0 s s"
| runs_more: "runs c f k s t \<Longrightarrow> lstep j t u \<Longrightarrow>
    runs (c + of_bool (enters (pcs t j))) (f + of_bool (works (pcs t j) (pcs u j))) (Suc k) s u"

lemma remaining_0_iff [simp]: "remaining p = 0 \<longleftrightarrow> p = Idle"
  by (cases p) simp_all

lemma lstep_frame: "lstep i s t \<Longrightarrow> j \<noteq> i \<Longrightarrow> pcs t j = pcs s j"
  by (induction rule: lstep.induct) auto

lemma finite_active_step: "lstep i s t \<Longrightarrow> finite (active s) \<Longrightarrow> finite (active t)"
  by (rule finite_subset [of _ "insert i (active s)"]) (auto simp: active_def dest: lstep_frame)

lemma finite_active: "lreach es s \<Longrightarrow> finite (active s)"
  by (induction rule: lreach.induct) (auto simp: idle_locking_def active_def intro: finite_active_step [unfolded active_def])

lemma runs_reach: "runs c f k s t \<Longrightarrow> lreach es s \<Longrightarrow> lreach es t"
  by (induction rule: runs.induct) (auto intro: lreach_step)

text \<open>Every other step brings the call of its thread nearer to its end.\<close>

lemma lstep_remaining:
  assumes "lstep j s t"
  shows "Suc (remaining (pcs t j)) \<le>
    remaining (pcs s j) + 6 * of_bool (enters (pcs s j)) + of_bool (works (pcs s j) (pcs t j))"
  using assms
proof cases
  case (lock_manager c)
  with remaining_entered [of c] show ?thesis by simp
qed (simp_all add: enters_def works_def)

lemma work_over: "finite A \<Longrightarrow> active s \<subseteq> A \<Longrightarrow> work s = (\<Sum>j\<in>A. remaining (pcs s j))"
  unfolding work_def by (rule sum.mono_neutral_left) (auto simp: active_def)

lemma work_step:
  assumes step: "lstep j s t" and fin: "finite (active s)"
  shows "Suc (work t) \<le> work s + 6 * of_bool (enters (pcs s j)) + of_bool (works (pcs s j) (pcs t j))"
proof -
  let ?A = "insert j (active s)"
  have fA: "finite ?A" using fin by simp
  have "active t \<subseteq> ?A" using lstep_frame [OF step] by (auto simp: active_def)
  note over = work_over [OF fA this] work_over [OF fA subset_insertI]
  have "(\<Sum>i\<in>?A - {j}. remaining (pcs t i)) = (\<Sum>i\<in>?A - {j}. remaining (pcs s i))"
    using lstep_frame [OF step] by (intro sum.cong) auto
  with lstep_remaining [OF step] show ?thesis
    by (simp add: over sum.remove [OF fA insertI1] del: insert_Diff_single)
qed

text \<open>The calls need no more numbers than there are calls.\<close>

lemma numbers_step:
  assumes step: "lstep j s t" and fin: "finite (active s)"
  shows "length (instances (mgr t)) + card (active t) \<le>
    length (instances (mgr s)) + card (active s) + of_bool (enters (pcs s j))"
proof -
  let ?adds = "\<exists>x ev. pcs s j = Add_crit x ev"
  have len: "length (instances (mgr t)) \<le> length (instances (mgr s)) + of_bool ?adds"
    using step
    by cases (auto simp: moved_out_def write_back_def dest: length_instances_add length_instances_finalize)
  have same: "i \<in> active t \<longleftrightarrow> (if i = j then pcs t j \<noteq> Idle else i \<in> active s)" for i
    using lstep_frame [OF step] by (simp add: active_def)
  consider (adds) "?adds" | (enters) "pcs s j = Idle" | (other) "\<not> ?adds" "pcs s j \<noteq> Idle" by blast
  then show ?thesis
  proof cases
    case adds
    with step have "pcs t j = Idle" by (auto elim: lstep.cases)
    then have "active t = active s - {j}" by (intro set_eqI) (simp add: same)
    moreover have "j \<in> active s" using adds by (auto simp: active_def)
    ultimately show ?thesis using len adds fin card_Diff1_less [of "active s" j] by simp
  next
    case enters
    have "card (active t) \<le> card (insert j (active s))"
      by (rule card_mono) (auto simp: fin same split: if_splits)
    with enters len card_insert_le_m1 [of "Suc (card (active s))" "active s" j] show ?thesis
      by (simp add: enters_def)
  next
    case other
    then have "j \<in> active s" by (simp add: active_def)
    then have "active t \<subseteq> active s" by (auto simp: same split: if_splits)
    then have "card (active t) \<le> card (active s)" by (rule card_mono [OF fin])
    with other len show ?thesis by simp
  qed
qed

lemma runs_bounded:
  assumes "runs c f k s t" and "finite (active s)"
  shows "k + work t \<le> work s + 6 * c + f \<and> finite (active t) \<and>
    length (instances (mgr t)) + card (active t) \<le> length (instances (mgr s)) + card (active s) + c"
  using assms
proof (induction rule: runs.induct)
  case (runs_more c f k s t j u)
  then have t: "finite (active t)" by simp
  with runs_more work_step [OF runs_more.hyps(2) t] numbers_step [OF runs_more.hyps(2) t]
    finite_active_step [OF runs_more.hyps(2) t]
  show ?case by simp
qed simp

text \<open>A state in which the threads can only enter new calls or work inside functions.\<close>

definition stalled :: "('o, 'e) locking \<Rightarrow> bool" where
  "stalled t \<longleftrightarrow> (\<forall>j u. lstep j t u \<longrightarrow> enters (pcs t j) \<or> works (pcs t j) (pcs u j))"

lemma stalled_ended:
  assumes inv: "locking_inv t" and fin: "finite (active t)"
    and room: "length (instances (mgr t)) + card (active t) < 2 ^ 31" and "stalled t"
  shows "active t = {}"
proof (rule ccontr)
  assume "active t \<noteq> {}"
  then obtain i where i: "i \<in> active t" by blast
  then have "card (active t) \<noteq> 0" using fin by auto
  with room have "has_room (mgr t)" by (simp add: has_room_def)
  with inside_advances [OF inv, of i] i obtain j u where
    "lstep j t u" "remaining (pcs u j) < remaining (pcs t j)"
    by (auto simp: advances_def active_def)
  moreover from this(1) \<open>stalled t\<close> have "enters (pcs t j) \<or> works (pcs t j) (pcs u j)"
    by (auto simp: stalled_def)
  ultimately show False by (auto simp: enters_def works_def)
qed

lemma runs_prepend:
  "runs c f k t u \<Longrightarrow> lstep j s t \<Longrightarrow> \<not> enters (pcs s j) \<Longrightarrow> \<not> works (pcs s j) (pcs t j) \<Longrightarrow>
   runs c f (Suc k) s u"
proof (induction rule: runs.induct)
  case (runs_none t)
  with runs_more [OF runs.runs_none, of j s t] show ?case by simp
next
  case (runs_more c f k t u i v)
  from runs_more.IH [OF runs_more.prems] runs_more.hyps(2) show ?case by (rule runs.runs_more)
qed

lemma runs_to_end:
  assumes "locking_inv s" and "finite (active s)" and "length (instances (mgr s)) + card (active s) < 2 ^ 31"
  shows "\<exists>k t. runs 0 0 k s t \<and> active t = {}"
  using assms
proof (induction "work s" arbitrary: s rule: less_induct)
  case less
  show ?case
  proof (cases "stalled s")
    case True
    with stalled_ended [OF less.prems] show ?thesis using runs_none by blast
  next
    case False
    then obtain j t where t: "lstep j s t" "\<not> enters (pcs s j)" "\<not> works (pcs s j) (pcs t j)"
      by (auto simp: stalled_def)
    note t' = work_step [OF t(1) less.prems(2)] numbers_step [OF t(1) less.prems(2)]
      finite_active_step [OF t(1) less.prems(2)] locking_inv_step [OF t(1) less.prems(1)]
    with less.prems(3) less.hyps [of t] t(2,3) obtain k u where "runs 0 0 k t u" "active u = {}" by auto
    with runs_prepend [OF _ t] show ?thesis by blast
  qed
qed

lemma ended_unlocked:
  assumes "locking_inv t" and "active t = {}"
  shows "mutex t = None \<and> (\<forall>n. ilock t (instance_index n) = None)"
proof -
  have "pcs t j = Idle" for j using assms(2) by (auto simp: active_def)
  with assms(1) have "mutex t \<noteq> Some j" "ilock t (instance_index n) \<noteq> Some j" for j n
    by (simp_all add: locking_inv_def mutex_inv_def ilock_inv_def)
  then show ?thesis by (metis option.exhaust)
qed

text \<open>
  C6. Termination, as far as it depends on this program. Any run of the threads, in any
  interleaving, makes at most \<open>work s + 6 * c + f\<close> steps when \<open>c\<close> of them enter a new call and \<open>f\<close> are
  changes made by the functions inside accesses. So a run that goes on for ever enters
  infinitely many calls, or a function of toxcore does not return. A run after which nothing
  can happen but the entry of a call or a further change by a function has ended every call,
  and then no mutex is held; and every run can be continued, without either, until that is so.
\<close>

theorem calls_terminate:
  assumes "lreach es s" and "\<And>j. vm_basic (jvm_of (es j))" and "runs c f k s t"
    and "length (instances (mgr s)) + card (active s) + c < 2 ^ 31"
  shows "k + work t \<le> work s + 6 * c + f \<and>
    (stalled t \<longrightarrow> active t = {} \<and> mutex t = None \<and> (\<forall>n. ilock t (instance_index n) = None)) \<and>
    (\<exists>l u. runs 0 0 l t u \<and> active u = {})"
proof -
  note fin = finite_active [OF assms(1)]
  have inv: "locking_inv t" by (rule lreach_inv [OF runs_reach [OF assms(3,1)] assms(2)])
  from runs_bounded [OF assms(3) fin] assms(4) have b: "k + work t \<le> work s + 6 * c + f"
    "finite (active t)" "length (instances (mgr t)) + card (active t) < 2 ^ 31" by simp_all
  with stalled_ended [OF inv b(2,3)] ended_unlocked [OF inv] runs_to_end [OF inv b(2,3)]
  show ?thesis by blast
qed

theorem calls_terminate_witness:
  "\<exists>(s :: (nat, nat) locking) t. lreach example_envs s \<and> pcs s = (\<lambda>_. Idle)(0 := With_call 1 10 11) \<and>
     runs 0 1 2 s t \<and> stalled t \<and> active t = {} \<and> mutex t = None"
proof -
  obtain s :: "(nat, nat) locking" where s: "lreach example_envs s"
     "pcs s = (\<lambda>_. Idle)(0 := With_call 1 10 11)" "length (instances (mgr s)) = 2"
    using example_call by blast
  let ?t = "s\<lparr>pcs := (pcs s)(0 := With_call 1 12 13), mgr := write_back 1 12 13 (mgr s)\<rparr>"
  let ?u = "?t\<lparr>pcs := (pcs ?t)(0 := Idle), ilock := (ilock ?t)(instance_index 1 := None)\<rparr>"
  have "lstep 0 s ?t" by (rule lstep.with_func) (simp add: s(2))
  from runs_more [OF runs_none this] have t: "runs 0 1 1 s ?t" by (simp add: s(2) enters_def works_def)
  have "lstep 0 ?t ?u" by (rule lstep.with_return [where n = 1 and x = 12 and ev = 13]) simp
  from runs_more [OF t this] have u: "runs 0 1 2 s ?u"
    by (simp add: enters_def works_def numeral_2_eq_2)
  have idle: "pcs ?u = (\<lambda>_. Idle)" using s(2) by auto
  then have "enters (pcs ?u j)" for j by (simp only: enters_def)
  then have st: "stalled ?u" unfolding stalled_def by blast
  have "active s = {0}" using s(2) by (auto simp: active_def)
  with calls_terminate [OF s(1) example_envs_basic u] s(3) st
  have "active ?u = {}" "mutex ?u = None" by simp_all
  with s(1,2) u st show ?thesis by blast
qed

section \<open>Serialisation\<close>

text \<open>
  The sequential operation that a step of a thread completes: an \<open>add\<close>, \<open>kill\<close> or \<open>finalize\<close> when it
  releases the manager mutex, an access that is refused when its exception is decided, and
  every change that the function inside an access makes to its object.
\<close>

definition commit :: "('o, 'e) pc \<Rightarrow> ('o, 'e) pc \<Rightarrow> ('o, 'e) manager_op list" where
  "commit p q =
    (case p of
       Add_crit x ev \<Rightarrow> [Op_add x ev]
     | Finalize_crit n \<Rightarrow> [Op_finalize n]
     | Kill_check n \<Rightarrow> (if q = Idle then [Op_kill n] else [])
     | Kill_crit n \<Rightarrow> [Op_kill n]
     | With_check n \<Rightarrow> (if q = Idle then [Op_access n Pair] else [])
     | With_got n xp evp \<Rightarrow> (if xp = None then [Op_access n Pair] else [])
     | With_call n x ev \<Rightarrow> (case q of With_call n' x' ev' \<Rightarrow> [Op_access n (\<lambda>_ _. (x', ev'))] | _ \<Rightarrow> [])
     | _ \<Rightarrow> [])"

text \<open>A run of the threads, with the operations completed so far in the order of their completion.\<close>

inductive committed :: "(nat \<Rightarrow> jenv) \<Rightarrow> ('o, 'e) manager_op list \<Rightarrow> ('o, 'e) locking \<Rightarrow> bool" for es where
  committed_start: "committed es [] (idle_locking es)"
| committed_step: "committed es ops s \<Longrightarrow> lstep i s t \<Longrightarrow>
    committed es (ops @ commit (pcs s i) (pcs t i)) t"

lemma committed_reach: "committed es ops s \<Longrightarrow> lreach es s"
  by (induction rule: committed.induct) (auto intro: lreach.intros)

lemma reach_committed: "lreach es s \<Longrightarrow> \<exists>ops. committed es ops s"
  by (induction rule: lreach.induct) (blast intro: committed.intros)+

text \<open>The operations change the manager in the same way whoever calls them.\<close>

lemma add_same:
  assumes "manager_inv m" and "unlocked m" and "has_room m"
    and "add m (Some x) (Some ev) e = Done ((n, m'), e')"
  shows "e' = e" and "add m (Some x) (Some ev) w = Done ((n, m'), w)"
proof (atomize (full), cases "freelist m = []")
  case True
  show "e' = e \<and> add m (Some x) (Some ev) w = Done ((n, m'), w)"
    using add_fresh(1) [OF assms(1-3) True, of x ev e] add_fresh(1) [OF assms(1-3) True, of x ev w] assms(4)
    by simp
next
  case False
  show "e' = e \<and> add m (Some x) (Some ev) w = Done ((n, m'), w)"
    using add_reuse(1) [OF assms(1,2) False, of x ev e] add_reuse(1) [OF assms(1,2) False, of x ev w] assms(4)
    by simp
qed

lemma kill_same:
  assumes "manager_inv m" and "unlocked m" and "call_ready e"
  shows "kill m n e = Done (if slot_of m n \<in> {Unused, Finalized} then m else moved_out n m,
    raise_opt (snd (spec_kill (slot_of m) n)) e)"
proof -
  note chk = check_instance_number_eq [OF assms(1,3), of n True]
  from assms(1) show ?thesis
  proof (cases rule: slot_of_cases [where n = n])
    case unused
    with chk show ?thesis by (simp add: kill_def andThen_def spec_kill_def)
  next
    case finalized
    with chk show ?thesis by (simp add: kill_def andThen_def spec_kill_def)
  next
    case killed
    with chk assms show ?thesis
      by (simp add: kill_def andThen_def lock_instance_eq vec_at_def instance_index_less
          unlock_instance_def unlocked_list_update complaint_in_table spec_kill_def moved_out_def)
  next
    case (live x ev)
    with chk assms show ?thesis
      by (simp add: kill_def andThen_def lock_instance_eq vec_at_def instance_index_less
          unlock_instance_def unlocked_list_update complaint_in_table spec_kill_def moved_out_def)
  qed
qed

lemma finalize_same:
  assumes "manager_inv m" and "unlocked m" and "call_ready e"
  shows "finalize m n e = Done (if slot_of m n = Killed then m\<lparr>freelist := freelist m @ [n]\<rparr> else m,
    raise_opt (snd (spec_finalize (slot_of m) n)) e)"
proof (cases "slot_of m n = Killed")
  case True
  with finalize_killed(1) [OF assms(1,3)] show ?thesis by (simp add: spec_finalize_def)
next
  case False
  note chk = check_instance_number_eq [OF assms(1,3), of n True]
  from assms(1) show ?thesis
  proof (cases rule: slot_of_cases [where n = n])
    case (live x ev)
    with chk assms(3) manager_invD(3) [OF assms(1) live(1)] complaint_in_table [OF assms(1) live(1), of "Live x ev" True]
    show ?thesis
      by (simp add: finalize_def andThen_def vec_at_in_table pointers_bool_paired throw_illegal_state_Done
          spec_finalize_def)
  qed (use False chk in \<open>simp_all add: finalize_def andThen_def spec_finalize_def\<close>)
qed

context manager_lens
begin

text \<open>What thread \<open>i\<close> makes of a step is what the sequential operation makes of the same manager.\<close>

definition simulates :: "('o, 'e) manager_op \<Rightarrow> 'z jenv_scheme \<Rightarrow> nat \<Rightarrow> ('o, 'e) locking \<Rightarrow> bool" where
  "simulates op w i t \<longleftrightarrow>
     (\<exists>w'. run_op L op w = Done ((), w') \<and> lget L w' = mgr t \<and> jvm_of w' = jvm_of w \<and>
        (pcs t i = Idle \<longrightarrow> pending w' = pending (envs t i)) \<and>
        (\<forall>n. pcs t i = With_dead n \<longrightarrow>
           pending w' = Some (NewThrowable killed_class (fullMessage n killed_message))))"

lemma simulatesI:
  assumes "run_op L op w = Done ((), w')" and "lget L w' = mgr t" and "jvm_of w' = jvm_of w"
    and "pcs t i = Idle \<Longrightarrow> pending w' = pending (envs t i)"
    and "\<And>n. pcs t i = With_dead n \<Longrightarrow>
      pending w' = Some (NewThrowable killed_class (fullMessage n killed_message))"
  shows "simulates op w i t"
  using assms by (auto simp: simulates_def)

lemma raise_opt_pending: "pending w = None \<Longrightarrow> pending (raise_opt t w) = t"
  by (cases t) simp_all

lemma refused_access:
  assumes "manager_ok w" and "call_ready w" and "\<forall>x ev. slots_in w n \<noteq> Live x ev"
  shows "run_op L (Op_access n f) w = Done ((), raise_opt (access_error (slots_in w n) n) w)"
proof -
  have "access_error (slots_in w n) n \<noteq> None"
    using assms(3) by (cases "slots_in w n") (auto simp: access_error_def complaint_def)
  with with_instance_dead [OF assms(1,2)] show ?thesis by simp
qed

lemma commit_simulates:
  assumes step: "lstep i s t" and inv: "locking_inv s" and w: "lget L w = mgr s" "call_ready w"
  shows "(commit (pcs s i) (pcs t i) = [] \<and> mgr t = mgr s) \<or>
    (\<exists>op. commit (pcs s i) (pcs t i) = [op] \<and> simulates op w i t)"
  using step
proof cases
  have m: "manager_inv (mgr s)" "unlocked (mgr s)" and ok: "manager_ok w"
    and pc: "pc_ok (slot_of (mgr s)) (pcs s i)"
    and ready: "pcs s i \<noteq> Idle \<Longrightarrow> call_ready (envs s i)"
    using inv by (simp_all add: locking_inv_def slots_inv_def manager_ok_def w envs_call_ready)
  have wp: "pending w = None" using w(2) by (simp add: call_ready_def)
  have wput: "lput L (mgr s) w = w" using put_get [of w] w(1) by simp
  {
    case (add_instance x ev n m' e')
    note r = add_same [OF m add_instance(3,4)]
    have "run_op L (Op_add x ev) w = Done ((), lput L m' w)"
      using r(2) [of w] w(1) by (simp add: on_manager_def andThen_def)
    moreover have "pending e' = None" using r(1) ready add_instance(2) by (simp add: call_ready_def)
    ultimately show ?thesis using add_instance wp by (auto simp: commit_def intro!: simulatesI)
  next
    case (finalize_instance n m' e')
    then have e: "call_ready (envs s i)" using ready by simp
    note r = finalize_same [OF m e, of n] finalize_same [OF m w(2), of n]
    have "run_op L (Op_finalize n) w = Done ((), raise_opt (snd (spec_finalize (slot_of (mgr s)) n)) (lput L m' w))"
      using r w(1) finalize_instance(3) by (simp add: on_manager_def andThen_def)
    moreover have "pending e' = snd (spec_finalize (slot_of (mgr s)) n)"
      using r(1) finalize_instance(3) e by (auto simp: raise_opt_pending call_ready_def)
    ultimately show ?thesis using finalize_instance wp
      by (auto simp: commit_def raise_opt_pending intro!: simulatesI)
  next
    case (kill_refused n e')
    then have e: "call_ready (envs s i)" using ready by simp
    note chk = check_instance_number_eq [OF m(1) e, of n True]
    have dead: "slot_of (mgr s) n \<in> {Unused, Finalized}" using chk kill_refused(3) by auto
    with kill_same [OF m w(2), of n] w(1)
    have "run_op L (Op_kill n) w = Done ((), raise_opt (snd (spec_kill (slot_of (mgr s)) n)) w)"
      by (auto simp: on_manager_def andThen_def wput)
    moreover have "pending e' = snd (spec_kill (slot_of (mgr s)) n)"
      using chk kill_refused(3) e dead by (auto simp: raise_opt_pending call_ready_def spec_kill_def)
    ultimately show ?thesis using kill_refused wp w(1)
      by (auto simp: commit_def raise_opt_pending intro!: simulatesI)
  next
    case (kill_destroy n)
    then have e: "call_ready (envs s i)" using ready by simp
    from kill_destroy pc have "slot_of (mgr s) n \<notin> {Unused, Finalized}" by simp
    with kill_same [OF m w(2), of n] w(1) have "run_op L (Op_kill n) w = Done ((), lput L (moved_out n (mgr s)) w)"
      by (cases "slot_of (mgr s) n") (simp_all add: on_manager_def andThen_def spec_kill_def)
    with kill_destroy wp e show ?thesis by (auto simp: commit_def call_ready_def intro!: simulatesI)
  next
    case (with_refused n e')
    then have e: "call_ready (envs s i)" using ready by simp
    note chk = check_instance_number_eq [OF m(1) e, of n False]
    have dead: "slot_of (mgr s) n \<in> {Unused, Finalized}" using chk with_refused(3) by auto
    with refused_access [OF ok w(2), of n Pair] w(1)
    have "run_op L (Op_access n Pair) w = Done ((), raise_opt (access_error (slot_of (mgr s) n) n) w)" by auto
    moreover have "pending e' = access_error (slot_of (mgr s) n) n"
      using chk with_refused(3) e dead by (auto simp: raise_opt_pending call_ready_def access_error_def)
    ultimately show ?thesis using with_refused wp w(1)
      by (auto simp: commit_def raise_opt_pending intro!: simulatesI)
  next
    case (with_unlock_killed n)
    with pc have killed: "slot_of (mgr s) n = Killed" by simp
    with refused_access [OF ok w(2), of n Pair] w(1)
    have "run_op L (Op_access n Pair) w = Done ((), raise_opt (access_error (slot_of (mgr s) n) n) w)" by simp
    with with_unlock_killed wp w(1) killed show ?thesis
      by (auto simp: commit_def raise_opt_pending access_error_def intro!: simulatesI)
  next
    case (with_func n x ev x' ev')
    with pc have live: "slots_in w n = Live x ev" by (simp add: w)
    have "unlock_instance n (write_back n x' ev' (lock_held n (mgr s))) = write_back n x' ev' (mgr s)"
      using unlocked_list_update [OF m(2)]
      by (simp add: unlock_instance_def write_back_def lock_held_def)
    then have "run_op L (Op_access n (\<lambda>_ _. (x', ev'))) w = Done ((), lput L (write_back n x' ev' (mgr s)) w)"
      by (simp add: with_instance_live [OF ok w(2) live] andThen_def w)
    with with_func wp show ?thesis by (auto simp: commit_def intro!: simulatesI)
  }
qed (auto simp: commit_def)

lemma run_ops_append:
  "run_ops L (ops @ ops') = andThen (run_ops L ops) (\<lambda>_. run_ops L ops')"
  by (induction ops) (simp_all add: andThen_assoc del: ret_apply)

lemma committed_serial:
  assumes "committed es ops s" and vm: "\<And>j. vm_basic (jvm_of (es j))"
    and w: "lget L w = empty_manager" "vm_basic (jvm_of w)"
  shows "\<exists>w'. run_ops L ops w = Done ((), w') \<and> lget L w' = mgr s \<and> vm_basic (jvm_of w')"
  using assms(1)
proof (induction rule: committed.induct)
  case committed_start
  show ?case using w by (simp add: idle_locking_def)
next
  case (committed_step ops s i t)
  then obtain w' where w': "run_ops L ops w = Done ((), w')" "lget L w' = mgr s" "vm_basic (jvm_of w')" by blast
  let ?w = "w'\<lparr>pending := None\<rparr>"
  have inv: "locking_inv s" by (rule lreach_inv [OF committed_reach [OF committed_step.hyps(1)] vm])
  from commit_simulates [OF committed_step.hyps(2) inv, of ?w] w'(2,3)
  consider (idle) "commit (pcs s i) (pcs t i) = []" "mgr t = mgr s"
    | (op) op where "commit (pcs s i) (pcs t i) = [op]" "simulates op ?w i t"
    by (auto simp: call_ready_def)
  then show ?case
  proof cases
    case idle
    with w' show ?thesis by simp
  next
    case op
    from op(2) obtain v where "run_op L op ?w = Done ((), v)" "lget L v = mgr t" "jvm_of v = jvm_of w'"
      by (auto simp: simulates_def)
    with w' op(1) show ?thesis
      by (simp add: run_ops_append andThen_def clear_exception_def)
  qed
qed

end

lemma core_simulates:
  fixes w :: "('tox, 'av) world"
  shows "manager_lens.simulates core_lens op w i t \<longleftrightarrow>
    (\<exists>w'. run_op core_lens op w = Done ((), w') \<and> core_manager w' = mgr t \<and> jvm_of w' = jvm_of w \<and>
       (pcs t i = Idle \<longrightarrow> pending w' = pending (envs t i)) \<and>
       (\<forall>n. pcs t i = With_dead n \<longrightarrow>
          pending w' = Some (NewThrowable killed_class (fullMessage n killed_message))))"
  using core.simulates_def [of op w i t] by simp

text \<open>A run of one thread that adds an object, up to the step before its end and one step more.\<close>

lemma example_add:
  "\<exists>s t :: (nat tox, core_events) locking. committed example_envs [] s \<and> mgr s = empty_manager \<and>
     pcs s 0 = Add_crit (sample_tox 100) no_events \<and> lstep 0 s t \<and> pcs t 0 = Idle \<and>
     pending (envs t 0) = None \<and> slot_of (mgr t) 1 = Live (sample_tox 100) no_events"
proof -
  let ?c = "Call_add (sample_tox 100) no_events" and ?e = "(example_envs 0)\<lparr>pending := None\<rparr>"
  let ?a = "idle_locking example_envs :: (nat tox, core_events) locking"
  let ?b = "?a\<lparr>pcs := (pcs ?a)(0 := Want ?c), envs := (envs ?a)(0 := ?e)\<rparr>"
  let ?s = "?b\<lparr>pcs := (pcs ?b)(0 := Add_crit (sample_tox 100) no_events), mutex := Some 0\<rparr>"
  have m: "mgr ?s = empty_manager" and e: "envs ?s 0 = ?e" by (simp_all add: idle_locking_def)
  have "lstep 0 ?a ?b" using enter_call [of ?a 0 ?c] by (simp add: idle_locking_def)
  from committed_step [OF committed_start this] have s1: "committed example_envs [] ?b"
    by (simp add: commit_def idle_locking_def)
  have "lstep 0 ?b ?s" using lock_manager [of ?b 0 ?c] by (simp add: idle_locking_def)
  from committed_step [OF s1 this] have s: "committed example_envs [] ?s"
    by (simp add: commit_def)
  have em: "manager_inv (empty_manager :: (nat tox, core_events) instance_manager)" "unlocked empty_manager"
      "has_room empty_manager" "new_number empty_manager = 1"
    by (simp_all add: empty_manager_def manager_inv_def unlocked_def has_room_def new_number_def)
  from add_refines [OF em(1) em(2,3) , of "sample_tox 100" no_events ?e] em(4) obtain m' where
    m': "add empty_manager (Some (sample_tox 100)) (Some no_events) ?e = Done ((1, m'), ?e)"
      "slot_of m' = (slot_of empty_manager)(1 := Live (sample_tox 100) no_events)" by auto
  let ?t = "?s\<lparr>pcs := (pcs ?s)(0 := Idle), mutex := None, mgr := m', envs := (envs ?s)(0 := ?e)\<rparr>"
  have "lstep 0 ?s ?t"
    using add_instance [of ?s 0 "sample_tox 100" no_events 1 m' ?e] m' em(3) m e by simp
  with s m m' show ?thesis by (intro exI [of _ ?s] exI [of _ ?t]) simp
qed

definition empty_world :: "(nat, nat) world" where
  "empty_world = killed_world\<lparr>core_manager := empty_manager\<rparr>"

lemma empty_world_simps: "core_manager empty_world = empty_manager" "vm_basic (jvm_of empty_world)" "call_ready empty_world"
  by (simp_all add: empty_world_def killed_world_def logenv.defs any_log_def call_ready_def)

text \<open>
  C4. Serialisation: whatever the interleaving, the table of Tox objects is at every moment the
  one that the completed operations, executed by one thread one after the other in the
  order of their completion, make of the empty table.
\<close>

theorem calls_serialise:
  fixes s :: "('tox tox, core_events) locking" and w :: "('tox, 'av) world"
  assumes "committed es ops s" and "\<And>j. vm_basic (jvm_of (es j))"
    and "core_manager w = empty_manager" and "vm_basic (jvm_of w)"
  shows "\<exists>w'. run_ops core_lens ops w = Done ((), w') \<and> core_manager w' = mgr s"
  using core.committed_serial [OF assms(1,2), of w] assms(3,4) by auto

theorem calls_serialise_witness:
  "\<exists>(t :: (nat tox, core_events) locking) w'. committed example_envs [Op_add (sample_tox 100) no_events] t \<and>
     run_ops core_lens [Op_add (sample_tox 100) no_events] empty_world = Done ((), w') \<and>
     core_manager w' = mgr t \<and> slot_of (core_manager w') 1 = Live (sample_tox 100) no_events"
proof -
  obtain s t :: "(nat tox, core_events) locking" where s: "committed example_envs [] s"
      "pcs s 0 = Add_crit (sample_tox 100) no_events" "lstep 0 s t"
      "slot_of (mgr t) 1 = Live (sample_tox 100) no_events"
    using example_add by blast
  from committed_step [OF s(1,3)] s(2)
  have t: "committed example_envs [Op_add (sample_tox 100) no_events] t" by (simp add: commit_def)
  from calls_serialise [OF t example_envs_basic empty_world_simps(1,2)] s(4) t show ?thesis by auto
qed

text \<open>
  A step of a thread that completes an operation does to the table, and raises, what the
  sequential operation does and raises on the same table: the exception is in the
  environment of the thread when the call has ended, and an access to a killed instance
  raises its exception even if the number is given to a new object meanwhile.
\<close>

theorem call_steps_are_atomic:
  fixes s :: "('tox tox, core_events) locking" and w :: "('tox, 'av) world"
  assumes "lreach es s" and "\<And>j. vm_basic (jvm_of (es j))" and "lstep i s t"
    and "core_manager w = mgr s" and "call_ready w"
  shows "(commit (pcs s i) (pcs t i) = [] \<and> mgr t = mgr s) \<or>
    (\<exists>op w'. commit (pcs s i) (pcs t i) = [op] \<and> run_op core_lens op w = Done ((), w') \<and>
       core_manager w' = mgr t \<and> (pcs t i = Idle \<longrightarrow> pending w' = pending (envs t i)) \<and>
       (\<forall>n. pcs t i = With_dead n \<longrightarrow>
          pending w' = Some (NewThrowable killed_class (fullMessage n killed_message))))"
  using core.commit_simulates [OF assms(3) lreach_inv [OF assms(1,2)], of w] assms(4,5)
  by (auto simp: core_simulates)

theorem call_steps_are_atomic_witness:
  "\<exists>(s :: (nat tox, core_events) locking) t w'. lreach example_envs s \<and> lstep 0 s t \<and>
     run_op core_lens (Op_add (sample_tox 100) no_events) empty_world = Done ((), w') \<and>
     core_manager w' = mgr t \<and> pending w' = None"
proof -
  obtain s t :: "(nat tox, core_events) locking" where s: "committed example_envs [] s" "mgr s = empty_manager"
      "pcs s 0 = Add_crit (sample_tox 100) no_events" "lstep 0 s t" "pcs t 0 = Idle" "pending (envs t 0) = None"
    using example_add by blast
  note r = committed_reach [OF s(1)]
  have "commit (pcs s 0) (pcs t 0) = [Op_add (sample_tox 100) no_events]" by (simp add: s(3) commit_def)
  with call_steps_are_atomic [OF r example_envs_basic s(4), of empty_world] s(2,5,6) empty_world_simps
  have "\<exists>w'. run_op core_lens (Op_add (sample_tox 100) no_events) empty_world = Done ((), w') \<and>
     core_manager w' = mgr t \<and> pending w' = None" by auto
  with r s(4) show ?thesis by blast
qed

end
