(* ===== verification/Av_Errors.thy ===== *)
theory Av_Errors
  imports Error_Codes
begin

text \<open>
  \<open>ToxAv/generated/errors.cpp\<close>: for each error enumeration of the subsystem, what
  \<open>HANDLE\<close> defines (the meaning of every code and the name of the exception), and that it
  meets the contract \<open>error_codes\<close>. \<open>error_value\<close> is the integer value of the C enumerator;
  it is read only for \<open>OK\<close> (0) and for values outside the enumeration.
\<close>

datatype TOXAV_ERR_ANSWER =
    TOXAV_ERR_ANSWER_OK
  | TOXAV_ERR_ANSWER_CODEC_INITIALIZATION
  | TOXAV_ERR_ANSWER_FRIEND_NOT_CALLING
  | TOXAV_ERR_ANSWER_FRIEND_NOT_FOUND
  | TOXAV_ERR_ANSWER_INVALID_BIT_RATE
  | TOXAV_ERR_ANSWER_SYNC
  | TOXAV_ERR_ANSWER_OTHER jint

fun handle_TOXAV_ERR_ANSWER :: "TOXAV_ERR_ANSWER \<Rightarrow> ErrorHandling" where
  "handle_TOXAV_ERR_ANSWER TOXAV_ERR_ANSWER_OK = success"
| "handle_TOXAV_ERR_ANSWER TOXAV_ERR_ANSWER_CODEC_INITIALIZATION = failure ''CODEC_INITIALIZATION''"
| "handle_TOXAV_ERR_ANSWER TOXAV_ERR_ANSWER_FRIEND_NOT_CALLING = failure ''FRIEND_NOT_CALLING''"
| "handle_TOXAV_ERR_ANSWER TOXAV_ERR_ANSWER_FRIEND_NOT_FOUND = failure ''FRIEND_NOT_FOUND''"
| "handle_TOXAV_ERR_ANSWER TOXAV_ERR_ANSWER_INVALID_BIT_RATE = failure ''INVALID_BIT_RATE''"
| "handle_TOXAV_ERR_ANSWER TOXAV_ERR_ANSWER_SYNC = failure ''SYNC''"
| "handle_TOXAV_ERR_ANSWER (TOXAV_ERR_ANSWER_OTHER _) = unhandled"

fun value_TOXAV_ERR_ANSWER :: "TOXAV_ERR_ANSWER \<Rightarrow> jint" where
  "value_TOXAV_ERR_ANSWER (TOXAV_ERR_ANSWER_OTHER n) = n"
| "value_TOXAV_ERR_ANSWER _ = 0"

definition toxav_err_answer_enum :: "TOXAV_ERR_ANSWER error_enum" where
  "toxav_err_answer_enum =
     \<lparr>handle_error_enum = handle_TOXAV_ERR_ANSWER, method_name = ''Answer'', error_value = value_TOXAV_ERR_ANSWER\<rparr>"

interpretation toxav_err_answer: error_codes toxav_err_answer_enum TOXAV_ERR_ANSWER_OK TOXAV_ERR_ANSWER_OTHER
proof
  note defs = toxav_err_answer_enum_def handling_defs
  fix e e' :: TOXAV_ERR_ANSWER
  show "code_result toxav_err_answer_enum e = SUCCESS \<longleftrightarrow> e = TOXAV_ERR_ANSWER_OK" by (cases e) (simp_all add: defs)
  show "code_result toxav_err_answer_enum e = UNHANDLED \<longleftrightarrow> (\<exists>n. e = TOXAV_ERR_ANSWER_OTHER n)"
    by (cases e) (simp_all add: defs)
  show "code_error toxav_err_answer_enum e \<noteq> None \<longleftrightarrow> code_result toxav_err_answer_enum e = FAILURE"
    by (cases e) (simp_all add: defs)
  show "code_error toxav_err_answer_enum e = code_error toxav_err_answer_enum e' \<Longrightarrow> e = e'" if "code_result toxav_err_answer_enum e = FAILURE"
    using that by (cases e; cases e'; simp add: defs)
qed (simp add: toxav_err_answer_enum_def)

datatype TOXAV_ERR_BIT_RATE_SET =
    TOXAV_ERR_BIT_RATE_SET_OK
  | TOXAV_ERR_BIT_RATE_SET_FRIEND_NOT_FOUND
  | TOXAV_ERR_BIT_RATE_SET_FRIEND_NOT_IN_CALL
  | TOXAV_ERR_BIT_RATE_SET_INVALID_BIT_RATE
  | TOXAV_ERR_BIT_RATE_SET_SYNC
  | TOXAV_ERR_BIT_RATE_SET_OTHER jint

fun handle_TOXAV_ERR_BIT_RATE_SET :: "TOXAV_ERR_BIT_RATE_SET \<Rightarrow> ErrorHandling" where
  "handle_TOXAV_ERR_BIT_RATE_SET TOXAV_ERR_BIT_RATE_SET_OK = success"
| "handle_TOXAV_ERR_BIT_RATE_SET TOXAV_ERR_BIT_RATE_SET_FRIEND_NOT_FOUND = failure ''FRIEND_NOT_FOUND''"
| "handle_TOXAV_ERR_BIT_RATE_SET TOXAV_ERR_BIT_RATE_SET_FRIEND_NOT_IN_CALL = failure ''FRIEND_NOT_IN_CALL''"
| "handle_TOXAV_ERR_BIT_RATE_SET TOXAV_ERR_BIT_RATE_SET_INVALID_BIT_RATE = failure ''INVALID_BIT_RATE''"
| "handle_TOXAV_ERR_BIT_RATE_SET TOXAV_ERR_BIT_RATE_SET_SYNC = failure ''SYNC''"
| "handle_TOXAV_ERR_BIT_RATE_SET (TOXAV_ERR_BIT_RATE_SET_OTHER _) = unhandled"

fun value_TOXAV_ERR_BIT_RATE_SET :: "TOXAV_ERR_BIT_RATE_SET \<Rightarrow> jint" where
  "value_TOXAV_ERR_BIT_RATE_SET (TOXAV_ERR_BIT_RATE_SET_OTHER n) = n"
| "value_TOXAV_ERR_BIT_RATE_SET _ = 0"

definition toxav_err_bit_rate_set_enum :: "TOXAV_ERR_BIT_RATE_SET error_enum" where
  "toxav_err_bit_rate_set_enum =
     \<lparr>handle_error_enum = handle_TOXAV_ERR_BIT_RATE_SET, method_name = ''BitRateSet'', error_value = value_TOXAV_ERR_BIT_RATE_SET\<rparr>"

interpretation toxav_err_bit_rate_set: error_codes toxav_err_bit_rate_set_enum TOXAV_ERR_BIT_RATE_SET_OK TOXAV_ERR_BIT_RATE_SET_OTHER
proof
  note defs = toxav_err_bit_rate_set_enum_def handling_defs
  fix e e' :: TOXAV_ERR_BIT_RATE_SET
  show "code_result toxav_err_bit_rate_set_enum e = SUCCESS \<longleftrightarrow> e = TOXAV_ERR_BIT_RATE_SET_OK" by (cases e) (simp_all add: defs)
  show "code_result toxav_err_bit_rate_set_enum e = UNHANDLED \<longleftrightarrow> (\<exists>n. e = TOXAV_ERR_BIT_RATE_SET_OTHER n)"
    by (cases e) (simp_all add: defs)
  show "code_error toxav_err_bit_rate_set_enum e \<noteq> None \<longleftrightarrow> code_result toxav_err_bit_rate_set_enum e = FAILURE"
    by (cases e) (simp_all add: defs)
  show "code_error toxav_err_bit_rate_set_enum e = code_error toxav_err_bit_rate_set_enum e' \<Longrightarrow> e = e'" if "code_result toxav_err_bit_rate_set_enum e = FAILURE"
    using that by (cases e; cases e'; simp add: defs)
qed (simp add: toxav_err_bit_rate_set_enum_def)

datatype TOXAV_ERR_CALL_CONTROL =
    TOXAV_ERR_CALL_CONTROL_OK
  | TOXAV_ERR_CALL_CONTROL_FRIEND_NOT_FOUND
  | TOXAV_ERR_CALL_CONTROL_FRIEND_NOT_IN_CALL
  | TOXAV_ERR_CALL_CONTROL_INVALID_TRANSITION
  | TOXAV_ERR_CALL_CONTROL_SYNC
  | TOXAV_ERR_CALL_CONTROL_OTHER jint

fun handle_TOXAV_ERR_CALL_CONTROL :: "TOXAV_ERR_CALL_CONTROL \<Rightarrow> ErrorHandling" where
  "handle_TOXAV_ERR_CALL_CONTROL TOXAV_ERR_CALL_CONTROL_OK = success"
| "handle_TOXAV_ERR_CALL_CONTROL TOXAV_ERR_CALL_CONTROL_FRIEND_NOT_FOUND = failure ''FRIEND_NOT_FOUND''"
| "handle_TOXAV_ERR_CALL_CONTROL TOXAV_ERR_CALL_CONTROL_FRIEND_NOT_IN_CALL = failure ''FRIEND_NOT_IN_CALL''"
| "handle_TOXAV_ERR_CALL_CONTROL TOXAV_ERR_CALL_CONTROL_INVALID_TRANSITION = failure ''INVALID_TRANSITION''"
| "handle_TOXAV_ERR_CALL_CONTROL TOXAV_ERR_CALL_CONTROL_SYNC = failure ''SYNC''"
| "handle_TOXAV_ERR_CALL_CONTROL (TOXAV_ERR_CALL_CONTROL_OTHER _) = unhandled"

fun value_TOXAV_ERR_CALL_CONTROL :: "TOXAV_ERR_CALL_CONTROL \<Rightarrow> jint" where
  "value_TOXAV_ERR_CALL_CONTROL (TOXAV_ERR_CALL_CONTROL_OTHER n) = n"
| "value_TOXAV_ERR_CALL_CONTROL _ = 0"

definition toxav_err_call_control_enum :: "TOXAV_ERR_CALL_CONTROL error_enum" where
  "toxav_err_call_control_enum =
     \<lparr>handle_error_enum = handle_TOXAV_ERR_CALL_CONTROL, method_name = ''CallControl'', error_value = value_TOXAV_ERR_CALL_CONTROL\<rparr>"

interpretation toxav_err_call_control: error_codes toxav_err_call_control_enum TOXAV_ERR_CALL_CONTROL_OK TOXAV_ERR_CALL_CONTROL_OTHER
proof
  note defs = toxav_err_call_control_enum_def handling_defs
  fix e e' :: TOXAV_ERR_CALL_CONTROL
  show "code_result toxav_err_call_control_enum e = SUCCESS \<longleftrightarrow> e = TOXAV_ERR_CALL_CONTROL_OK" by (cases e) (simp_all add: defs)
  show "code_result toxav_err_call_control_enum e = UNHANDLED \<longleftrightarrow> (\<exists>n. e = TOXAV_ERR_CALL_CONTROL_OTHER n)"
    by (cases e) (simp_all add: defs)
  show "code_error toxav_err_call_control_enum e \<noteq> None \<longleftrightarrow> code_result toxav_err_call_control_enum e = FAILURE"
    by (cases e) (simp_all add: defs)
  show "code_error toxav_err_call_control_enum e = code_error toxav_err_call_control_enum e' \<Longrightarrow> e = e'" if "code_result toxav_err_call_control_enum e = FAILURE"
    using that by (cases e; cases e'; simp add: defs)
qed (simp add: toxav_err_call_control_enum_def)

datatype TOXAV_ERR_CALL =
    TOXAV_ERR_CALL_OK
  | TOXAV_ERR_CALL_FRIEND_ALREADY_IN_CALL
  | TOXAV_ERR_CALL_FRIEND_NOT_CONNECTED
  | TOXAV_ERR_CALL_FRIEND_NOT_FOUND
  | TOXAV_ERR_CALL_INVALID_BIT_RATE
  | TOXAV_ERR_CALL_MALLOC
  | TOXAV_ERR_CALL_SYNC
  | TOXAV_ERR_CALL_OTHER jint

fun handle_TOXAV_ERR_CALL :: "TOXAV_ERR_CALL \<Rightarrow> ErrorHandling" where
  "handle_TOXAV_ERR_CALL TOXAV_ERR_CALL_OK = success"
| "handle_TOXAV_ERR_CALL TOXAV_ERR_CALL_FRIEND_ALREADY_IN_CALL = failure ''FRIEND_ALREADY_IN_CALL''"
| "handle_TOXAV_ERR_CALL TOXAV_ERR_CALL_FRIEND_NOT_CONNECTED = failure ''FRIEND_NOT_CONNECTED''"
| "handle_TOXAV_ERR_CALL TOXAV_ERR_CALL_FRIEND_NOT_FOUND = failure ''FRIEND_NOT_FOUND''"
| "handle_TOXAV_ERR_CALL TOXAV_ERR_CALL_INVALID_BIT_RATE = failure ''INVALID_BIT_RATE''"
| "handle_TOXAV_ERR_CALL TOXAV_ERR_CALL_MALLOC = failure ''MALLOC''"
| "handle_TOXAV_ERR_CALL TOXAV_ERR_CALL_SYNC = failure ''SYNC''"
| "handle_TOXAV_ERR_CALL (TOXAV_ERR_CALL_OTHER _) = unhandled"

fun value_TOXAV_ERR_CALL :: "TOXAV_ERR_CALL \<Rightarrow> jint" where
  "value_TOXAV_ERR_CALL (TOXAV_ERR_CALL_OTHER n) = n"
| "value_TOXAV_ERR_CALL _ = 0"

definition toxav_err_call_enum :: "TOXAV_ERR_CALL error_enum" where
  "toxav_err_call_enum =
     \<lparr>handle_error_enum = handle_TOXAV_ERR_CALL, method_name = ''Call'', error_value = value_TOXAV_ERR_CALL\<rparr>"

interpretation toxav_err_call: error_codes toxav_err_call_enum TOXAV_ERR_CALL_OK TOXAV_ERR_CALL_OTHER
proof
  note defs = toxav_err_call_enum_def handling_defs
  fix e e' :: TOXAV_ERR_CALL
  show "code_result toxav_err_call_enum e = SUCCESS \<longleftrightarrow> e = TOXAV_ERR_CALL_OK" by (cases e) (simp_all add: defs)
  show "code_result toxav_err_call_enum e = UNHANDLED \<longleftrightarrow> (\<exists>n. e = TOXAV_ERR_CALL_OTHER n)"
    by (cases e) (simp_all add: defs)
  show "code_error toxav_err_call_enum e \<noteq> None \<longleftrightarrow> code_result toxav_err_call_enum e = FAILURE"
    by (cases e) (simp_all add: defs)
  show "code_error toxav_err_call_enum e = code_error toxav_err_call_enum e' \<Longrightarrow> e = e'" if "code_result toxav_err_call_enum e = FAILURE"
    using that by (cases e; cases e'; simp add: defs)
qed (simp add: toxav_err_call_enum_def)

datatype TOXAV_ERR_NEW =
    TOXAV_ERR_NEW_OK
  | TOXAV_ERR_NEW_MALLOC
  | TOXAV_ERR_NEW_MULTIPLE
  | TOXAV_ERR_NEW_NULL
  | TOXAV_ERR_NEW_OTHER jint

fun handle_TOXAV_ERR_NEW :: "TOXAV_ERR_NEW \<Rightarrow> ErrorHandling" where
  "handle_TOXAV_ERR_NEW TOXAV_ERR_NEW_OK = success"
| "handle_TOXAV_ERR_NEW TOXAV_ERR_NEW_MALLOC = failure ''MALLOC''"
| "handle_TOXAV_ERR_NEW TOXAV_ERR_NEW_MULTIPLE = failure ''MULTIPLE''"
| "handle_TOXAV_ERR_NEW TOXAV_ERR_NEW_NULL = failure ''NULL''"
| "handle_TOXAV_ERR_NEW (TOXAV_ERR_NEW_OTHER _) = unhandled"

fun value_TOXAV_ERR_NEW :: "TOXAV_ERR_NEW \<Rightarrow> jint" where
  "value_TOXAV_ERR_NEW (TOXAV_ERR_NEW_OTHER n) = n"
| "value_TOXAV_ERR_NEW _ = 0"

definition toxav_err_new_enum :: "TOXAV_ERR_NEW error_enum" where
  "toxav_err_new_enum =
     \<lparr>handle_error_enum = handle_TOXAV_ERR_NEW, method_name = ''New'', error_value = value_TOXAV_ERR_NEW\<rparr>"

interpretation toxav_err_new: error_codes toxav_err_new_enum TOXAV_ERR_NEW_OK TOXAV_ERR_NEW_OTHER
proof
  note defs = toxav_err_new_enum_def handling_defs
  fix e e' :: TOXAV_ERR_NEW
  show "code_result toxav_err_new_enum e = SUCCESS \<longleftrightarrow> e = TOXAV_ERR_NEW_OK" by (cases e) (simp_all add: defs)
  show "code_result toxav_err_new_enum e = UNHANDLED \<longleftrightarrow> (\<exists>n. e = TOXAV_ERR_NEW_OTHER n)"
    by (cases e) (simp_all add: defs)
  show "code_error toxav_err_new_enum e \<noteq> None \<longleftrightarrow> code_result toxav_err_new_enum e = FAILURE"
    by (cases e) (simp_all add: defs)
  show "code_error toxav_err_new_enum e = code_error toxav_err_new_enum e' \<Longrightarrow> e = e'" if "code_result toxav_err_new_enum e = FAILURE"
    using that by (cases e; cases e'; simp add: defs)
qed (simp add: toxav_err_new_enum_def)

datatype TOXAV_ERR_SEND_FRAME =
    TOXAV_ERR_SEND_FRAME_OK
  | TOXAV_ERR_SEND_FRAME_FRIEND_NOT_FOUND
  | TOXAV_ERR_SEND_FRAME_FRIEND_NOT_IN_CALL
  | TOXAV_ERR_SEND_FRAME_INVALID
  | TOXAV_ERR_SEND_FRAME_NULL
  | TOXAV_ERR_SEND_FRAME_PAYLOAD_TYPE_DISABLED
  | TOXAV_ERR_SEND_FRAME_RTP_FAILED
  | TOXAV_ERR_SEND_FRAME_SYNC
  | TOXAV_ERR_SEND_FRAME_OTHER jint

fun handle_TOXAV_ERR_SEND_FRAME :: "TOXAV_ERR_SEND_FRAME \<Rightarrow> ErrorHandling" where
  "handle_TOXAV_ERR_SEND_FRAME TOXAV_ERR_SEND_FRAME_OK = success"
| "handle_TOXAV_ERR_SEND_FRAME TOXAV_ERR_SEND_FRAME_FRIEND_NOT_FOUND = failure ''FRIEND_NOT_FOUND''"
| "handle_TOXAV_ERR_SEND_FRAME TOXAV_ERR_SEND_FRAME_FRIEND_NOT_IN_CALL = failure ''FRIEND_NOT_IN_CALL''"
| "handle_TOXAV_ERR_SEND_FRAME TOXAV_ERR_SEND_FRAME_INVALID = failure ''INVALID''"
| "handle_TOXAV_ERR_SEND_FRAME TOXAV_ERR_SEND_FRAME_NULL = failure ''NULL''"
| "handle_TOXAV_ERR_SEND_FRAME TOXAV_ERR_SEND_FRAME_PAYLOAD_TYPE_DISABLED = failure ''PAYLOAD_TYPE_DISABLED''"
| "handle_TOXAV_ERR_SEND_FRAME TOXAV_ERR_SEND_FRAME_RTP_FAILED = failure ''RTP_FAILED''"
| "handle_TOXAV_ERR_SEND_FRAME TOXAV_ERR_SEND_FRAME_SYNC = failure ''SYNC''"
| "handle_TOXAV_ERR_SEND_FRAME (TOXAV_ERR_SEND_FRAME_OTHER _) = unhandled"

fun value_TOXAV_ERR_SEND_FRAME :: "TOXAV_ERR_SEND_FRAME \<Rightarrow> jint" where
  "value_TOXAV_ERR_SEND_FRAME (TOXAV_ERR_SEND_FRAME_OTHER n) = n"
| "value_TOXAV_ERR_SEND_FRAME _ = 0"

definition toxav_err_send_frame_enum :: "TOXAV_ERR_SEND_FRAME error_enum" where
  "toxav_err_send_frame_enum =
     \<lparr>handle_error_enum = handle_TOXAV_ERR_SEND_FRAME, method_name = ''SendFrame'', error_value = value_TOXAV_ERR_SEND_FRAME\<rparr>"

interpretation toxav_err_send_frame: error_codes toxav_err_send_frame_enum TOXAV_ERR_SEND_FRAME_OK TOXAV_ERR_SEND_FRAME_OTHER
proof
  note defs = toxav_err_send_frame_enum_def handling_defs
  fix e e' :: TOXAV_ERR_SEND_FRAME
  show "code_result toxav_err_send_frame_enum e = SUCCESS \<longleftrightarrow> e = TOXAV_ERR_SEND_FRAME_OK" by (cases e) (simp_all add: defs)
  show "code_result toxav_err_send_frame_enum e = UNHANDLED \<longleftrightarrow> (\<exists>n. e = TOXAV_ERR_SEND_FRAME_OTHER n)"
    by (cases e) (simp_all add: defs)
  show "code_error toxav_err_send_frame_enum e \<noteq> None \<longleftrightarrow> code_result toxav_err_send_frame_enum e = FAILURE"
    by (cases e) (simp_all add: defs)
  show "code_error toxav_err_send_frame_enum e = code_error toxav_err_send_frame_enum e' \<Longrightarrow> e = e'" if "code_result toxav_err_send_frame_enum e = FAILURE"
    using that by (cases e; cases e'; simp add: defs)
qed (simp add: toxav_err_send_frame_enum_def)

end
