(* ===== verification/Av_Api.thy ===== *)
theory Av_Api
  imports Core_Api Av_Errors
begin

text \<open>
  The native methods of \<open>ToxAvJni\<close>: \<open>ToxAv/{lifecycle,av}.cpp\<close>. Arithmetic on \<open>jint\<close> is
  done at 32 bits with signed overflow as undefined behaviour, and the comparisons with
  array sizes at 64 bits, as the C++ conversions have it.
\<close>

section \<open>Arithmetic\<close>

definition int_mult :: "jint \<Rightarrow> jint \<Rightarrow> ('s, jint) prog" where
  "int_mult a b =
    (let p = sint a * sint b in
     if - (2 ^ 31) \<le> p \<and> p < 2 ^ 31 then ret (word_of_int p)
     else fail (UB ''signed integer overflow''))"

text \<open>\<open>/\<close> on \<open>int\<close> truncates towards zero; conversion of an \<open>int\<close> to \<open>size_t\<close> keeps the sign.\<close>

definition int_half :: "jint \<Rightarrow> jint" where
  "int_half a = word_of_int (sint a sdiv 2)"

definition to_size_t :: "jint \<Rightarrow> uint64" where
  "to_size_t a = scast a"

section \<open>lifecycle.cpp\<close>

type_synonym ('tox, 'av) toxav_new_fun =
  "('tox \<Rightarrow> (uintptr \<times> 'av) option \<times> TOXAV_ERR_NEW \<times> 'tox) cfun"

definition toxavNew_success :: "'av toxav option \<Rightarrow> ('tox, 'av, jint) native" where
  "toxavNew_success toxav =
     andThen (tox4j_assert ''ToxAv/lifecycle.cpp:145'' ''toxav != nullptr'' (toxav \<noteq> None)) (\<lambda>_.
     andThen (setter_set (foldl setter_add (tox_callbacks (Some no_av_events)) av_callbacks) (the toxav)) (\<lambda>(toxav, events).
     on_manager av_lens (\<lambda>m. add m (Some toxav) events)))"

definition toxavNew :: "('tox, 'av) toxav_new_fun \<Rightarrow> jint \<Rightarrow> ('tox, 'av, jint) native" where
  "toxavNew toxav_new toxInstanceNumber =
     with_instance core_lens 0 toxInstanceNumber (\<lambda>tox events.
       andThen (with_error_handling_new av_subsystem toxav_err_new_enum
                  (\<lambda>p. Arg_toxav (show_pointer p)) (\<lambda>p. ret (new_object_of p)) 0 toxavNew_success
                  (addr_of toxav_new) [Arg_tox (obj_addr tox)]
                  (on_state (\<lambda>st. ret (run_c toxav_new st)) tox))
         (\<lambda>(n, tox). ret (n, tox, events)))"

definition toxavKill :: "jint \<Rightarrow> ('tox, 'av, unit) native" where
  "toxavKill instanceNumber =
     on_manager av_lens (\<lambda>m. andThen (kill m instanceNumber) (\<lambda>m'. ret ((), m')))"

definition toxavFinalize :: "jint \<Rightarrow> ('tox, 'av, unit) native" where
  "toxavFinalize instanceNumber =
     on_manager av_lens (\<lambda>m. andThen (finalize m instanceNumber) (\<lambda>m'. ret ((), m')))"

definition av_invoke_on ::
  "jint \<Rightarrow> (av_events \<Rightarrow> ('tox, 'av, av_events) native) \<Rightarrow> ('tox, 'av, unit) native" where
  "av_invoke_on instanceNumber callback =
     with_instance av_lens () instanceNumber (\<lambda>av events.
       andThen (cassert ''av != nullptr'' (obj_addr av \<noteq> 0)) (\<lambda>_.
       andThen (callback events) (\<lambda>events. ret ((), av, events))))"

definition invokeAudioBitRate :: "jint \<Rightarrow> jint \<Rightarrow> jint \<Rightarrow> ('tox, 'av, unit) native" where
  "invokeAudioBitRate instanceNumber friendNumber audioBitRate =
     av_invoke_on instanceNumber (tox4j_audio_bit_rate_cb friendNumber audioBitRate)"

definition invokeVideoBitRate :: "jint \<Rightarrow> jint \<Rightarrow> jint \<Rightarrow> ('tox, 'av, unit) native" where
  "invokeVideoBitRate instanceNumber friendNumber videoBitRate =
     av_invoke_on instanceNumber (tox4j_video_bit_rate_cb friendNumber videoBitRate)"

text \<open>
  The divisor is the \<open>jint\<close> converted to \<open>size_t\<close>; the callback then gets it as \<open>uint8_t\<close>.
\<close>

definition invokeAudioReceiveFrame ::
  "jint \<Rightarrow> jint \<Rightarrow> jshort jarray \<Rightarrow> jint \<Rightarrow> jint \<Rightarrow> ('tox, 'av, unit) native" where
  "invokeAudioReceiveFrame instanceNumber friendNumber pcm channels samplingRate =
     av_invoke_on instanceNumber (\<lambda>events.
       andThen (fromJavaArray pcm) (\<lambda>pcmData.
       andThen (array_size pcmData) (\<lambda>n.
       if to_size_t channels = 0 then fail (UB ''division by zero'')
       else
         andThen (tox4j_assert ''ToxAv/lifecycle.cpp:237'' ''pcmData.size () % channels == 0''
                    (word_of_nat n mod to_size_t channels = 0)) (\<lambda>_.
         tox4j_audio_receive_frame_cb friendNumber pcmData (word_of_nat n div to_size_t channels)
           (ucast channels) samplingRate events))))"

definition invokeCall :: "jint \<Rightarrow> jint \<Rightarrow> jboolean \<Rightarrow> jboolean \<Rightarrow> ('tox, 'av, unit) native" where
  "invokeCall instanceNumber friendNumber audioEnabled videoEnabled =
     av_invoke_on instanceNumber
       (tox4j_call_cb friendNumber (audioEnabled \<noteq> 0) (videoEnabled \<noteq> 0))"

definition invokeCallState ::
  "(TOXAV_FRIEND_CALL_STATE \<Rightarrow> uint32) \<Rightarrow> jint \<Rightarrow> jint \<Rightarrow> jint \<Rightarrow> ('tox, 'av, unit) native" where
  "invokeCallState bits instanceNumber friendNumber callState =
     av_invoke_on instanceNumber (tox4j_call_state_cb bits friendNumber callState)"

text \<open>\<open>std::max<std::size_t> (width, std::abs (stride)) * height\<close>, at 64 bits.\<close>

definition plane_bytes :: "jint \<Rightarrow> jint \<Rightarrow> jint \<Rightarrow> ('s, uint64) prog" where
  "plane_bytes width height stride =
     andThen (abs_int stride) (\<lambda>a. ret (max (to_size_t width) (word_of_nat a) * to_size_t height))"

definition invokeVideoReceiveFrame ::
  "jint \<Rightarrow> jint \<Rightarrow> jint \<Rightarrow> jint \<Rightarrow> uint8 jarray \<Rightarrow> uint8 jarray \<Rightarrow> uint8 jarray \<Rightarrow>
   jint \<Rightarrow> jint \<Rightarrow> jint \<Rightarrow> ('tox, 'av, unit) native" where
  "invokeVideoReceiveFrame instanceNumber friendNumber width height y u v yStride uStride vStride =
     av_invoke_on instanceNumber (\<lambda>events.
       andThen (fromJavaArray y) (\<lambda>yData.
       andThen (fromJavaArray u) (\<lambda>uData.
       andThen (fromJavaArray v) (\<lambda>vData.
       andThen (array_size yData) (\<lambda>yn.
       andThen (plane_bytes width height yStride) (\<lambda>ySize.
       andThen (tox4j_assert ''ToxAv/lifecycle.cpp:292'' ''yData.size () == ...''
                  (word_of_nat yn = ySize)) (\<lambda>_.
       andThen (array_size uData) (\<lambda>un.
       andThen (plane_bytes (int_half width) (int_half height) uStride) (\<lambda>uSize.
       andThen (tox4j_assert ''ToxAv/lifecycle.cpp:293'' ''uData.size () == ...''
                  (word_of_nat un = uSize)) (\<lambda>_.
       andThen (array_size vData) (\<lambda>vn.
       andThen (plane_bytes (int_half width) (int_half height) vStride) (\<lambda>vSize.
       andThen (tox4j_assert ''ToxAv/lifecycle.cpp:294'' ''vData.size () == ...''
                  (word_of_nat vn = vSize)) (\<lambda>_.
       tox4j_video_receive_frame_cb friendNumber (ucast width) (ucast height) yData uData vData
         yStride uStride vStride events)))))))))))))"

section \<open>av.cpp\<close>

definition toxavIterationInterval :: "('av \<Rightarrow> uint32) cfun \<Rightarrow> jint \<Rightarrow> ('tox, 'av, jint) native" where
  "toxavIterationInterval toxav_iteration_interval instanceNumber =
     with_instance_noerr av_class (\<lambda>r. log_uint r) ret 0 instanceNumber
       (addr_of toxav_iteration_interval) []
       (on_state_noerr (\<lambda>av. ret (run_c toxav_iteration_interval av, av)))"

type_synonym 'av av_iterate_fun = "('av \<Rightarrow> av_callback list \<times> 'av) cfun"

definition run_av_iterate ::
  "(TOXAV_FRIEND_CALL_STATE \<Rightarrow> uint32) \<Rightarrow> (av_callback_name \<Rightarrow> uintptr) \<Rightarrow> 'av av_iterate_fun \<Rightarrow>
   'av toxav \<Rightarrow> av_events \<Rightarrow> ('z logenv_scheme, av_events \<times> 'av toxav) prog" where
  "run_av_iterate bits addr toxav_iterate av events =
    (let (calls, st) = run_c toxav_iterate (obj_state av) in
     andThen (deliver av_name (obj_callbacks av) (av_invoke bits addr (obj_addr av)) calls events) (\<lambda>events.
     ret (events, av\<lparr>obj_state := st\<rparr>)))"

definition toxavIterate ::
  "(TOXAV_FRIEND_CALL_STATE \<Rightarrow> uint32) \<Rightarrow> (av_callback_name \<Rightarrow> uintptr) \<Rightarrow>
   (av_events \<Rightarrow> uint8 list) \<Rightarrow> 'av av_iterate_fun \<Rightarrow> jint \<Rightarrow> ('tox, 'av, uint8 jarray) native" where
  "toxavIterate bits addr serialize toxav_iterate instanceNumber =
     with_instance av_lens None instanceNumber (\<lambda>av events.
       with_log_entry (instance_log_entry_open instanceNumber (addr_of toxav_iterate) [Arg_toxav (obj_addr av)])
         (\<lambda>log_entry.
            andThen (print_result log_entry (\<lambda>_. Arg_void) (run_av_iterate bits addr toxav_iterate av events))
              (\<lambda>(events, av).
            if length (serialize events) = 0 then ret (None, av, events)
            else andThen (toJavaArray (serialize events)) (\<lambda>arr. ret (arr, av, no_av_events)))))"

type_synonym ('av, 'e) av_call_fun = "(uint32 \<Rightarrow> uint32 \<Rightarrow> uint32 \<Rightarrow> ('av, bool, 'e) tox_err) cfun"

definition toxavCall ::
  "('av, TOXAV_ERR_CALL) av_call_fun \<Rightarrow> jint \<Rightarrow> jint \<Rightarrow> jint \<Rightarrow> jint \<Rightarrow> ('tox, 'av, unit) native" where
  "toxavCall toxav_call instanceNumber friendNumber audioBitRate videoBitRate =
     with_instance_ign av_class toxav_err_call_enum instanceNumber (addr_of toxav_call)
       [log_sint friendNumber, log_sint audioBitRate, log_sint videoBitRate]
       (on_state (\<lambda>av. ret (run_c toxav_call friendNumber audioBitRate videoBitRate av)))"

definition toxavAnswer ::
  "('av, TOXAV_ERR_ANSWER) av_call_fun \<Rightarrow> jint \<Rightarrow> jint \<Rightarrow> jint \<Rightarrow> jint \<Rightarrow> ('tox, 'av, unit) native" where
  "toxavAnswer toxav_answer instanceNumber friendNumber audioBitRate videoBitRate =
     with_instance_ign av_class toxav_err_answer_enum instanceNumber (addr_of toxav_answer)
       [log_sint friendNumber, log_sint audioBitRate, log_sint videoBitRate]
       (on_state (\<lambda>av. ret (run_c toxav_answer friendNumber audioBitRate videoBitRate av)))"

definition toxavCallControl ::
  "(uint32 \<Rightarrow> TOXAV_CALL_CONTROL \<Rightarrow> ('av, bool, TOXAV_ERR_CALL_CONTROL) tox_err) cfun \<Rightarrow>
   jint \<Rightarrow> jint \<Rightarrow> jint \<Rightarrow> ('tox, 'av, unit) native" where
  "toxavCallControl toxav_call_control instanceNumber friendNumber control =
     andThen (valueOf_TOXAV_CALL_CONTROL control) (\<lambda>c.
     with_instance_ign av_class toxav_err_call_control_enum instanceNumber (addr_of toxav_call_control)
       [log_sint friendNumber, Arg_enum (print_arg_TOXAV_CALL_CONTROL c)]
       (on_state (\<lambda>av. ret (run_c toxav_call_control friendNumber c av))))"

type_synonym 'av bit_rate_fun =
  "(uint32 \<Rightarrow> uint32 \<Rightarrow> ('av, bool, TOXAV_ERR_BIT_RATE_SET) tox_err) cfun"

definition toxavAudioSetBitRate ::
  "'av bit_rate_fun \<Rightarrow> jint \<Rightarrow> jint \<Rightarrow> jint \<Rightarrow> ('tox, 'av, unit) native" where
  "toxavAudioSetBitRate toxav_audio_set_bit_rate instanceNumber friendNumber audioBitRate =
     with_instance_ign av_class toxav_err_bit_rate_set_enum instanceNumber
       (addr_of toxav_audio_set_bit_rate) [log_sint friendNumber, log_sint audioBitRate]
       (on_state (\<lambda>av. ret (run_c toxav_audio_set_bit_rate friendNumber audioBitRate av)))"

definition toxavVideoSetBitRate ::
  "'av bit_rate_fun \<Rightarrow> jint \<Rightarrow> jint \<Rightarrow> jint \<Rightarrow> ('tox, 'av, unit) native" where
  "toxavVideoSetBitRate toxav_video_set_bit_rate instanceNumber friendNumber videoBitRate =
     with_instance_ign av_class toxav_err_bit_rate_set_enum instanceNumber
       (addr_of toxav_video_set_bit_rate) [log_sint friendNumber, log_sint videoBitRate]
       (on_state (\<lambda>av. ret (run_c toxav_video_set_bit_rate friendNumber videoBitRate av)))"

definition toxavAudioSendFrame ::
  "(uint32 \<Rightarrow> samples \<Rightarrow> nat \<Rightarrow> uint8 \<Rightarrow> uint32 \<Rightarrow> ('av, bool, TOXAV_ERR_SEND_FRAME) tox_ptr) cfun \<Rightarrow>
   jint \<Rightarrow> jint \<Rightarrow> jshort jarray \<Rightarrow> jint \<Rightarrow> jint \<Rightarrow> jint \<Rightarrow> ('tox, 'av, unit) native" where
  "toxavAudioSendFrame toxav_audio_send_frame instanceNumber friendNumber pcm sampleCount channels samplingRate =
     andThen (tox4j_assert ''ToxAv/av.cpp:120'' ''sampleCount >= 0'' (sint sampleCount \<ge> 0)) (\<lambda>_.
     andThen (tox4j_assert ''ToxAv/av.cpp:121'' ''channels >= 0'' (sint channels \<ge> 0)) (\<lambda>_.
     andThen (tox4j_assert ''ToxAv/av.cpp:122'' ''channels <= 255'' (sint channels \<le> 255)) (\<lambda>_.
     andThen (tox4j_assert ''ToxAv/av.cpp:123'' ''samplingRate >= 0'' (sint samplingRate \<ge> 0)) (\<lambda>_.
     andThen (fromJavaArray pcm) (\<lambda>pcmData.
     andThen (array_size pcmData) (\<lambda>n.
     andThen (int_mult sampleCount channels) (\<lambda>expected.
     if word_of_nat n \<noteq> to_size_t expected
     then throw_tox_exception av_subsystem toxav_err_send_frame_enum TOXAV_ERR_SEND_FRAME_INVALID
     else
       with_instance_ign av_class toxav_err_send_frame_enum instanceNumber
         (addr_of toxav_audio_send_frame)
         [log_sint friendNumber, Arg_shorts pcmData, log_sint sampleCount, log_sint channels,
          log_sint samplingRate]
         (on_state (\<lambda>av. call_c (run_c toxav_audio_send_frame friendNumber pcmData (unat sampleCount)
            (ucast channels) samplingRate av))))))))))"

text \<open>\<open>toxav_video_send_frame\<close> takes 16-bit dimensions.\<close>

definition toxavVideoSendFrame ::
  "(uint32 \<Rightarrow> uint16 \<Rightarrow> uint16 \<Rightarrow> pointer \<Rightarrow> pointer \<Rightarrow> pointer \<Rightarrow>
      ('av, bool, TOXAV_ERR_SEND_FRAME) tox_ptr) cfun \<Rightarrow>
   jint \<Rightarrow> jint \<Rightarrow> jint \<Rightarrow> jint \<Rightarrow> uint8 jarray \<Rightarrow> uint8 jarray \<Rightarrow> uint8 jarray \<Rightarrow>
   ('tox, 'av, unit) native" where
  "toxavVideoSendFrame toxav_video_send_frame instanceNumber friendNumber width height y u v =
     andThen (int_mult width height) (\<lambda>ySize.
     andThen (int_mult (int_half width) (int_half height)) (\<lambda>uvSize.
     andThen (fromJavaArray y) (\<lambda>yData.
     andThen (fromJavaArray u) (\<lambda>uData.
     andThen (fromJavaArray v) (\<lambda>vData.
     andThen (array_size yData) (\<lambda>yn.
     andThen (array_size uData) (\<lambda>un.
     andThen (array_size vData) (\<lambda>vn.
     if word_of_nat yn \<noteq> to_size_t ySize \<or> word_of_nat un \<noteq> to_size_t uvSize \<or>
        word_of_nat vn \<noteq> to_size_t uvSize
     then throw_tox_exception av_subsystem toxav_err_send_frame_enum TOXAV_ERR_SEND_FRAME_INVALID
     else
       with_instance_ign av_class toxav_err_send_frame_enum instanceNumber
         (addr_of toxav_video_send_frame)
         [log_sint friendNumber, log_sint width, log_sint height,
          Arg_bytes yData, Arg_bytes uData, Arg_bytes vData]
         (on_state (\<lambda>av. call_c (run_c toxav_video_send_frame friendNumber (ucast width) (ucast height)
            yData uData vData av)))))))))))"

end
