(* ===== verification/Crypto_Errors.thy ===== *)
theory Crypto_Errors
  imports Error_Codes
begin

text \<open>
  \<open>ToxCrypto/generated/errors.cpp\<close>: for each error enumeration of the subsystem, what
  \<open>HANDLE\<close> defines (the meaning of every code and the name of the exception), and that it
  meets the contract \<open>error_codes\<close>. \<open>error_value\<close> is the integer value of the C enumerator;
  it is read only for \<open>OK\<close> (0) and for values outside the enumeration.
\<close>

datatype TOX_ERR_DECRYPTION =
    TOX_ERR_DECRYPTION_OK
  | TOX_ERR_DECRYPTION_BAD_FORMAT
  | TOX_ERR_DECRYPTION_FAILED
  | TOX_ERR_DECRYPTION_INVALID_LENGTH
  | TOX_ERR_DECRYPTION_KEY_DERIVATION_FAILED
  | TOX_ERR_DECRYPTION_NULL
  | TOX_ERR_DECRYPTION_OTHER jint

fun handle_TOX_ERR_DECRYPTION :: "TOX_ERR_DECRYPTION \<Rightarrow> ErrorHandling" where
  "handle_TOX_ERR_DECRYPTION TOX_ERR_DECRYPTION_OK = success"
| "handle_TOX_ERR_DECRYPTION TOX_ERR_DECRYPTION_BAD_FORMAT = failure ''BAD_FORMAT''"
| "handle_TOX_ERR_DECRYPTION TOX_ERR_DECRYPTION_FAILED = failure ''FAILED''"
| "handle_TOX_ERR_DECRYPTION TOX_ERR_DECRYPTION_INVALID_LENGTH = failure ''INVALID_LENGTH''"
| "handle_TOX_ERR_DECRYPTION TOX_ERR_DECRYPTION_KEY_DERIVATION_FAILED = failure ''KEY_DERIVATION_FAILED''"
| "handle_TOX_ERR_DECRYPTION TOX_ERR_DECRYPTION_NULL = failure ''NULL''"
| "handle_TOX_ERR_DECRYPTION (TOX_ERR_DECRYPTION_OTHER _) = unhandled"

fun value_TOX_ERR_DECRYPTION :: "TOX_ERR_DECRYPTION \<Rightarrow> jint" where
  "value_TOX_ERR_DECRYPTION (TOX_ERR_DECRYPTION_OTHER n) = n"
| "value_TOX_ERR_DECRYPTION _ = 0"

definition tox_err_decryption_enum :: "TOX_ERR_DECRYPTION error_enum" where
  "tox_err_decryption_enum =
     \<lparr>handle_error_enum = handle_TOX_ERR_DECRYPTION, method_name = ''Decryption'', error_value = value_TOX_ERR_DECRYPTION\<rparr>"

interpretation tox_err_decryption: error_codes tox_err_decryption_enum TOX_ERR_DECRYPTION_OK TOX_ERR_DECRYPTION_OTHER
proof
  note defs = tox_err_decryption_enum_def handling_defs
  fix e e' :: TOX_ERR_DECRYPTION
  show "code_result tox_err_decryption_enum e = SUCCESS \<longleftrightarrow> e = TOX_ERR_DECRYPTION_OK" by (cases e) (simp_all add: defs)
  show "code_result tox_err_decryption_enum e = UNHANDLED \<longleftrightarrow> (\<exists>n. e = TOX_ERR_DECRYPTION_OTHER n)"
    by (cases e) (simp_all add: defs)
  show "code_error tox_err_decryption_enum e \<noteq> None \<longleftrightarrow> code_result tox_err_decryption_enum e = FAILURE"
    by (cases e) (simp_all add: defs)
  show "code_error tox_err_decryption_enum e = code_error tox_err_decryption_enum e' \<Longrightarrow> e = e'" if "code_result tox_err_decryption_enum e = FAILURE"
    using that by (cases e; cases e'; simp add: defs)
qed (simp add: tox_err_decryption_enum_def)

datatype TOX_ERR_ENCRYPTION =
    TOX_ERR_ENCRYPTION_OK
  | TOX_ERR_ENCRYPTION_FAILED
  | TOX_ERR_ENCRYPTION_KEY_DERIVATION_FAILED
  | TOX_ERR_ENCRYPTION_NULL
  | TOX_ERR_ENCRYPTION_OTHER jint

fun handle_TOX_ERR_ENCRYPTION :: "TOX_ERR_ENCRYPTION \<Rightarrow> ErrorHandling" where
  "handle_TOX_ERR_ENCRYPTION TOX_ERR_ENCRYPTION_OK = success"
| "handle_TOX_ERR_ENCRYPTION TOX_ERR_ENCRYPTION_FAILED = failure ''FAILED''"
| "handle_TOX_ERR_ENCRYPTION TOX_ERR_ENCRYPTION_KEY_DERIVATION_FAILED = failure ''KEY_DERIVATION_FAILED''"
| "handle_TOX_ERR_ENCRYPTION TOX_ERR_ENCRYPTION_NULL = failure ''NULL''"
| "handle_TOX_ERR_ENCRYPTION (TOX_ERR_ENCRYPTION_OTHER _) = unhandled"

fun value_TOX_ERR_ENCRYPTION :: "TOX_ERR_ENCRYPTION \<Rightarrow> jint" where
  "value_TOX_ERR_ENCRYPTION (TOX_ERR_ENCRYPTION_OTHER n) = n"
| "value_TOX_ERR_ENCRYPTION _ = 0"

definition tox_err_encryption_enum :: "TOX_ERR_ENCRYPTION error_enum" where
  "tox_err_encryption_enum =
     \<lparr>handle_error_enum = handle_TOX_ERR_ENCRYPTION, method_name = ''Encryption'', error_value = value_TOX_ERR_ENCRYPTION\<rparr>"

interpretation tox_err_encryption: error_codes tox_err_encryption_enum TOX_ERR_ENCRYPTION_OK TOX_ERR_ENCRYPTION_OTHER
proof
  note defs = tox_err_encryption_enum_def handling_defs
  fix e e' :: TOX_ERR_ENCRYPTION
  show "code_result tox_err_encryption_enum e = SUCCESS \<longleftrightarrow> e = TOX_ERR_ENCRYPTION_OK" by (cases e) (simp_all add: defs)
  show "code_result tox_err_encryption_enum e = UNHANDLED \<longleftrightarrow> (\<exists>n. e = TOX_ERR_ENCRYPTION_OTHER n)"
    by (cases e) (simp_all add: defs)
  show "code_error tox_err_encryption_enum e \<noteq> None \<longleftrightarrow> code_result tox_err_encryption_enum e = FAILURE"
    by (cases e) (simp_all add: defs)
  show "code_error tox_err_encryption_enum e = code_error tox_err_encryption_enum e' \<Longrightarrow> e = e'" if "code_result tox_err_encryption_enum e = FAILURE"
    using that by (cases e; cases e'; simp add: defs)
qed (simp add: tox_err_encryption_enum_def)

datatype TOX_ERR_GET_SALT =
    TOX_ERR_GET_SALT_OK
  | TOX_ERR_GET_SALT_BAD_FORMAT
  | TOX_ERR_GET_SALT_NULL
  | TOX_ERR_GET_SALT_OTHER jint

fun handle_TOX_ERR_GET_SALT :: "TOX_ERR_GET_SALT \<Rightarrow> ErrorHandling" where
  "handle_TOX_ERR_GET_SALT TOX_ERR_GET_SALT_OK = success"
| "handle_TOX_ERR_GET_SALT TOX_ERR_GET_SALT_BAD_FORMAT = failure ''BAD_FORMAT''"
| "handle_TOX_ERR_GET_SALT TOX_ERR_GET_SALT_NULL = failure ''NULL''"
| "handle_TOX_ERR_GET_SALT (TOX_ERR_GET_SALT_OTHER _) = unhandled"

fun value_TOX_ERR_GET_SALT :: "TOX_ERR_GET_SALT \<Rightarrow> jint" where
  "value_TOX_ERR_GET_SALT (TOX_ERR_GET_SALT_OTHER n) = n"
| "value_TOX_ERR_GET_SALT _ = 0"

definition tox_err_get_salt_enum :: "TOX_ERR_GET_SALT error_enum" where
  "tox_err_get_salt_enum =
     \<lparr>handle_error_enum = handle_TOX_ERR_GET_SALT, method_name = ''GetSalt'', error_value = value_TOX_ERR_GET_SALT\<rparr>"

interpretation tox_err_get_salt: error_codes tox_err_get_salt_enum TOX_ERR_GET_SALT_OK TOX_ERR_GET_SALT_OTHER
proof
  note defs = tox_err_get_salt_enum_def handling_defs
  fix e e' :: TOX_ERR_GET_SALT
  show "code_result tox_err_get_salt_enum e = SUCCESS \<longleftrightarrow> e = TOX_ERR_GET_SALT_OK" by (cases e) (simp_all add: defs)
  show "code_result tox_err_get_salt_enum e = UNHANDLED \<longleftrightarrow> (\<exists>n. e = TOX_ERR_GET_SALT_OTHER n)"
    by (cases e) (simp_all add: defs)
  show "code_error tox_err_get_salt_enum e \<noteq> None \<longleftrightarrow> code_result tox_err_get_salt_enum e = FAILURE"
    by (cases e) (simp_all add: defs)
  show "code_error tox_err_get_salt_enum e = code_error tox_err_get_salt_enum e' \<Longrightarrow> e = e'" if "code_result tox_err_get_salt_enum e = FAILURE"
    using that by (cases e; cases e'; simp add: defs)
qed (simp add: tox_err_get_salt_enum_def)

datatype TOX_ERR_KEY_DERIVATION =
    TOX_ERR_KEY_DERIVATION_OK
  | TOX_ERR_KEY_DERIVATION_FAILED
  | TOX_ERR_KEY_DERIVATION_NULL
  | TOX_ERR_KEY_DERIVATION_OTHER jint

fun handle_TOX_ERR_KEY_DERIVATION :: "TOX_ERR_KEY_DERIVATION \<Rightarrow> ErrorHandling" where
  "handle_TOX_ERR_KEY_DERIVATION TOX_ERR_KEY_DERIVATION_OK = success"
| "handle_TOX_ERR_KEY_DERIVATION TOX_ERR_KEY_DERIVATION_FAILED = failure ''FAILED''"
| "handle_TOX_ERR_KEY_DERIVATION TOX_ERR_KEY_DERIVATION_NULL = failure ''NULL''"
| "handle_TOX_ERR_KEY_DERIVATION (TOX_ERR_KEY_DERIVATION_OTHER _) = unhandled"

fun value_TOX_ERR_KEY_DERIVATION :: "TOX_ERR_KEY_DERIVATION \<Rightarrow> jint" where
  "value_TOX_ERR_KEY_DERIVATION (TOX_ERR_KEY_DERIVATION_OTHER n) = n"
| "value_TOX_ERR_KEY_DERIVATION _ = 0"

definition tox_err_key_derivation_enum :: "TOX_ERR_KEY_DERIVATION error_enum" where
  "tox_err_key_derivation_enum =
     \<lparr>handle_error_enum = handle_TOX_ERR_KEY_DERIVATION, method_name = ''KeyDerivation'', error_value = value_TOX_ERR_KEY_DERIVATION\<rparr>"

interpretation tox_err_key_derivation: error_codes tox_err_key_derivation_enum TOX_ERR_KEY_DERIVATION_OK TOX_ERR_KEY_DERIVATION_OTHER
proof
  note defs = tox_err_key_derivation_enum_def handling_defs
  fix e e' :: TOX_ERR_KEY_DERIVATION
  show "code_result tox_err_key_derivation_enum e = SUCCESS \<longleftrightarrow> e = TOX_ERR_KEY_DERIVATION_OK" by (cases e) (simp_all add: defs)
  show "code_result tox_err_key_derivation_enum e = UNHANDLED \<longleftrightarrow> (\<exists>n. e = TOX_ERR_KEY_DERIVATION_OTHER n)"
    by (cases e) (simp_all add: defs)
  show "code_error tox_err_key_derivation_enum e \<noteq> None \<longleftrightarrow> code_result tox_err_key_derivation_enum e = FAILURE"
    by (cases e) (simp_all add: defs)
  show "code_error tox_err_key_derivation_enum e = code_error tox_err_key_derivation_enum e' \<Longrightarrow> e = e'" if "code_result tox_err_key_derivation_enum e = FAILURE"
    using that by (cases e; cases e'; simp add: defs)
qed (simp add: tox_err_key_derivation_enum_def)

end
