(* ===== verification/Crypto_Api.thy ===== *)
theory Crypto_Api
  imports Native_Calls Crypto_Errors
begin

text \<open>
  The native methods of \<open>ToxCryptoJni\<close>: \<open>ToxCrypto/{encryptsave,hash}.cpp\<close>. They have no
  instance; the cryptographic functions of toxcore are parameters.
\<close>

section \<open>Constants\<close>

definition TOX_PASS_SALT_LENGTH :: nat where "TOX_PASS_SALT_LENGTH = 32"
definition TOX_PASS_KEY_LENGTH :: nat where "TOX_PASS_KEY_LENGTH = 32"
definition TOX_PASS_ENCRYPTION_EXTRA_LENGTH :: nat where "TOX_PASS_ENCRYPTION_EXTRA_LENGTH = 80"
definition TOX_HASH_LENGTH :: nat where "TOX_HASH_LENGTH = 32"

section \<open>Pass keys\<close>

text \<open>A \<open>Tox_Pass_Key\<close> is the array \<open>pass_key_impl\<close>: the salt and the key.\<close>

type_synonym pass_key = "uint8 list"

definition PASS_KEY_SIZE :: nat where
  "PASS_KEY_SIZE = TOX_PASS_SALT_LENGTH + TOX_PASS_KEY_LENGTH"

definition pass_key_to_java :: "pass_key \<Rightarrow> ('z jenv_scheme, uint8 jarray) prog" where
  "pass_key_to_java out_key = toJavaArray out_key"

definition pass_key_from_java :: "uint8 jarray \<Rightarrow> ('z jenv_scheme, pass_key) prog" where
  "pass_key_from_java passKeyArray =
     andThen (fromJavaArray passKeyArray) (\<lambda>passKey.
     andThen (array_size passKey) (\<lambda>n.
     andThen (tox4j_assert ''ToxCrypto/encryptsave.cpp:31''
                ''passKey.size () == TOX_PASS_SALT_LENGTH + TOX_PASS_KEY_LENGTH''
                (n = PASS_KEY_SIZE)) (\<lambda>_.
     fill_buffer (replicate PASS_KEY_SIZE 0) (case passKey of None \<Rightarrow> [] | Some bytes \<Rightarrow> bytes))))"

section \<open>encryptsave.cpp\<close>

text \<open>A call without an object: \<open>with_error_handling<ToxCrypto>\<close> in the scope of a log entry.\<close>

definition crypto_call ::
  "'e error_enum \<Rightarrow> ('r \<Rightarrow> log_arg) \<Rightarrow> 'b \<Rightarrow> ('r \<Rightarrow> ('z logenv_scheme, 'b) prog) \<Rightarrow> uintptr \<Rightarrow>
   ('z logenv_scheme, 'r \<times> 'e) prog \<Rightarrow> ('z logenv_scheme, 'b) prog" where
  "crypto_call en show_result return_type success_func tox_addr tox_func =
     andThen (with_log_entry (log_entry_open tox_addr []) (\<lambda>log_entry.
        with_error_handling log_entry crypto_subsystem en show_result ret return_type success_func
          (andThen tox_func (\<lambda>(r, e). ret (r, e, ())))))
       (\<lambda>(b, _). ret b)"

text \<open>\<open>data\<close> is passed to \<open>tox_get_salt\<close> without its length, and its length is not checked.\<close>

definition toxGetSalt ::
  "(pointer \<Rightarrow> (bool \<times> uint8 list \<times> TOX_ERR_GET_SALT) option) cfun \<Rightarrow> uint8 jarray \<Rightarrow>
   ('z logenv_scheme, uint8 jarray) prog" where
  "toxGetSalt tox_get_salt dataArray =
     andThen (fromJavaArray dataArray) (\<lambda>data.
     crypto_call tox_err_get_salt_enum (\<lambda>(b, _). Arg_integer (of_bool_int b)) None
       (\<lambda>(_, salt). toJavaArray salt) (addr_of tox_get_salt)
       (andThen (call_c (run_c tox_get_salt data)) (\<lambda>(b, out, e).
        andThen (fill_buffer (replicate TOX_PASS_SALT_LENGTH 0) out) (\<lambda>salt. ret ((b, salt), e)))))"

definition toxIsDataEncrypted ::
  "(pointer \<Rightarrow> bool option) cfun \<Rightarrow> uint8 jarray \<Rightarrow> ('z logenv_scheme, bool) prog" where
  "toxIsDataEncrypted tox_is_data_encrypted dataArray =
     andThen (fromJavaArray dataArray) (\<lambda>data.
     andThen (array_size data) (\<lambda>n.
     if n < TOX_PASS_ENCRYPTION_EXTRA_LENGTH then ret False
     else call_c (run_c tox_is_data_encrypted data)))"

text \<open>The key that a derivation returns, or null.\<close>

definition show_pass_key :: "'r \<Rightarrow> log_arg" where
  "show_pass_key _ = Arg_pass_key"

definition derived_key_to_java :: "pass_key option \<Rightarrow> ('z jenv_scheme, uint8 jarray) prog" where
  "derived_key_to_java out_key =
    (case out_key of
       None \<Rightarrow> fail (UB ''null pass key dereferenced'')
     | Some key \<Rightarrow> pass_key_to_java key)"

definition toxPassKeyDeriveWithSalt ::
  "(pointer \<Rightarrow> nat \<Rightarrow> pointer \<Rightarrow> (pass_key option \<times> TOX_ERR_KEY_DERIVATION) option) cfun \<Rightarrow>
   uint8 jarray \<Rightarrow> uint8 jarray \<Rightarrow> ('z logenv_scheme, uint8 jarray) prog" where
  "toxPassKeyDeriveWithSalt tox_pass_key_derive_with_salt passphraseArray saltArray =
     andThen (fromJavaArray passphraseArray) (\<lambda>passphrase.
     andThen (fromJavaArray saltArray) (\<lambda>salt.
     andThen (array_size salt) (\<lambda>n.
     if n \<noteq> TOX_PASS_SALT_LENGTH
     then andThen (throw_tox_error crypto_subsystem tox_err_key_derivation_enum ''INVALID_LENGTH'')
            (\<lambda>_. ret None)
     else
       andThen (array_size passphrase) (\<lambda>m.
       crypto_call tox_err_key_derivation_enum show_pass_key None derived_key_to_java
         (addr_of tox_pass_key_derive_with_salt)
         (call_c (run_c tox_pass_key_derive_with_salt passphrase m salt))))))"

definition toxPassKeyDerive ::
  "(pointer \<Rightarrow> nat \<Rightarrow> pass_key option \<times> TOX_ERR_KEY_DERIVATION) cfun \<Rightarrow>
   uint8 jarray \<Rightarrow> ('z logenv_scheme, uint8 jarray) prog" where
  "toxPassKeyDerive tox_pass_key_derive passphraseArray =
     andThen (fromJavaArray passphraseArray) (\<lambda>passphrase.
     andThen (array_size passphrase) (\<lambda>m.
     crypto_call tox_err_key_derivation_enum show_pass_key None derived_key_to_java
       (addr_of tox_pass_key_derive) (ret (run_c tox_pass_key_derive passphrase m))))"

text \<open>\<open>std::max (0l, long (size) - EXTRA)\<close>.\<close>

definition decrypted_size :: "nat \<Rightarrow> nat" where
  "decrypted_size n = nat (max 0 (int n - int TOX_PASS_ENCRYPTION_EXTRA_LENGTH))"

type_synonym 'e crypt_fun = "(pass_key \<Rightarrow> pointer \<Rightarrow> nat \<Rightarrow> bool \<times> uint8 list \<times> 'e) cfun"

text \<open>A C function that fills the vector \<open>out\<close> of \<open>n\<close> bytes.\<close>

definition crypt_into ::
  "'e crypt_fun \<Rightarrow> pass_key \<Rightarrow> pointer \<Rightarrow> nat \<Rightarrow> nat \<Rightarrow> ('s, (bool \<times> uint8 list) \<times> 'e) prog" where
  "crypt_into f key data len n =
    (let (b, out, e) = run_c f key data len in
     andThen (fill_buffer (replicate n 0) out) (\<lambda>vec. ret ((b, vec), e)))"

definition toxPassKeyDecrypt ::
  "TOX_ERR_DECRYPTION crypt_fun \<Rightarrow> uint8 jarray \<Rightarrow> uint8 jarray \<Rightarrow>
   ('z logenv_scheme, uint8 jarray) prog" where
  "toxPassKeyDecrypt tox_pass_key_decrypt dataArray passKeyArray =
     andThen (fromJavaArray dataArray) (\<lambda>data.
     andThen (array_size data) (\<lambda>n.
     andThen (pass_key_from_java passKeyArray) (\<lambda>pass_key.
     crypto_call tox_err_decryption_enum (\<lambda>(b, _). Arg_integer (of_bool_int b)) None
       (\<lambda>(_, out). toJavaArray out) (addr_of tox_pass_key_decrypt)
       (crypt_into tox_pass_key_decrypt pass_key data n (decrypted_size n)))))"

definition toxPassKeyEncrypt ::
  "TOX_ERR_ENCRYPTION crypt_fun \<Rightarrow> uint8 jarray \<Rightarrow> uint8 jarray \<Rightarrow>
   ('z logenv_scheme, uint8 jarray) prog" where
  "toxPassKeyEncrypt tox_pass_key_encrypt dataArray passKeyArray =
     andThen (fromJavaArray dataArray) (\<lambda>data.
     andThen (array_size data) (\<lambda>n.
     andThen (pass_key_from_java passKeyArray) (\<lambda>pass_key.
     crypto_call tox_err_encryption_enum (\<lambda>(b, _). Arg_integer (of_bool_int b)) None
       (\<lambda>(_, out). toJavaArray out) (addr_of tox_pass_key_encrypt)
       (crypt_into tox_pass_key_encrypt pass_key data n (n + TOX_PASS_ENCRYPTION_EXTRA_LENGTH)))))"

section \<open>hash.cpp\<close>

definition toxHash ::
  "uint8 list \<Rightarrow> (pointer \<Rightarrow> nat \<Rightarrow> bool \<times> uint8 list) cfun \<Rightarrow> uint8 jarray \<Rightarrow>
   ('z logenv_scheme, uint8 jarray) prog" where
  "toxHash stack tox_hash dataArray =
     andThen (fromJavaArray dataArray) (\<lambda>data.
     andThen (array_size data) (\<lambda>n.
     let (result, out) = run_c tox_hash data n in
     andThen (fill_buffer stack out) (\<lambda>hash.
     andThen (tox4j_assert ''ToxCrypto/hash.cpp:17'' ''result'' result) (\<lambda>_.
     toJavaArray hash))))"

end
