(* ===== verification/Logging.thy ===== *)
theory Logging
  imports Prelude
begin

text \<open>
  \<open>util/logging.{h,cpp}\<close>: the scope counter and the indentation of log lines, the \<open>format\<close>
  helper around \<open>snprintf\<close>, and the printing of byte arrays in hexadecimal.
\<close>

section \<open>Scopes\<close>

text \<open>The constructor and the destructor of \<open>scope_counter\<close>; \<open>scope\<close> is a \<open>size_t\<close>.\<close>

definition scope_enter :: "uint64 \<Rightarrow> uint64" where
  "scope_enter scope = scope + 1"

definition scope_leave :: "uint64 \<Rightarrow> uint64" where
  "scope_leave scope = scope - 1"

text \<open>The number of blanks is computed at 64 bits without sign.\<close>

definition scope_indent :: "uint64 \<Rightarrow> string \<Rightarrow> jint \<Rightarrow> string" where
  "scope_indent scope os line =
     os @ replicate (unat (scope - of_bool (sint line \<ge> 1000))) CHR '' ''"

section \<open>Formatting\<close>

definition NUL :: char where
  "NUL = CHR 0x00"

text \<open>
  \<open>format\<close>: \<open>snprintf\<close> gives the text; the vector has one character more, the terminator, and
  \<open>operator <<\<close> writes the whole vector.
\<close>

definition format_text :: "string \<Rightarrow> string" where
  "format_text printed = printed @ [NUL]"

definition put_formatter :: "string \<Rightarrow> string \<Rightarrow> string" where
  "put_formatter os fmt = os @ fmt"

definition hex_digit :: "nat \<Rightarrow> char" where
  "hex_digit n = char_of (if n < 10 then 48 + n else 87 + n)"

definition print_02x :: "uint8 \<Rightarrow> string" where
  "print_02x b = [hex_digit (unat b div 16), hex_digit (unat b mod 16)]"

fun output_hex_loop :: "string \<Rightarrow> uint8 list \<Rightarrow> string" where
  "output_hex_loop os [] = os"
| "output_hex_loop os (b # data) = output_hex_loop (put_formatter os (format_text (print_02x b))) data"

definition output_hex :: "string \<Rightarrow> uint8 list \<Rightarrow> string" where
  "output_hex os data = output_hex_loop (os @ ''['') data @ '']''"

text \<open>\<open>operator <<\<close> for a \<open>std::array\<close> of bytes.\<close>

definition put_array :: "string \<Rightarrow> uint8 list \<Rightarrow> string" where
  "put_array os array = output_hex os array"

section \<open>Log lines\<close>

text \<open>
  \<open>LOG\<close>: with glog an indented line of its stream, otherwise a \<open>null_ostream\<close>, here \<open>None\<close>, which drops
  what is written to it.
\<close>

definition LOG :: "bool \<Rightarrow> uint64 \<Rightarrow> string \<Rightarrow> jint \<Rightarrow> string option" where
  "LOG have_glog scope stream line = (if have_glog then Some (scope_indent scope stream line) else None)"

definition put :: "(string \<Rightarrow> string) \<Rightarrow> string option \<Rightarrow> string option" where
  "put write os = map_option write os"

section \<open>Lemmas\<close>

text \<open>Without glog a statement \<open>LOG (INFO) << ...\<close> writes nothing, and with it only after the indentation.\<close>

lemma log_line:
  assumes "\<And>w os. w \<in> set writes \<Longrightarrow> \<exists>str. w os = os @ str"
  shows "fold put writes (LOG False scope stream line) = None"
    and "\<exists>str. fold put writes (LOG True scope stream line) = Some (scope_indent scope stream line @ str)"
proof -
  show "fold put writes (LOG False scope stream line) = None"
    by (induction writes) (simp_all add: LOG_def put_def)
  have "\<exists>str. fold put writes (Some os) = Some (os @ str)" for os
    using assms
  proof (induction writes arbitrary: os)
    case (Cons w writes)
    then obtain str where "w os = os @ str" by (meson list.set_intros(1))
    with Cons.IH [of "os @ str"] Cons.prems show ?case by (auto simp: put_def)
  qed simp
  then show "\<exists>str. fold put writes (LOG True scope stream line) = Some (scope_indent scope stream line @ str)"
    by (simp add: LOG_def)
qed

text \<open>The text that was meant: the digits between brackets.\<close>

definition hex_text :: "uint8 list \<Rightarrow> string" where
  "hex_text data = ''['' @ concat (map print_02x data) @ '']''"

lemma output_hex_loop_eq: "output_hex_loop os data = os @ concat (map (\<lambda>b. print_02x b @ [NUL]) data)"
  by (induction data arbitrary: os) (simp_all add: format_text_def put_formatter_def)

lemma hex_digit_not_NUL: "n < 16 \<Longrightarrow> hex_digit n \<noteq> NUL"
proof
  assume n: "n < 16" and "hex_digit n = NUL"
  then have "of_char (hex_digit n) = (0 :: nat)" by (simp add: NUL_def)
  with n show False by (simp add: hex_digit_def split: if_splits)
qed

lemma print_02x_no_NUL: "filter (\<lambda>c. c \<noteq> NUL) (print_02x b) = print_02x b"
proof -
  have "unat b < 2 ^ LENGTH(8)" by (rule unsigned_less)
  then have "unat b div 16 < 16" "unat b mod 16 < 16" by simp_all
  then show ?thesis by (simp add: print_02x_def hex_digit_not_NUL)
qed

lemma filter_hex_loop:
  "filter (\<lambda>c. c \<noteq> NUL) (concat (map (\<lambda>b. print_02x b @ [NUL]) data)) = concat (map print_02x data)"
  by (induction data) (simp_all add: print_02x_no_NUL)

end
