(* ===== verification/Data_Properties.thy ===== *)
theory Data_Properties
  imports Av_Api Crypto_Api Logging
begin

text \<open>
  Properties of the data that crosses the language boundary: enumerations, error codes,
  audio samples, call states, logged values, pass keys.
\<close>

section \<open>Enumerations\<close>

lemma fatal_andThen [simp]: "andThen (tox4j_fatal_error m) f = tox4j_fatal_error m"
  by (rule ext) (simp add: tox4j_fatal_error_def andThen_def fail_def)

context enum_codec
begin

lemma java_round_trip:
  "andThen (valueOf n) ordinal =
     (if unat n < length members then ret n else tox4j_fatal_error ''Invalid enumerator from Java'')"
  using ordinal_valueOf [of n] valueOf_other [of n] by simp

end

lemma consts_length:
  "length consts_TOX_CONNECTION = 3"
  "length consts_TOX_FILE_CONTROL = 3"
  "length consts_TOX_MESSAGE_TYPE = 2"
  "length consts_TOX_PROXY_TYPE = 3"
  "length consts_TOX_SAVEDATA_TYPE = 3"
  "length consts_TOX_USER_STATUS = 3"
  "length consts_TOXAV_CALL_CONTROL = 7"
  "length consts_TOXAV_FRIEND_CALL_STATE = 6"
  by (simp_all add: consts_TOX_CONNECTION_def
      consts_TOX_FILE_CONTROL_def
      consts_TOX_MESSAGE_TYPE_def
      consts_TOX_PROXY_TYPE_def
      consts_TOX_SAVEDATA_TYPE_def
      consts_TOX_USER_STATUS_def
      consts_TOXAV_CALL_CONTROL_def consts_TOXAV_FRIEND_CALL_STATE_def)

text \<open>
  C27. A Java ordinal survives the way through each of the eight C enumerations that have
  ordinals, six of toxcore and two of toxav, and every number that is not an ordinal of the enumeration ends the process with a fatal error instead of
  reaching toxcore.
\<close>

theorem java_ordinals_round_trip:
  "andThen (valueOf_TOX_CONNECTION n) ordinal_TOX_CONNECTION =
     (if unat n < 3 then ret n else tox4j_fatal_error ''Invalid enumerator from Java'') \<and>
   andThen (valueOf_TOX_FILE_CONTROL n) ordinal_TOX_FILE_CONTROL =
     (if unat n < 3 then ret n else tox4j_fatal_error ''Invalid enumerator from Java'') \<and>
   andThen (valueOf_TOX_MESSAGE_TYPE n) ordinal_TOX_MESSAGE_TYPE =
     (if unat n < 2 then ret n else tox4j_fatal_error ''Invalid enumerator from Java'') \<and>
   andThen (valueOf_TOX_PROXY_TYPE n) ordinal_TOX_PROXY_TYPE =
     (if unat n < 3 then ret n else tox4j_fatal_error ''Invalid enumerator from Java'') \<and>
   andThen (valueOf_TOX_SAVEDATA_TYPE n) ordinal_TOX_SAVEDATA_TYPE =
     (if unat n < 3 then ret n else tox4j_fatal_error ''Invalid enumerator from Java'') \<and>
   andThen (valueOf_TOX_USER_STATUS n) ordinal_TOX_USER_STATUS =
     (if unat n < 3 then ret n else tox4j_fatal_error ''Invalid enumerator from Java'') \<and>
   andThen (valueOf_TOXAV_CALL_CONTROL n) ordinal_TOXAV_CALL_CONTROL =
     (if unat n < 7 then ret n else tox4j_fatal_error ''Invalid enumerator from Java'') \<and>
   andThen (valueOf_TOXAV_FRIEND_CALL_STATE n) ordinal_TOXAV_FRIEND_CALL_STATE =
     (if unat n < 6 then ret n else tox4j_fatal_error ''Invalid enumerator from Java'')"
  by (simp add: consts_length tox_connection.java_round_trip
      tox_file_control.java_round_trip
      tox_message_type.java_round_trip
      tox_proxy_type.java_round_trip
      tox_savedata_type.java_round_trip
      tox_user_status.java_round_trip
      toxav_call_control.java_round_trip
      toxav_friend_call_state.java_round_trip)

section \<open>Error codes\<close>

context error_codes
begin

lemma inj_throwable: "inj (error_throwable sub en)"
  by (rule injI) (rule error_throwable_inject)

end

text \<open>
  C28. The exception tells the error code: for every error enumeration of toxcore, toxav and
  toxencryptsave, two codes that raise the same exception (or none) are the same code.
\<close>

theorem exceptions_identify_codes:
  "inj (error_throwable core_subsystem tox_err_bootstrap_enum) \<and>
   inj (error_throwable core_subsystem tox_err_file_control_enum) \<and>
   inj (error_throwable core_subsystem tox_err_file_get_enum) \<and>
   inj (error_throwable core_subsystem tox_err_file_seek_enum) \<and>
   inj (error_throwable core_subsystem tox_err_file_send_chunk_enum) \<and>
   inj (error_throwable core_subsystem tox_err_file_send_enum) \<and>
   inj (error_throwable core_subsystem tox_err_friend_add_enum) \<and>
   inj (error_throwable core_subsystem tox_err_friend_by_public_key_enum) \<and>
   inj (error_throwable core_subsystem tox_err_friend_custom_packet_enum) \<and>
   inj (error_throwable core_subsystem tox_err_friend_delete_enum) \<and>
   inj (error_throwable core_subsystem tox_err_friend_get_public_key_enum) \<and>
   inj (error_throwable core_subsystem tox_err_friend_send_message_enum) \<and>
   inj (error_throwable core_subsystem tox_err_get_port_enum) \<and>
   inj (error_throwable core_subsystem tox_err_new_enum) \<and>
   inj (error_throwable core_subsystem tox_err_set_info_enum) \<and>
   inj (error_throwable core_subsystem tox_err_set_typing_enum) \<and>
   inj (error_throwable av_subsystem toxav_err_answer_enum) \<and>
   inj (error_throwable av_subsystem toxav_err_bit_rate_set_enum) \<and>
   inj (error_throwable av_subsystem toxav_err_call_control_enum) \<and>
   inj (error_throwable av_subsystem toxav_err_call_enum) \<and>
   inj (error_throwable av_subsystem toxav_err_new_enum) \<and>
   inj (error_throwable av_subsystem toxav_err_send_frame_enum) \<and>
   inj (error_throwable crypto_subsystem tox_err_decryption_enum) \<and>
   inj (error_throwable crypto_subsystem tox_err_encryption_enum) \<and>
   inj (error_throwable crypto_subsystem tox_err_get_salt_enum) \<and>
   inj (error_throwable crypto_subsystem tox_err_key_derivation_enum)"
  by (intro conjI) (rule tox_err_bootstrap.inj_throwable
      tox_err_file_control.inj_throwable
      tox_err_file_get.inj_throwable
      tox_err_file_seek.inj_throwable
      tox_err_file_send_chunk.inj_throwable
      tox_err_file_send.inj_throwable
      tox_err_friend_add.inj_throwable
      tox_err_friend_by_public_key.inj_throwable
      tox_err_friend_custom_packet.inj_throwable
      tox_err_friend_delete.inj_throwable
      tox_err_friend_get_public_key.inj_throwable
      tox_err_friend_send_message.inj_throwable
      tox_err_get_port.inj_throwable
      tox_err_new.inj_throwable
      tox_err_set_info.inj_throwable
      tox_err_set_typing.inj_throwable
      toxav_err_answer.inj_throwable
      toxav_err_bit_rate_set.inj_throwable
      toxav_err_call_control.inj_throwable
      toxav_err_call.inj_throwable
      toxav_err_new.inj_throwable
      toxav_err_send_frame.inj_throwable
      tox_err_decryption.inj_throwable
      tox_err_encryption.inj_throwable
      tox_err_get_salt.inj_throwable
      tox_err_key_derivation.inj_throwable)+

section \<open>Audio and video events\<close>

text \<open>
  C29. Audio samples survive the way to Java: the callback stores the samples in the event as
  big-endian bytes, and what the Java side decodes from them are exactly the
  \<open>sample_count * channels\<close> samples that toxav passed; no other event is touched.
\<close>

theorem audio_samples_round_trip:
  assumes "valid_samples pcm (sample_count * ucast channels)"
  shows "\<exists>frame. tox4j_audio_receive_frame_cb fn pcm sample_count channels rate ev s =
       Done (ev\<lparr>av_audio_receive_frame := av_audio_receive_frame ev @ [frame]\<rparr>, s) \<and>
     from_bytes_int16 (arf_pcm frame) = sample_list pcm (sample_count * ucast channels) \<and>
     arf_friend_number frame = fn \<and> unat (arf_channels frame) = unat channels \<and>
     arf_sampling_rate frame = rate"
proof -
  have "uint (ucast channels :: uint32) = uint channels"
    by (rule uint_up_ucast) (simp add: is_up)
  then have "unat (ucast channels :: uint32) = unat channels" by (simp only: unat_eq_nat_uint)
  with assms show ?thesis
    by (intro exI [of _ "\<lparr>arf_friend_number = fn,
          arf_pcm = concat (map be16 (sample_list pcm (sample_count * ucast channels))),
          arf_channels = ucast channels, arf_sampling_rate = rate\<rparr>"])
      (simp add: tox4j_audio_receive_frame_cb_def andThen_def sample_range_valid
        shorts.to_bytes_eq shorts.decode_concat)
qed

theorem audio_samples_round_trip_witness:
  "\<exists>frame. tox4j_audio_receive_frame_cb 7 (Some [1, - 1, 0x1234, - 32768]) 2 2 48000 no_av_events () =
       Done (no_av_events\<lparr>av_audio_receive_frame := [frame]\<rparr>, ()) \<and>
     from_bytes_int16 (arf_pcm frame) = [1, - 1, 0x1234, - 32768]"
  using audio_samples_round_trip [of "Some [1, - 1, 0x1234, - 32768]" 2 2 7 48000 no_av_events "()"]
  by (auto simp: no_av_events_def)

text \<open>
  \<open>ToxAvProtoConverter.convert\<close> on the Java side, from the kinds of an event to call states and
  from a set of call states to a bit mask. \<open>State_OTHER\<close> stands for any further constant of the
  Java enumeration, which is not part of this repository.
\<close>

datatype ToxavFriendCallState =
    State_ERROR | State_FINISHED | State_SENDING_A | State_SENDING_V | State_ACCEPTING_A
  | State_ACCEPTING_V | State_OTHER nat

fun convert_kind :: "CallStateKind \<Rightarrow> ToxavFriendCallState" where
  "convert_kind Kind_ERROR = State_ERROR"
| "convert_kind Kind_FINISHED = State_FINISHED"
| "convert_kind Kind_SENDING_A = State_SENDING_A"
| "convert_kind Kind_SENDING_V = State_SENDING_V"
| "convert_kind Kind_ACCEPTING_A = State_ACCEPTING_A"
| "convert_kind Kind_ACCEPTING_V = State_ACCEPTING_V"

fun state_mask :: "ToxavFriendCallState \<Rightarrow> uint32" where
  "state_mask State_ERROR = push_bit 0 1"
| "state_mask State_FINISHED = push_bit 1 1"
| "state_mask State_SENDING_A = push_bit 2 1"
| "state_mask State_SENDING_V = push_bit 3 1"
| "state_mask State_ACCEPTING_A = push_bit 4 1"
| "state_mask State_ACCEPTING_V = push_bit 5 1"
| "state_mask (State_OTHER _) = 0"

definition convert_states :: "ToxavFriendCallState list \<Rightarrow> uint32" where
  "convert_states states = foldl (\<lambda>mask state. mask OR state_mask state) 0 states"

text \<open>The values that \<open>toxav.h\<close> documents for the bits.\<close>

definition documented_bits :: "(TOXAV_FRIEND_CALL_STATE \<Rightarrow> uint32) \<Rightarrow> bool" where
  "documented_bits bits \<longleftrightarrow>
     bits TOXAV_FRIEND_CALL_STATE_ERROR = 1 \<and> bits TOXAV_FRIEND_CALL_STATE_FINISHED = 2 \<and>
     bits TOXAV_FRIEND_CALL_STATE_SENDING_A = 4 \<and> bits TOXAV_FRIEND_CALL_STATE_SENDING_V = 8 \<and>
     bits TOXAV_FRIEND_CALL_STATE_ACCEPTING_A = 16 \<and> bits TOXAV_FRIEND_CALL_STATE_ACCEPTING_V = 32"

fun kind_index :: "CallStateKind \<Rightarrow> nat" where
  "kind_index Kind_ERROR = 0"
| "kind_index Kind_FINISHED = 1"
| "kind_index Kind_SENDING_A = 2"
| "kind_index Kind_SENDING_V = 3"
| "kind_index Kind_ACCEPTING_A = 4"
| "kind_index Kind_ACCEPTING_V = 5"

lemma bit_state_mask: "bit (state_mask st) (kind_index k) \<longleftrightarrow> st = convert_kind k"
  by (cases st; cases k) (simp_all add: bit_exp_iff)

lemma bit_convert_loop:
  "bit (foldl (\<lambda>mask state. mask OR state_mask state) m states) (kind_index k) \<longleftrightarrow>
     bit m (kind_index k) \<or> convert_kind k \<in> set states"
  by (induction states arbitrary: m) (auto simp: bit_or_iff bit_state_mask)

lemma bit_convert_states: "bit (convert_states states) (kind_index k) \<longleftrightarrow> convert_kind k \<in> set states"
  by (simp add: convert_states_def bit_convert_loop)

lemma range_convert_kind: "range convert_kind = - range State_OTHER"
proof (intro set_eqI iffI)
  fix st assume "st \<in> range convert_kind"
  then obtain k where "st = convert_kind k" by blast
  then show "st \<in> - range State_OTHER" by (cases k) auto
next
  fix st assume "st \<in> - range State_OTHER"
  then show "st \<in> range convert_kind"
    by (cases st) (auto simp: image_iff intro: convert_kind.simps [symmetric])
qed

lemma call_state_kinds_bits:
  assumes "documented_bits bits"
  shows "set (call_state_kinds bits w) = {k. bit w (kind_index k)}" and "distinct (call_state_kinds bits w)"
proof -
  have flags: "w AND 1 \<noteq> 0 \<longleftrightarrow> bit w 0" "w AND 2 \<noteq> 0 \<longleftrightarrow> bit w 1" "w AND 4 \<noteq> 0 \<longleftrightarrow> bit w 2"
    "w AND 8 \<noteq> 0 \<longleftrightarrow> bit w 3" "w AND 16 \<noteq> 0 \<longleftrightarrow> bit w 4" "w AND 32 \<noteq> 0 \<longleftrightarrow> bit w 5"
    using and_exp_eq_0_iff_not_bit [of w 0] and_exp_eq_0_iff_not_bit [of w 1]
      and_exp_eq_0_iff_not_bit [of w 2] and_exp_eq_0_iff_not_bit [of w 3]
      and_exp_eq_0_iff_not_bit [of w 4] and_exp_eq_0_iff_not_bit [of w 5] by simp_all
  have "k \<in> set (call_state_kinds bits w) \<longleftrightarrow> bit w (kind_index k)" for k
    using assms
    by (cases k) (simp_all add: call_state_kinds_def call_state_case_def documented_bits_def flags)
  then show "set (call_state_kinds bits w) = {k. bit w (kind_index k)}" by blast
  show "distinct (call_state_kinds bits w)"
    by (simp add: call_state_kinds_def call_state_case_def)
qed

text \<open>
  C30. A set of call states survives the way from Java through \<open>invokeCallState\<close> and back: the kinds
  of the event that \<open>tox4j_call_state_cb\<close> appends, converted back, are the states that were
  converted to the mask, each once. A constant that the converter does not know is lost.
\<close>

theorem call_states_round_trip:
  assumes "documented_bits bits"
  shows "\<exists>kinds. tox4j_call_state_cb bits fn (convert_states states) ev s =
       Done (ev\<lparr>av_call_state := av_call_state ev @ [CallState fn kinds]\<rparr>, s) \<and>
     distinct kinds \<and> convert_kind ` set kinds = set states - range State_OTHER"
proof -
  let ?kinds = "call_state_kinds bits (convert_states states)"
  have "set ?kinds = {k. convert_kind k \<in> set states}"
    by (simp add: call_state_kinds_bits [OF assms] bit_convert_states)
  moreover have "convert_kind ` {k. convert_kind k \<in> set states} = set states \<inter> range convert_kind" by auto
  ultimately have "convert_kind ` set ?kinds = set states - range State_OTHER"
    by (simp only: range_convert_kind Diff_eq)
  then show ?thesis
    by (intro exI [of _ ?kinds]) (simp add: tox4j_call_state_cb_def call_state_kinds_bits [OF assms])
qed

definition toxav_bits :: "TOXAV_FRIEND_CALL_STATE \<Rightarrow> uint32" where
  "toxav_bits st =
    (case st of
       TOXAV_FRIEND_CALL_STATE_ERROR \<Rightarrow> 1
     | TOXAV_FRIEND_CALL_STATE_FINISHED \<Rightarrow> 2
     | TOXAV_FRIEND_CALL_STATE_SENDING_A \<Rightarrow> 4
     | TOXAV_FRIEND_CALL_STATE_SENDING_V \<Rightarrow> 8
     | TOXAV_FRIEND_CALL_STATE_ACCEPTING_A \<Rightarrow> 16
     | TOXAV_FRIEND_CALL_STATE_ACCEPTING_V \<Rightarrow> 32
     | TOXAV_FRIEND_CALL_STATE_OTHER _ \<Rightarrow> 0)"

theorem call_states_round_trip_witness:
  "\<exists>kinds. tox4j_call_state_cb toxav_bits 7 (convert_states [State_ACCEPTING_A, State_OTHER 9, State_SENDING_A])
       no_av_events () = Done (no_av_events\<lparr>av_call_state := [CallState 7 kinds]\<rparr>, ()) \<and>
     distinct kinds \<and> convert_kind ` set kinds = {State_SENDING_A, State_ACCEPTING_A}"
proof -
  have "set [State_ACCEPTING_A, State_OTHER 9, State_SENDING_A] - range State_OTHER =
      {State_SENDING_A, State_ACCEPTING_A}" by auto
  with call_states_round_trip [of toxav_bits 7 "[State_ACCEPTING_A, State_OTHER 9, State_SENDING_A]" no_av_events "()"]
  show ?thesis by (auto simp: documented_bits_def toxav_bits_def no_av_events_def simp del: convert_kind.simps)
qed

section \<open>Logged values\<close>

text \<open>
  C38. Data in the log is cut after 128 bytes, and the cut is visible: what is logged is a
  prefix of the data, all of it exactly when the \<open>truncated\<close> field is zero, and otherwise
  that field tells the original length.
\<close>

theorem logged_bytes_bounded:
  assumes "length bytes < 2 ^ 32"
  shows "\<exists>truncated out. print_bytes (Some bytes) = Value truncated (V_bytes out) \<and>
     out = take (length out) bytes \<and> length out \<le> 128 \<and>
     (truncated = 0 \<longleftrightarrow> out = bytes) \<and> (truncated \<noteq> 0 \<longrightarrow> unat truncated = length bytes)"
proof (cases "length bytes > 128")
  case True
  with assms have "unat (word_of_nat (length bytes) :: 32 word) = length bytes" by (simp add: unat_of_nat)
  moreover from this True have "(word_of_nat (length bytes) :: 32 word) \<noteq> 0" by auto
  moreover from True have "take 128 bytes \<noteq> bytes" by (metis length_take min_less_iff_conj nat_neq_iff)
  ultimately show ?thesis using True by (simp add: print_bytes_def MAX_DATA_LOG_LENGTH_def)
next
  case False
  then show ?thesis by (simp add: print_bytes_def MAX_DATA_LOG_LENGTH_def)
qed

theorem logged_bytes_bounded_witness:
  "\<exists>truncated out. print_bytes (Some (replicate 200 0)) = Value truncated (V_bytes out) \<and>
     length out \<le> 128 \<and> (truncated = 0 \<longleftrightarrow> out = replicate 200 0)"
proof -
  have "length (replicate 200 (0 :: uint8)) < 2 ^ 32" unfolding length_replicate by simp
  from logged_bytes_bounded [OF this] show ?thesis by (elim exE conjE) (intro exI conjI)
qed

text \<open>
  The duration of a call is logged modulo \<open>2\<^sup>3\<^sup>2\<close> nanoseconds: the field is right for a call
  of less than about 4.3 seconds and wraps around for a longer one.
\<close>

theorem elapsed_time_wraps:
  "uint (elapsed_nanos (record_times start stop e)) = (stop - start) mod 2 ^ 32"
  by (simp add: record_times_def unsigned_of_int take_bit_eq_mod del: of_int_diff)

text \<open>
  C37. A log entry whose function was not registered when it was made carries the decimal
  address, and \<open>clear\<close> replaces it by the name registered meanwhile; names of functions are
  never taken for addresses. Nothing else of an entry changes: its instance, arguments, result
  and times are handed out as they were logged, and so is the order of the entries.
\<close>

theorem names_are_resolved:
  assumes "names_wf old" and "names_wf names"
    and "\<forall>f nm. old f = Some nm \<longrightarrow> names f = Some nm"
  shows "resolve_names names (map (\<lambda>(p, f, e). (p, e\<lparr>entry_name := func_name old f\<rparr>)) calls) s =
    Done (map (\<lambda>(p, f, e). e\<lparr>entry_name := func_name names f\<rparr>) calls, s)"
proof (induction calls)
  case (Cons c calls)
  obtain p f e where c: "c = (p, f, e)" by (cases c)
  have "func_name old f \<noteq> []" by (rule func_name_ne [OF assms(1)])
  moreover have "(if isdigit (hd (func_name old f)) then func_name names (read_uintptr (func_name old f))
      else func_name old f) = func_name names f"
    using assms
    by (cases "old f") (auto simp: func_name_def hd_to_string_nat read_uintptr_to_string names_wf_def)
  ultimately show ?case using Cons by (auto simp: c andThen_def split: if_splits)
qed simp

definition logged_call :: log_entry where
  "logged_call = blank_entry\<lparr>entry_instance := 3, entry_arguments := [print_integer 5],
     entry_result := Some (print_integer 1), elapsed_nanos := 12345\<rparr>"

theorem names_are_resolved_witness:
  "resolve_names (\<lambda>f. if f = 7 then Some ''tox_hash'' else None)
     [(0, logged_call\<lparr>entry_name := ''7''\<rparr>)] () =
   Done ([logged_call\<lparr>entry_name := ''tox_hash''\<rparr>], ())"
proof -
  have "to_string_nat 7 = ''7''" by (simp add: to_string_nat.simps digit_char_def char_of_def bit_0)
  then show ?thesis
    using names_are_resolved [of "\<lambda>_. None" "\<lambda>f. if f = 7 then Some ''tox_hash'' else None"
        "[(0, 7, logged_call)]" "()"]
    by (simp add: names_wf_def isdigit_def func_name_def)
qed

section \<open>Text output\<close>

text \<open>
  \<open>output_hex\<close> writes the digits of every byte, but also the terminator of every formatted
  text: one NUL character per byte, three characters instead of two.
\<close>

theorem output_hex_text:
  "filter (\<lambda>c. c \<noteq> NUL) (output_hex [] data) = hex_text data \<and>
   length (output_hex [] data) = length (hex_text data) + length data \<and>
   length (filter (\<lambda>c. c = NUL) (output_hex [] data)) = length data"
proof -
  have out: "output_hex [] data = ''['' @ concat (map (\<lambda>b. print_02x b @ [NUL]) data) @ '']''"
    by (simp add: output_hex_def output_hex_loop_eq)
  have digits: "filter (\<lambda>c. c \<noteq> NUL) (output_hex [] data) = hex_text data"
    using filter_hex_loop [of data] by (simp add: out hex_text_def) (simp add: NUL_def)
  moreover have "length (output_hex [] data) = length (hex_text data) + length data"
    by (induction data) (simp_all add: output_hex_def output_hex_loop_eq hex_text_def)
  moreover have "length (filter (\<lambda>c. c \<noteq> NUL) xs) + length (filter (\<lambda>c. c = NUL) xs) = length xs" for xs
    using sum_length_filter_compl [of "\<lambda>c. c \<noteq> NUL" xs] by simp
  ultimately show ?thesis by (metis add_diff_cancel_left')
qed

text \<open>
  Inside \<open>d\<close> scopes a line is indented by \<open>d\<close> blanks, by one less from line 1000 on; outside
  of all scopes the subtraction wraps around and the loop would write \<open>2\<^sup>6\<^sup>4 - 1\<close> blanks.
\<close>

theorem scope_indentation:
  "length (scope_indent ((scope_enter ^^ d) 0) os line) =
     length os + (if sint line < 1000 then d mod 2 ^ 64
                  else if d mod 2 ^ 64 = 0 then 2 ^ 64 - 1 else d mod 2 ^ 64 - 1)"
proof -
  have scope: "(scope_enter ^^ d) 0 = word_of_nat d"
    by (induction d) (simp_all add: scope_enter_def)
  have "unat (word_of_nat d :: uint64) = d mod 2 ^ 64" by (simp add: unat_of_nat)
  moreover have "unat (w - 1 :: uint64) = (if unat w = 0 then 2 ^ 64 - 1 else unat w - 1)" for w
    by (cases "w = 0") (simp_all add: unat_minus_one unat_eq_0 unsigned_minus_1_eq_mask mask_eq_exp_minus_1)
  ultimately show ?thesis by (simp add: scope_indent_def scope)
qed

section \<open>Encryption\<close>

text \<open>
  A pass key survives the way to Java and back.
\<close>

theorem pass_key_round_trip:
  assumes "length key = PASS_KEY_SIZE" and "pending s = None"
  shows "andThen (pass_key_to_java key) pass_key_from_java s = Done (key, s)"
  using assms
  by (simp add: pass_key_to_java_def pass_key_from_java_def andThen_def toJavaArray_Done
      fromJavaArray_Done array_size_Done fill_buffer_def PASS_KEY_SIZE_def TOX_PASS_SALT_LENGTH_def
      TOX_PASS_KEY_LENGTH_def)

definition plain_env :: logenv where
  "plain_env = any_log"

theorem pass_key_round_trip_witness:
  "andThen (pass_key_to_java (replicate 64 7)) pass_key_from_java plain_env = Done (replicate 64 7, plain_env)"
proof (rule pass_key_round_trip)
  show "length (replicate 64 (7 :: uint8)) = PASS_KEY_SIZE" "pending plain_env = None"
    unfolding length_replicate
    by (simp_all add: PASS_KEY_SIZE_def TOX_PASS_SALT_LENGTH_def TOX_PASS_KEY_LENGTH_def
        plain_env_def any_log_def)
qed

text \<open>
  C31. A salt of the wrong length is refused before any key is derived: the exception
  \<open>ToxKeyDerivationException.INVALID_LENGTH\<close> is raised, null is returned, toxcore is not called and
  nothing is logged.
\<close>

theorem wrong_salt_is_refused:
  assumes "array_len salt \<noteq> TOX_PASS_SALT_LENGTH" and "pending s = None"
    and "vm_has_exception (jvm_of s) (error_class_name crypto_subsystem tox_err_key_derivation_enum)
      ''INVALID_LENGTH''"
  shows "toxPassKeyDeriveWithSalt f passphrase salt s =
    Done (None, s\<lparr>pending := Some (tox_throwable
      (error_class_name crypto_subsystem tox_err_key_derivation_enum) ''INVALID_LENGTH'')\<rparr>)"
  using assms
  by (simp add: toxPassKeyDeriveWithSalt_def andThen_def fromJavaArray_Done array_size_Done
      throw_tox_error_Done)

theorem wrong_salt_is_refused_witness:
  "toxPassKeyDeriveWithSalt (99, \<lambda>_ _ _. Some (None, TOX_ERR_KEY_DERIVATION_OK)) (Some [1]) (Some [2]) plain_env =
    Done (None, plain_env\<lparr>pending := Some (tox_throwable
      ''im/tox/tox4j/crypto/exceptions/ToxKeyDerivationException'' ''INVALID_LENGTH'')\<rparr>)"
proof -
  have "error_class_name crypto_subsystem tox_err_key_derivation_enum =
      ''im/tox/tox4j/crypto/exceptions/ToxKeyDerivationException''" by code_simp
  with wrong_salt_is_refused [of "Some [2]" plain_env
      "(99, \<lambda>_ _ _. Some (None, TOX_ERR_KEY_DERIVATION_OK))" "Some [1]"] show ?thesis
    by (simp add: TOX_PASS_SALT_LENGTH_def plain_env_def any_log_def)
qed

text \<open>A function that reads at most the header of data that has one.\<close>

definition reads_header :: "(pointer \<Rightarrow> 'a option) \<Rightarrow> bool" where
  "reads_header f \<longleftrightarrow> (\<forall>bytes. TOX_PASS_ENCRYPTION_EXTRA_LENGTH \<le> length bytes \<longrightarrow>
     in_bounds (f (Some bytes)) \<and> f (Some bytes) = f (Some (take TOX_PASS_ENCRYPTION_EXTRA_LENGTH bytes)))"

text \<open>
  C32. Data shorter than an encryption header is reported as not encrypted without being read;
  longer data is passed to toxcore. If toxcore reads no more than the header, as it documents,
  the call has no effect and cannot fail.
\<close>

theorem is_data_encrypted_total:
  assumes "pending s = None"
  shows "toxIsDataEncrypted f data s =
      (if array_len data < TOX_PASS_ENCRYPTION_EXTRA_LENGTH then Done (False, s) else call_c (run_c f data) s) \<and>
    (reads_header (run_c f) \<longrightarrow> toxIsDataEncrypted f data s =
      Done (\<not> array_len data < TOX_PASS_ENCRYPTION_EXTRA_LENGTH \<and>
            the (run_c f (map_option (take TOX_PASS_ENCRYPTION_EXTRA_LENGTH) data)), s))"
proof (intro conjI impI)
  show run: "toxIsDataEncrypted f data s =
      (if array_len data < TOX_PASS_ENCRYPTION_EXTRA_LENGTH then Done (False, s) else call_c (run_c f data) s)"
    using assms by (simp add: toxIsDataEncrypted_def andThen_def fromJavaArray_Done array_size_Done)
  assume header: "reads_header (run_c f)"
  show "toxIsDataEncrypted f data s =
      Done (\<not> array_len data < TOX_PASS_ENCRYPTION_EXTRA_LENGTH \<and>
            the (run_c f (map_option (take TOX_PASS_ENCRYPTION_EXTRA_LENGTH) data)), s)"
  proof (cases "array_len data < TOX_PASS_ENCRYPTION_EXTRA_LENGTH")
    case False
    then obtain bytes where bytes: "data = Some bytes" "TOX_PASS_ENCRYPTION_EXTRA_LENGTH \<le> length bytes"
      by (cases data) (auto simp: TOX_PASS_ENCRYPTION_EXTRA_LENGTH_def)
    with header have "in_bounds (run_c f data)"
      "run_c f data = run_c f (map_option (take TOX_PASS_ENCRYPTION_EXTRA_LENGTH) data)"
      unfolding reads_header_def bytes(1) option.map by blast+
    moreover from this(1) have "call_c (run_c f data) s = Done (the (run_c f data), s)"
      by (simp add: call_c_in_bounds)
    ultimately show ?thesis using False by (simp add: run)
  qed (simp add: run)
qed

text \<open>Data is encrypted if it starts with three magic bytes.\<close>

definition magic_encrypted :: "(pointer \<Rightarrow> bool option) cfun" where
  "magic_encrypted = (99, \<lambda>p.
     case p of None \<Rightarrow> Some False
     | Some bytes \<Rightarrow> if length bytes < 80 then None else Some (take 3 bytes = [116, 111, 120]))"

theorem is_data_encrypted_total_witness:
  "toxIsDataEncrypted magic_encrypted (Some [1, 2, 3]) plain_env = Done (False, plain_env) \<and>
   toxIsDataEncrypted magic_encrypted (Some ([116, 111, 120] @ replicate 80 0)) plain_env = Done (True, plain_env)"
proof -
  have "reads_header (run_c magic_encrypted)"
    by (auto simp: reads_header_def magic_encrypted_def in_bounds_def TOX_PASS_ENCRYPTION_EXTRA_LENGTH_def
        take_take min_def)
  moreover have "pending plain_env = None" by (simp add: plain_env_def any_log_def)
  ultimately show ?thesis
    using is_data_encrypted_total [of plain_env magic_encrypted "Some [1, 2, 3]"]
      is_data_encrypted_total [of plain_env magic_encrypted "Some ([116, 111, 120] @ replicate 80 0)"]
    by (simp add: TOX_PASS_ENCRYPTION_EXTRA_LENGTH_def magic_encrypted_def)
qed

end
