(* ===== verification/Native_Safety.thy ===== *)
theory Native_Safety
  imports Av_Api Crypto_Api
begin

text \<open>
  The invariant of the native library and that every native method keeps it: called with
  arguments that meet the API's preconditions, a method returns to Java (it neither
  aborts the process nor has undefined behaviour) whatever the toxcore functions return.
\<close>

section \<open>The invariant\<close>

definition core_object_ok :: "'tox tox \<Rightarrow> bool" where
  "core_object_ok x \<longleftrightarrow> obj_addr x \<noteq> 0 \<and> set core_callbacks \<subseteq> set (obj_callbacks x)"

definition av_object_ok :: "'av toxav \<Rightarrow> bool" where
  "av_object_ok x \<longleftrightarrow> obj_addr x \<noteq> 0 \<and> set av_callbacks \<subseteq> set (obj_callbacks x)"

definition objects_ok :: "('o \<Rightarrow> bool) \<Rightarrow> ('o, 'e) instance_manager \<Rightarrow> bool" where
  "objects_ok P m \<longleftrightarrow> (\<forall>n x ev. slot_of m n = Live x ev \<longrightarrow> P x)"

definition manager_safe :: "('o \<Rightarrow> bool) \<Rightarrow> ('o, 'e) instance_manager \<Rightarrow> bool" where
  "manager_safe P m \<longleftrightarrow> manager_inv m \<and> unlocked m \<and> objects_ok P m"

definition world_ok :: "uintptr set \<Rightarrow> ('tox, 'av) world \<Rightarrow> bool" where
  "world_ok makes s \<longleftrightarrow>
     manager_safe core_object_ok (core_manager s) \<and> manager_safe av_object_ok (av_manager s) \<and>
     log_ok s \<and> registry_ok makes s"

text \<open>The Java classes and codes of all the exceptions that the native code throws.\<close>

definition vm_ok :: "jvm \<Rightarrow> bool" where
  "vm_ok vm \<longleftrightarrow>
     vm_basic vm \<and>
     vm_has_errors vm core_subsystem tox_err_bootstrap_enum \<and>
     vm_has_errors vm core_subsystem tox_err_file_control_enum \<and>
     vm_has_errors vm core_subsystem tox_err_file_get_enum \<and>
     vm_has_errors vm core_subsystem tox_err_file_seek_enum \<and>
     vm_has_errors vm core_subsystem tox_err_file_send_enum \<and>
     vm_has_errors vm core_subsystem tox_err_file_send_chunk_enum \<and>
     vm_has_errors vm core_subsystem tox_err_friend_add_enum \<and>
     vm_has_errors vm core_subsystem tox_err_friend_by_public_key_enum \<and>
     vm_has_errors vm core_subsystem tox_err_friend_custom_packet_enum \<and>
     vm_has_errors vm core_subsystem tox_err_friend_delete_enum \<and>
     vm_has_errors vm core_subsystem tox_err_friend_get_public_key_enum \<and>
     vm_has_errors vm core_subsystem tox_err_friend_send_message_enum \<and>
     vm_has_errors vm core_subsystem tox_err_get_port_enum \<and>
     vm_has_errors vm core_subsystem tox_err_new_enum \<and>
     vm_has_errors vm core_subsystem tox_err_set_info_enum \<and>
     vm_has_errors vm core_subsystem tox_err_set_typing_enum \<and>
     vm_has_errors vm av_subsystem toxav_err_answer_enum \<and>
     vm_has_errors vm av_subsystem toxav_err_bit_rate_set_enum \<and>
     vm_has_errors vm av_subsystem toxav_err_call_control_enum \<and>
     vm_has_errors vm av_subsystem toxav_err_call_enum \<and>
     vm_has_errors vm av_subsystem toxav_err_new_enum \<and>
     vm_has_errors vm av_subsystem toxav_err_send_frame_enum \<and>
     vm_has_errors vm crypto_subsystem tox_err_decryption_enum \<and>
     vm_has_errors vm crypto_subsystem tox_err_encryption_enum \<and>
     vm_has_errors vm crypto_subsystem tox_err_get_salt_enum \<and>
     vm_has_errors vm crypto_subsystem tox_err_key_derivation_enum \<and>
     vm_has_exception vm (error_class_name crypto_subsystem tox_err_key_derivation_enum)
       ''INVALID_LENGTH''"

lemma vm_ok_basic: "vm_ok vm \<Longrightarrow> vm_basic vm"
  by (simp add: vm_ok_def)

lemma complete_vm_ok: "vm_ok complete_vm"
  by (simp add: vm_ok_def)

definition roomy :: "('tox, 'av) world \<Rightarrow> bool" where
  "roomy s \<longleftrightarrow> Suc (length (instances (core_manager s))) < 2 ^ 31 \<and>
     Suc (length (instances (av_manager s))) < 2 ^ 31"

definition grew :: "('tox, 'av) world \<Rightarrow> ('tox, 'av) world \<Rightarrow> bool" where
  "grew s t \<longleftrightarrow>
     length (instances (core_manager t)) \<le> Suc (length (instances (core_manager s))) \<and>
     length (instances (av_manager t)) \<le> Suc (length (instances (av_manager s)))"

text \<open>A native method: it starts with no exception pending and may leave one.\<close>

definition native_safe :: "uintptr set \<Rightarrow> (('tox, 'av) world, 'r) prog \<Rightarrow> bool" where
  "native_safe makes m \<longleftrightarrow>
     (\<forall>s. world_ok makes s \<longrightarrow> pending s = None \<longrightarrow> vm_ok (jvm_of s) \<longrightarrow> roomy s \<longrightarrow>
        wp m (\<lambda>_ t. world_ok makes t \<and> jvm_of t = jvm_of s \<and> grew s t) s)"

lemma native_safeI:
  assumes "\<And>s. world_ok makes s \<Longrightarrow> pending s = None \<Longrightarrow> vm_ok (jvm_of s) \<Longrightarrow> roomy s \<Longrightarrow>
     \<exists>r t. m s = Done (r, t) \<and> world_ok makes t \<and> jvm_of t = jvm_of s \<and> grew s t"
  shows "native_safe makes m"
  using assms by (simp add: native_safe_def wp_iff)

text \<open>
  The same from the states that satisfy a further condition, for the few methods that are not
  safe from every state: those whose result is as large as a queue of events or the log.
\<close>

definition safe_from ::
  "uintptr set \<Rightarrow> (('tox, 'av) world \<Rightarrow> bool) \<Rightarrow> (('tox, 'av) world, 'r) prog \<Rightarrow> bool" where
  "safe_from makes P m \<longleftrightarrow>
     (\<forall>s. world_ok makes s \<longrightarrow> pending s = None \<longrightarrow> vm_ok (jvm_of s) \<longrightarrow> roomy s \<longrightarrow> P s \<longrightarrow>
        wp m (\<lambda>_ t. world_ok makes t \<and> jvm_of t = jvm_of s \<and> grew s t) s)"

lemma safe_fromI:
  assumes "\<And>s. world_ok makes s \<Longrightarrow> pending s = None \<Longrightarrow> vm_ok (jvm_of s) \<Longrightarrow> roomy s \<Longrightarrow> P s \<Longrightarrow>
     \<exists>r t. m s = Done (r, t) \<and> world_ok makes t \<and> jvm_of t = jvm_of s \<and> grew s t"
  shows "safe_from makes P m"
  using assms by (simp add: safe_from_def wp_iff)

lemma safe_fromD:
  assumes "safe_from makes P m" and "world_ok makes s" and "pending s = None" and "vm_ok (jvm_of s)"
    and "roomy s" and "P s"
  shows "\<exists>r t. m s = Done (r, t) \<and> world_ok makes t \<and> jvm_of t = jvm_of s \<and> grew s t"
  using assms by (simp add: safe_from_def wp_iff)

lemma native_safe_from: "native_safe makes m \<longleftrightarrow> safe_from makes (\<lambda>_. True) m"
  by (simp add: native_safe_def safe_from_def)

section \<open>States reached by a call\<close>

lemma grew_refl [simp]: "grew s s"
  by (simp add: grew_def)

lemma world_ok_call_ready: "pending s = None \<Longrightarrow> vm_ok (jvm_of s) \<Longrightarrow> call_ready s"
  by (simp add: call_ready_def vm_ok_basic)

lemma managers_more:
  "logenv.more t = logenv.more s \<Longrightarrow> core_manager t = core_manager s \<and> av_manager t = av_manager s"
  by (metis get_core_more get_av_more)

lemma world_ok_cong:
  assumes "logenv.more t = logenv.more s" and "log_ok t" and "registry_ok makes t"
  shows "world_ok makes s \<Longrightarrow> world_ok makes t" and "grew s t"
  using assms(2,3) managers_more [OF assms(1)]
  by (simp_all add: world_ok_def grew_def)

lemma raise_opt_fields [simp]:
  "jvm_of (raise_opt x s) = jvm_of s" "logenv.more (raise_opt x s) = logenv.more s"
  by (cases x; simp add: raise_opt_def)+

lemma registry_ok_cong:
  "func_names t = func_names s \<Longrightarrow> static_funcs t = static_funcs s \<Longrightarrow>
   registry_ok makes t = registry_ok makes s"
  by (simp add: registry_ok_def)

lemma world_ok_raise: "world_ok makes (raise_opt x s) = world_ok makes s" "grew s (raise_opt x s)"
proof -
  have "registry_ok makes (raise_opt x s) = registry_ok makes s" by (rule registry_ok_cong) simp_all
  moreover have "log_ok (raise_opt x s) = log_ok s" by (rule log_ok_cong) simp_all
  ultimately show "world_ok makes (raise_opt x s) = world_ok makes s"
    using managers_more [of "raise_opt x s" s]
    by (simp add: world_ok_def)
  show "grew s (raise_opt x s)" using managers_more [of "raise_opt x s" s] by (simp add: grew_def)
qed

lemma world_ok_pending [simp]:
  "world_ok makes (s\<lparr>pending := x\<rparr>) = world_ok makes s" "grew s (s\<lparr>pending := x\<rparr>)"
  by (simp_all add: world_ok_def grew_def registry_ok_def log_ok_def)

lemma world_ok_log_call:
  assumes "world_ok makes s" and "names_wf fn" and "registry_ok makes (set_names fn sf s)"
  shows "world_ok makes (log_call n f args res fn sf s)"
proof (rule world_ok_cong(1) [OF _ _ _ assms(1)])
  show "log_ok (log_call n f args res fn sf s)"
    using assms(1,2) by (simp add: world_ok_def log_ok_log_call)
  show "registry_ok makes (log_call n f args res fn sf s)"
    using assms(3) by (simp add: registry_ok_def)
qed simp

lemma objects_ok_update:
  "objects_ok P m \<Longrightarrow> slot_of m' = (slot_of m)(n := Live x ev) \<Longrightarrow> P x \<Longrightarrow> objects_ok P m'"
  by (auto simp: objects_ok_def)

lemma slot_of_unaffected:
  "slot_of m' = (slot_of m)(n := v) \<Longrightarrow> \<forall>x ev. v \<noteq> Live x ev \<Longrightarrow> objects_ok P m \<Longrightarrow> objects_ok P m'"
  by (auto simp: objects_ok_def)

lemma core_accessed_ok:
  assumes "world_ok makes s" and "slot_of (core_manager s) n = Live x ev" and "core_object_ok x'"
  shows "world_ok makes (core.accessed n x' ev' s)" and "grew s (core.accessed n x' ev' s)"
    and "jvm_of (core.accessed n x' ev' s) = jvm_of s"
proof -
  let ?t = "core.accessed n x' ev' s"
  have ok: "core.manager_ok s" using assms(1) by (simp add: world_ok_def manager_safe_def)
  note acc = core.accessed_slots [OF ok, simplified, OF assms(2), of x' ev']
  have same: "av_manager ?t = av_manager s" "func_names ?t = func_names s"
    "static_funcs ?t = static_funcs s" "jni_log_of ?t = jni_log_of s" "jvm_of ?t = jvm_of s"
    by (simp_all add: core.accessed_def)
  have "objects_ok core_object_ok (core_manager ?t)"
    using assms by (intro objects_ok_update [OF _ acc(1)]) (simp_all add: world_ok_def manager_safe_def)
  with assms(1) acc same log_ok_cong [OF same(4,2)] registry_ok_cong [OF same(2,3)]
  show "world_ok makes ?t" by (simp add: world_ok_def manager_safe_def)
  from acc(4) same show "grew s ?t" "jvm_of ?t = jvm_of s" by (simp_all add: grew_def)
qed

lemma av_accessed_ok:
  assumes "world_ok makes s" and "slot_of (av_manager s) n = Live x ev" and "av_object_ok x'"
  shows "world_ok makes (av.accessed n x' ev' s)" and "grew s (av.accessed n x' ev' s)"
    and "jvm_of (av.accessed n x' ev' s) = jvm_of s"
proof -
  let ?t = "av.accessed n x' ev' s"
  have ok: "av.manager_ok s" using assms(1) by (simp add: world_ok_def manager_safe_def)
  note acc = av.accessed_slots [OF ok, simplified, OF assms(2), of x' ev']
  have same: "core_manager ?t = core_manager s" "func_names ?t = func_names s"
    "static_funcs ?t = static_funcs s" "jni_log_of ?t = jni_log_of s" "jvm_of ?t = jvm_of s"
    by (simp_all add: av.accessed_def)
  have "objects_ok av_object_ok (av_manager ?t)"
    using assms by (intro objects_ok_update [OF _ acc(1)]) (simp_all add: world_ok_def manager_safe_def)
  with assms(1) acc same log_ok_cong [OF same(4,2)] registry_ok_cong [OF same(2,3)]
  show "world_ok makes ?t" by (simp add: world_ok_def manager_safe_def)
  from acc(4) same show "grew s ?t" "jvm_of ?t = jvm_of s" by (simp_all add: grew_def)
qed

lemma grew_same:
  "logenv.more t' = logenv.more t \<Longrightarrow> grew s t \<Longrightarrow> grew s t'"
  using managers_more [of t' t] by (simp add: grew_def)

lemma after_log_call:
  assumes "world_ok makes t" and "jvm_of t = jvm_of s" and "grew s t"
    and "names_wf fn" and "registry_ok makes (set_names fn sf t)"
  shows "world_ok makes (raise_opt x (log_call n f args res fn sf t))"
    and "jvm_of (raise_opt x (log_call n f args res fn sf t)) = jvm_of s"
    and "grew s (raise_opt x (log_call n f args res fn sf t))"
  using assms world_ok_log_call [OF assms(1,4,5)] by (auto simp: world_ok_raise intro: grew_same)

lemma registry_ok_set_names:
  "registry_ok makes (set_names fn sf s) \<longleftrightarrow> (\<forall>a \<in> makes. fn a \<noteq> None \<longleftrightarrow> a \<in> set sf)"
  by (simp add: registry_ok_def)

lemma core_object_ok_state [simp]: "core_object_ok (x\<lparr>obj_state := st\<rparr>) = core_object_ok x"
  by (simp add: core_object_ok_def)

lemma av_object_ok_state [simp]: "av_object_ok (x\<lparr>obj_state := st\<rparr>) = av_object_ok x"
  by (simp add: av_object_ok_def)

section \<open>Call paths\<close>

text \<open>What a call path needs of the function it calls: it returns, and so do the conversions.\<close>

definition call_returns ::
  "'e error_enum \<Rightarrow> ('r \<Rightarrow> ('s jenv_scheme, 'v) prog) \<Rightarrow> ('v \<Rightarrow> ('s jenv_scheme, 'b) prog) \<Rightarrow>
   ('st \<Rightarrow> ('s jenv_scheme, 'r \<times> 'e \<times> 'st) prog) \<Rightarrow> bool" where
  "call_returns en to_java success_func f \<longleftrightarrow>
     (\<forall>st. \<exists>r e st' v b.
        (\<forall>t. f st t = Done ((r, e, st'), t)) \<and>
        (\<forall>t. pending t = None \<longrightarrow> to_java r t = Done (v, t)) \<and>
        (code_result en e = SUCCESS \<longrightarrow> (\<forall>t. pending t = None \<longrightarrow> success_func v t = Done (b, t))))"

lemma call_returnsD:
  "call_returns en to_java success_func f \<Longrightarrow> \<exists>r e st' v b.
     (\<forall>t. f st t = Done ((r, e, st'), t)) \<and>
     (\<forall>t. pending t = None \<longrightarrow> to_java r t = Done (v, t)) \<and>
     (\<forall>t. code_result en e = SUCCESS \<longrightarrow> pending t = None \<longrightarrow> success_func v t = Done (b, t))"
  unfolding call_returns_def by (erule allE [of _ st]) blast

lemma world_ok_core: "world_ok makes s \<Longrightarrow> core.manager_ok s \<and> log_ok s"
  by (simp add: world_ok_def manager_safe_def)

lemma world_ok_av: "world_ok makes s \<Longrightarrow> av.manager_ok s \<and> log_ok s"
  by (simp add: world_ok_def manager_safe_def)

lemma core_live:
  assumes "world_ok makes s" and "access_error (slot_of (core_manager s) n) n = None"
  obtains x ev where "slot_of (core_manager s) n = Live x ev" and "core_object_ok x"
  using assms by (fastforce simp: access_error_None world_ok_def manager_safe_def objects_ok_def)

lemma av_live:
  assumes "world_ok makes s" and "access_error (slot_of (av_manager s) n) n = None"
  obtains x ev where "slot_of (av_manager s) n = Live x ev" and "av_object_ok x"
  using assms by (fastforce simp: access_error_None world_ok_def manager_safe_def objects_ok_def)

text \<open>
  What a call path must do to a live instance; on a dead one it raises the access error.
\<close>

lemma core_call_safe:
  fixes m :: "(('tox, 'av) world, 'b) prog"
  assumes dead: "\<And>s e. core.manager_ok s \<Longrightarrow> call_ready s \<Longrightarrow>
      access_error (slot_of (core_manager s) n) n = Some e \<Longrightarrow> m s = Done (d, s\<lparr>pending := Some e\<rparr>)"
    and live: "\<And>s x ev. world_ok makes s \<Longrightarrow> call_ready s \<Longrightarrow> vm_ok (jvm_of s) \<Longrightarrow>
      slot_of (core_manager s) n = Live x ev \<Longrightarrow> core_object_ok x \<Longrightarrow>
      \<exists>b exn k f args res fn sf x'.
        m s = Done (b, raise_opt exn (log_call k f args res fn sf (core.accessed n x' ev s))) \<and>
        core_object_ok x' \<and> names_wf fn \<and> registry_ok makes (set_names fn sf s)"
  shows "native_safe makes m"
proof (rule native_safeI)
  fix s :: "('tox, 'av) world"
  assume ok: "world_ok makes s" and s: "pending s = None" "vm_ok (jvm_of s)"
  note ready = world_ok_call_ready [OF s]
  show "\<exists>r t. m s = Done (r, t) \<and> world_ok makes t \<and> jvm_of t = jvm_of s \<and> grew s t"
  proof (cases "access_error (slot_of (core_manager s) n) n")
    case (Some e)
    with dead [of s e] ok ready world_ok_core [OF ok] show ?thesis by simp
  next
    case None
    then obtain x ev where x: "slot_of (core_manager s) n = Live x ev" "core_object_ok x"
      by (rule core_live [OF ok])
    from live [OF ok ready s(2) x] obtain b exn k f args res fn sf x' where
      run: "m s = Done (b, raise_opt exn (log_call k f args res fn sf (core.accessed n x' ev s)))"
      and x': "core_object_ok x'" and names: "names_wf fn" "registry_ok makes (set_names fn sf s)"
      by blast
    note acc = core_accessed_ok [OF ok x(1) x', of ev]
    from names(2) have "registry_ok makes (set_names fn sf (core.accessed n x' ev s))"
      by (simp add: registry_ok_set_names)
    with after_log_call [OF acc(1,3,2) names(1) this] run show ?thesis by blast
  qed
qed

lemma av_call_safe:
  fixes m :: "(('tox, 'av) world, 'b) prog"
  assumes dead: "\<And>s e. av.manager_ok s \<Longrightarrow> call_ready s \<Longrightarrow>
      access_error (slot_of (av_manager s) n) n = Some e \<Longrightarrow> m s = Done (d, s\<lparr>pending := Some e\<rparr>)"
    and live: "\<And>s x ev. world_ok makes s \<Longrightarrow> call_ready s \<Longrightarrow> vm_ok (jvm_of s) \<Longrightarrow>
      slot_of (av_manager s) n = Live x ev \<Longrightarrow> av_object_ok x \<Longrightarrow>
      \<exists>b exn k f args res fn sf x'.
        m s = Done (b, raise_opt exn (log_call k f args res fn sf (av.accessed n x' ev s))) \<and>
        av_object_ok x' \<and> names_wf fn \<and> registry_ok makes (set_names fn sf s)"
  shows "native_safe makes m"
proof (rule native_safeI)
  fix s :: "('tox, 'av) world"
  assume ok: "world_ok makes s" and s: "pending s = None" "vm_ok (jvm_of s)"
  note ready = world_ok_call_ready [OF s]
  show "\<exists>r t. m s = Done (r, t) \<and> world_ok makes t \<and> jvm_of t = jvm_of s \<and> grew s t"
  proof (cases "access_error (slot_of (av_manager s) n) n")
    case (Some e)
    with dead [of s e] ok ready world_ok_av [OF ok] show ?thesis by simp
  next
    case None
    then obtain x ev where x: "slot_of (av_manager s) n = Live x ev" "av_object_ok x"
      by (rule av_live [OF ok])
    from live [OF ok ready s(2) x] obtain b exn k f args res fn sf x' where
      run: "m s = Done (b, raise_opt exn (log_call k f args res fn sf (av.accessed n x' ev s)))"
      and x': "av_object_ok x'" and names: "names_wf fn" "registry_ok makes (set_names fn sf s)"
      by blast
    note acc = av_accessed_ok [OF ok x(1) x', of ev]
    from names(2) have "registry_ok makes (set_names fn sf (av.accessed n x' ev s))"
      by (simp add: registry_ok_set_names)
    with after_log_call [OF acc(1,3,2) names(1) this] run show ?thesis by blast
  qed
qed

lemma world_ok_names: "world_ok makes s \<Longrightarrow>
  names_wf (func_names s) \<and> registry_ok makes (set_names (func_names s) (static_funcs s) s)"
  by (simp add: world_ok_def log_ok_def)

lemma core_err_safe:
  fixes f :: "'tox \<Rightarrow> (('tox, 'av) world, 'r \<times> 'e \<times> 'tox) prog"
  assumes vm: "\<And>vm. vm_ok vm \<Longrightarrow> vm_has_errors vm core_subsystem en"
    and f: "call_returns en to_java success_func f"
  shows "native_safe makes
    (with_instance_err core_class en show_result to_java d success_func n addr args (on_state f))"
proof (rule core_call_safe [where n = n and d = d])
  fix s :: "('tox, 'av) world" and x ev
  assume ok: "world_ok makes s" "call_ready s" "vm_ok (jvm_of s)"
    and live: "slot_of (core_manager s) n = Live x ev" "core_object_ok x"
  obtain r e st' v b where ret: "\<forall>t. f (obj_state x) t = Done ((r, e, st'), t)"
    "\<forall>t. pending t = None \<longrightarrow> to_java r t = Done (v, t)"
    "\<forall>t. code_result en e = SUCCESS \<longrightarrow> pending t = None \<longrightarrow> success_func v t = Done (b, t)"
    using call_returnsD [OF f, of "obj_state x"] by (elim exE conjE) (rule that)
  have call: "on_state f x t = Done ((r, e, x\<lparr>obj_state := st'\<rparr>), t)" for t
    by (simp add: on_state_def andThen_def ret(1))
  have "with_instance_err core_class en show_result to_java d success_func n addr args (on_state f) s =
    Done (if code_result en e = SUCCESS then b else d,
      raise_opt (error_throwable core_subsystem en e)
        (log_call n addr (Arg_tox (obj_addr x) # args) (show_result r) (func_names s) (static_funcs s)
          (core.accessed n (x\<lparr>obj_state := st'\<rparr>) ev s)))"
    by (rule core.with_instance_err_live [simplified])
      (simp_all add: ok live vm world_ok_core [OF ok(1), simplified] call ret(2),
       rule ret(3) [rule_format])
  with world_ok_names [OF ok(1)] live(2)
  show "\<exists>b exn k g ags res fn sf x'.
      with_instance_err core_class en show_result to_java d success_func n addr args (on_state f) s =
      Done (b, raise_opt exn (log_call k g ags res fn sf (core.accessed n x' ev s))) \<and>
      core_object_ok x' \<and> names_wf fn \<and> registry_ok makes (set_names fn sf s)"
    by (intro exI conjI) (assumption, simp_all del: set_names_id)
qed (simp add: core.with_instance_err_dead [simplified])

lemma av_err_safe:
  fixes f :: "'av \<Rightarrow> (('tox, 'av) world, 'r \<times> 'e \<times> 'av) prog"
  assumes vm: "\<And>vm. vm_ok vm \<Longrightarrow> vm_has_errors vm av_subsystem en"
    and f: "call_returns en to_java success_func f"
  shows "native_safe makes
    (with_instance_err av_class en show_result to_java d success_func n addr args (on_state f))"
proof (rule av_call_safe [where n = n and d = d])
  fix s :: "('tox, 'av) world" and x ev
  assume ok: "world_ok makes s" "call_ready s" "vm_ok (jvm_of s)"
    and live: "slot_of (av_manager s) n = Live x ev" "av_object_ok x"
  obtain r e st' v b where ret: "\<forall>t. f (obj_state x) t = Done ((r, e, st'), t)"
    "\<forall>t. pending t = None \<longrightarrow> to_java r t = Done (v, t)"
    "\<forall>t. code_result en e = SUCCESS \<longrightarrow> pending t = None \<longrightarrow> success_func v t = Done (b, t)"
    using call_returnsD [OF f, of "obj_state x"] by (elim exE conjE) (rule that)
  have call: "on_state f x t = Done ((r, e, x\<lparr>obj_state := st'\<rparr>), t)" for t
    by (simp add: on_state_def andThen_def ret(1))
  have "with_instance_err av_class en show_result to_java d success_func n addr args (on_state f) s =
    Done (if code_result en e = SUCCESS then b else d,
      raise_opt (error_throwable av_subsystem en e)
        (log_call n addr (Arg_toxav (obj_addr x) # args) (show_result r) (func_names s) (static_funcs s)
          (av.accessed n (x\<lparr>obj_state := st'\<rparr>) ev s)))"
    by (rule av.with_instance_err_live [simplified])
      (simp_all add: ok live vm world_ok_av [OF ok(1), simplified] call ret(2),
       rule ret(3) [rule_format])
  with world_ok_names [OF ok(1)] live(2)
  show "\<exists>b exn k g ags res fn sf x'.
      with_instance_err av_class en show_result to_java d success_func n addr args (on_state f) s =
      Done (b, raise_opt exn (log_call k g ags res fn sf (av.accessed n x' ev s))) \<and>
      av_object_ok x' \<and> names_wf fn \<and> registry_ok makes (set_names fn sf s)"
    by (intro exI conjI) (assumption, simp_all del: set_names_id)
qed (simp add: av.with_instance_err_dead [simplified])

text \<open>The same for a call without an error code, which may register its name.\<close>

definition noerr_returns ::
  "uintptr set \<Rightarrow> ('r \<Rightarrow> ('z logenv_scheme, 'b) prog) \<Rightarrow>
   ('st \<Rightarrow> ('z logenv_scheme, 'r \<times> 'st) prog) \<Rightarrow> bool" where
  "noerr_returns makes to_java f \<longleftrightarrow>
     (\<forall>st (s :: 'z logenv_scheme). registry_ok makes s \<longrightarrow> names_wf (func_names s) \<longrightarrow>
        (\<exists>r st' v fn sf. names_wf fn \<and> registry_ok makes (set_names fn sf s) \<and>
          (\<forall>t. func_names t = func_names s \<longrightarrow> static_funcs t = static_funcs s \<longrightarrow>
             f st t = Done ((r, st'), set_names fn sf t)) \<and>
          (\<forall>t. pending t = None \<longrightarrow> to_java r t = Done (v, t))))"

lemma noerr_returnsD:
  fixes s :: "'z logenv_scheme" and f :: "'st \<Rightarrow> ('z logenv_scheme, 'r \<times> 'st) prog"
  shows "noerr_returns makes to_java f \<Longrightarrow> registry_ok makes s \<Longrightarrow> names_wf (func_names s) \<Longrightarrow>
   \<exists>r st' v fn sf. names_wf fn \<and> registry_ok makes (set_names fn sf s) \<and>
     (\<forall>t. func_names t = func_names s \<longrightarrow> static_funcs t = static_funcs s \<longrightarrow>
        f st t = Done ((r, st'), set_names fn sf t)) \<and>
     (\<forall>t. pending t = None \<longrightarrow> to_java r t = Done (v, t))"
  unfolding noerr_returns_def by (erule allE [of _ st], erule allE [of _ s]) simp

lemma core_noerr_safe:
  fixes f :: "'tox \<Rightarrow> (('tox, 'av) world, 'r \<times> 'tox) prog"
  assumes f: "noerr_returns makes to_java f"
  shows "native_safe makes
    (with_instance_noerr core_class show_result to_java d n addr args (on_state_noerr f))"
proof (rule core_call_safe [where n = n and d = d])
  fix s :: "('tox, 'av) world" and x ev
  assume ok: "world_ok makes s" "call_ready s" "vm_ok (jvm_of s)"
    and live: "slot_of (core_manager s) n = Live x ev" "core_object_ok x"
  have reg: "registry_ok makes s" "names_wf (func_names s)"
    using ok(1) by (simp_all add: world_ok_def log_ok_def)
  obtain r st' v fn sf where names: "names_wf fn" "registry_ok makes (set_names fn sf s)"
    and ret: "\<forall>t. func_names t = func_names s \<longrightarrow> static_funcs t = static_funcs s \<longrightarrow>
             f (obj_state x) t = Done ((r, st'), set_names fn sf t)"
      "\<forall>t. pending t = None \<longrightarrow> to_java r t = Done (v, t)"
    using noerr_returnsD [OF f reg, of "obj_state x"] by (elim exE conjE) (rule that)
  have call: "on_state_noerr f x t = Done ((r, x\<lparr>obj_state := st'\<rparr>), set_names fn sf t)"
    if "func_names t = func_names s" "static_funcs t = static_funcs s" for t
    using ret(1) that by (simp add: on_state_noerr_def andThen_def)
  have "with_instance_noerr core_class show_result to_java d n addr args (on_state_noerr f) s =
    Done (v, log_call n addr (Arg_tox (obj_addr x) # args) (show_result r) fn sf
      (core.accessed n (x\<lparr>obj_state := st'\<rparr>) ev s))"
    by (rule core.with_instance_noerr_live [simplified])
      (use ok live world_ok_core [OF ok(1)] call ret(2) in simp_all)
  then have "with_instance_noerr core_class show_result to_java d n addr args (on_state_noerr f) s =
    Done (v, raise_opt None (log_call n addr (Arg_tox (obj_addr x) # args) (show_result r) fn sf
      (core.accessed n (x\<lparr>obj_state := st'\<rparr>) ev s)))"
    by simp
  with names live(2) show "\<exists>b exn k g ags res fn sf x'.
      with_instance_noerr core_class show_result to_java d n addr args (on_state_noerr f) s =
      Done (b, raise_opt exn (log_call k g ags res fn sf (core.accessed n x' ev s))) \<and>
      core_object_ok x' \<and> names_wf fn \<and> registry_ok makes (set_names fn sf s)"
    by (intro exI conjI) (assumption, simp_all)
qed (simp add: core.with_instance_noerr_dead [simplified])

lemma av_noerr_safe:
  fixes f :: "'av \<Rightarrow> (('tox, 'av) world, 'r \<times> 'av) prog"
  assumes f: "noerr_returns makes to_java f"
  shows "native_safe makes
    (with_instance_noerr av_class show_result to_java d n addr args (on_state_noerr f))"
proof (rule av_call_safe [where n = n and d = d])
  fix s :: "('tox, 'av) world" and x ev
  assume ok: "world_ok makes s" "call_ready s" "vm_ok (jvm_of s)"
    and live: "slot_of (av_manager s) n = Live x ev" "av_object_ok x"
  have reg: "registry_ok makes s" "names_wf (func_names s)"
    using ok(1) by (simp_all add: world_ok_def log_ok_def)
  obtain r st' v fn sf where names: "names_wf fn" "registry_ok makes (set_names fn sf s)"
    and ret: "\<forall>t. func_names t = func_names s \<longrightarrow> static_funcs t = static_funcs s \<longrightarrow>
             f (obj_state x) t = Done ((r, st'), set_names fn sf t)"
      "\<forall>t. pending t = None \<longrightarrow> to_java r t = Done (v, t)"
    using noerr_returnsD [OF f reg, of "obj_state x"] by (elim exE conjE) (rule that)
  have call: "on_state_noerr f x t = Done ((r, x\<lparr>obj_state := st'\<rparr>), set_names fn sf t)"
    if "func_names t = func_names s" "static_funcs t = static_funcs s" for t
    using ret(1) that by (simp add: on_state_noerr_def andThen_def)
  have "with_instance_noerr av_class show_result to_java d n addr args (on_state_noerr f) s =
    Done (v, log_call n addr (Arg_toxav (obj_addr x) # args) (show_result r) fn sf
      (av.accessed n (x\<lparr>obj_state := st'\<rparr>) ev s))"
    by (rule av.with_instance_noerr_live [simplified])
      (use ok live world_ok_av [OF ok(1)] call ret(2) in simp_all)
  then have "with_instance_noerr av_class show_result to_java d n addr args (on_state_noerr f) s =
    Done (v, raise_opt None (log_call n addr (Arg_toxav (obj_addr x) # args) (show_result r) fn sf
      (av.accessed n (x\<lparr>obj_state := st'\<rparr>) ev s)))"
    by simp
  with names live(2) show "\<exists>b exn k g ags res fn sf x'.
      with_instance_noerr av_class show_result to_java d n addr args (on_state_noerr f) s =
      Done (b, raise_opt exn (log_call k g ags res fn sf (av.accessed n x' ev s))) \<and>
      av_object_ok x' \<and> names_wf fn \<and> registry_ok makes (set_names fn sf s)"
    by (intro exI conjI) (assumption, simp_all)
qed (simp add: av.with_instance_noerr_dead [simplified])

end
