(* ===== verification/Safe_Calls.thy ===== *)
theory Safe_Calls
  imports Native_Safety
begin

text \<open>
  Rules that show a native method safe by following its code: conversions of arguments,
  scopes of an instance, calls on the managers and calls without an instance.
\<close>

section \<open>Conversions\<close>

definition yields :: "('z jenv_scheme, 'a) prog \<Rightarrow> 'a \<Rightarrow> bool" where
  "yields m a \<longleftrightarrow> (\<forall>s. pending s = None \<longrightarrow> m s = Done (a, s))"

named_theorems yields_intros \<open>what the conversions give, with no exception pending\<close>
named_theorems safe_intros \<open>rules for the safety of a native method\<close>

lemma yieldsD: "yields m a \<Longrightarrow> pending s = None \<Longrightarrow> m s = Done (a, s)"
  by (simp add: yields_def)

lemma yields_ret [yields_intros]: "yields (ret a) a"
  by (simp add: yields_def)

lemma yields_conversions [yields_intros]:
  "yields (fromJavaArray arr) arr" "yields (array_size arr') (array_len arr')"
  "yields (utf_chars str) str"
  by (simp_all add: yields_def fromJavaArray_Done array_size_Done utf_chars_Done)

lemma yields_assert [yields_intros]:
  "c \<Longrightarrow> yields (tox4j_assert l txt c) ()" "c \<Longrightarrow> yields (cassert txt c) ()"
  by (simp_all add: yields_def)

lemma yields_andThen [yields_intros]: "yields m a \<Longrightarrow> yields (f a) b \<Longrightarrow> yields (andThen m f) b"
  by (simp add: yields_def andThen_def)

lemma yields_toJavaArray [yields_intros]:
  "length data < 2 ^ 31 \<Longrightarrow> yields (toJavaArray data) (Some data)"
  by (simp add: yields_def toJavaArray_Done)

lemma yields_uint16 [yields_intros]:
  "0 \<le> sint port \<Longrightarrow> sint port \<le> 65535 \<Longrightarrow> yields (assert_valid_uint16 port) ()"
  by (simp add: yields_def assert_valid_uint16_def)

lemma yields_valueOf [yields_intros]:
  "unat n < 3 \<Longrightarrow> yields (valueOf_TOX_PROXY_TYPE n) (consts_TOX_PROXY_TYPE ! unat n)"
  "unat n < 3 \<Longrightarrow> yields (valueOf_TOX_SAVEDATA_TYPE n) (consts_TOX_SAVEDATA_TYPE ! unat n)"
  "unat n < 3 \<Longrightarrow> yields (valueOf_TOX_CONNECTION n) (consts_TOX_CONNECTION ! unat n)"
  "unat n < 3 \<Longrightarrow> yields (valueOf_TOX_USER_STATUS n) (consts_TOX_USER_STATUS ! unat n)"
  "unat n < 3 \<Longrightarrow> yields (valueOf_TOX_FILE_CONTROL n) (consts_TOX_FILE_CONTROL ! unat n)"
  "unat n < 2 \<Longrightarrow> yields (valueOf_TOX_MESSAGE_TYPE n) (consts_TOX_MESSAGE_TYPE ! unat n)"
  "unat n < 7 \<Longrightarrow> yields (valueOf_TOXAV_CALL_CONTROL n) (consts_TOXAV_CALL_CONTROL ! unat n)"
  by (simp_all add: yields_def tox_proxy_type.valueOf_Done tox_savedata_type.valueOf_Done
      tox_connection.valueOf_Done tox_user_status.valueOf_Done tox_file_control.valueOf_Done
      tox_message_type.valueOf_Done toxav_call_control.valueOf_Done
      consts_TOX_PROXY_TYPE_def consts_TOX_SAVEDATA_TYPE_def consts_TOX_CONNECTION_def
      consts_TOX_USER_STATUS_def consts_TOX_FILE_CONTROL_def consts_TOX_MESSAGE_TYPE_def
      consts_TOXAV_CALL_CONTROL_def)

lemma safe_bind [safe_intros]:
  "yields m a \<Longrightarrow> native_safe makes (f a) \<Longrightarrow> native_safe makes (andThen m f)"
  by (simp add: native_safe_def wp_iff yields_def andThen_def)

lemma safe_yields: "yields m a \<Longrightarrow> native_safe makes m"
  by (simp add: native_safe_def wp_iff yields_def)

section \<open>Calls on an instance\<close>

lemma call_returns_pure:
  assumes "\<And>st. \<exists>v. yields (to_java (fst (g st))) v \<and>
      (code_result en (fst (snd (g st))) = SUCCESS \<longrightarrow> (\<exists>b. yields (success_func v) b))"
  shows "call_returns en to_java success_func (\<lambda>st. ret (g st))"
  unfolding call_returns_def
proof
  fix st
  obtain r e st' where g: "g st = (r, e, st')" by (cases "g st")
  from assms [of st] obtain v where v: "yields (to_java r) v"
    "code_result en e = SUCCESS \<longrightarrow> (\<exists>b. yields (success_func v) b)" by (auto simp: g)
  then show "\<exists>r e st' v b. (\<forall>t. ret (g st) t = Done ((r, e, st'), t)) \<and>
      (\<forall>t. pending t = None \<longrightarrow> to_java r t = Done (v, t)) \<and>
      (code_result en e = SUCCESS \<longrightarrow> (\<forall>t. pending t = None \<longrightarrow> success_func v t = Done (b, t)))"
    unfolding yields_def g by (cases "code_result en e = SUCCESS") auto
qed

lemma call_returns_ret [safe_intros]:
  "(\<And>r. \<exists>b. yields (success_func r) b) \<Longrightarrow> call_returns en ret success_func (\<lambda>st. ret (g st))"
  by (rule call_returns_pure) (meson yields_ret)

lemma noerr_returnsI:
  fixes f :: "'st \<Rightarrow> ('z logenv_scheme, 'r \<times> 'st) prog" and fn :: "'z logenv_scheme \<Rightarrow> _"
    and sf :: "'z logenv_scheme \<Rightarrow> _"
  assumes "\<And>s. registry_ok makes s \<Longrightarrow> names_wf (func_names s) \<Longrightarrow> names_wf (fn s)"
    and "\<And>s. registry_ok makes s \<Longrightarrow> registry_ok makes (set_names (fn s) (sf s) s)"
    and "\<And>st s t. registry_ok makes s \<Longrightarrow> func_names t = func_names s \<Longrightarrow>
      static_funcs t = static_funcs s \<Longrightarrow> f st t = Done ((r st, st' st), set_names (fn s) (sf s) t)"
    and "\<And>st. yields (to_java (r st)) (v st)"
  shows "noerr_returns makes to_java f"
  unfolding noerr_returns_def
proof (intro allI impI)
  fix st and s :: "'z logenv_scheme"
  assume s: "registry_ok makes s" "names_wf (func_names s)"
  show "\<exists>r st' v fn sf. names_wf fn \<and> registry_ok makes (set_names fn sf s) \<and>
      (\<forall>t. func_names t = func_names s \<longrightarrow> static_funcs t = static_funcs s \<longrightarrow>
         f st t = Done ((r, st'), set_names fn sf t)) \<and>
      (\<forall>t. pending t = None \<longrightarrow> to_java r t = Done (v, t))"
    using assms(1,2) [OF s(1)] s(2) assms(3) [OF s(1), of _ st] yieldsD [OF assms(4), of _ st]
    by (intro exI [of _ "r st"] exI [of _ "st' st"] exI [of _ "v st"] exI [of _ "fn s"]
        exI [of _ "sf s"]) simp
qed

lemma noerr_returns_pure [safe_intros]:
  assumes "\<And>st. \<exists>v. yields (to_java (fst (g st))) v"
  shows "noerr_returns makes to_java (\<lambda>st. ret (g st))"
proof -
  from assms obtain v where "\<And>st. yields (to_java (fst (g st))) (v st)" by metis
  then show ?thesis
  proof (rule noerr_returnsI [where fn = func_names and sf = static_funcs, rotated 3])
    fix st s t
    assume "func_names t = func_names s" "static_funcs t = static_funcs s"
    then show "ret (g st) t = Done ((fst (g st), snd (g st)), set_names (func_names s) (static_funcs s) t)"
      using set_names_id [of t] by simp
  qed simp_all
qed

definition vector_ok :: "uintptr set \<Rightarrow> ('st, 'a) vector_getter \<Rightarrow> bool" where
  "vector_ok makes g \<longleftrightarrow>
     getter_ok makes g \<and> (\<forall>st. fills g st \<and> length (vg_data g st) < 2 ^ 31)"

lemma noerr_returns_vector:
  assumes g: "vector_ok makes g"
  shows "noerr_returns makes toJavaArray (get_vector_make g)"
proof (rule noerr_returnsI [where fn = "\<lambda>s. func_names (known_getter g s)"
      and sf = "\<lambda>s. static_funcs (known_getter g s)"])
  fix st s t
  assume "registry_ok makes s" and t: "func_names t = func_names s" "static_funcs t = static_funcs s"
  with g show "get_vector_make g st t = Done ((vg_data g st, st),
      set_names (func_names (known_getter g s)) (static_funcs (known_getter g s)) t)"
    using get_vector_make_eq [of makes t g st] known_getter_cong [OF t, of g]
    by (simp add: vector_ok_def registry_ok_cong [OF t])
next
  fix s
  assume "registry_ok makes s"
  then show "registry_ok makes
      (set_names (func_names (known_getter g s)) (static_funcs (known_getter g s)) s)"
    using registry_ok_known_getter [of makes s g] g by (simp add: vector_ok_def registry_ok_def)
qed (use g in \<open>auto simp: vector_ok_def intro: names_wf_known_getter yields_intros\<close>)

section \<open>The scope of an instance\<close>

text \<open>What may happen in the scope of a Tox instance beside the change of the instance.\<close>

definition core_beside :: "uintptr set \<Rightarrow> ('tox, 'av) world \<Rightarrow> ('tox, 'av) world \<Rightarrow> bool" where
  "core_beside makes s t \<longleftrightarrow>
     manager_safe av_object_ok (av_manager t) \<and> log_ok t \<and> registry_ok makes t \<and>
     length (instances (av_manager t)) \<le> Suc (length (instances (av_manager s))) \<and>
     jvm_of t = jvm_of s"

definition core_locked :: "jint \<Rightarrow> ('tox, 'av) world \<Rightarrow> ('tox, 'av) world" where
  "core_locked n s = s\<lparr>core_manager := lock_held n (core_manager s)\<rparr>"

lemma core_scope_safe_from:
  fixes func :: "'tox tox \<Rightarrow> core_events \<Rightarrow> (('tox, 'av) world, 'b \<times> 'tox tox \<times> core_events) prog"
  assumes live: "\<And>s x ev. world_ok makes s \<Longrightarrow> pending s = None \<Longrightarrow> vm_ok (jvm_of s) \<Longrightarrow> roomy s \<Longrightarrow> P s \<Longrightarrow>
      slot_of (core_manager s) n = Live x ev \<Longrightarrow> core_object_ok x \<Longrightarrow> \<exists>b x' ev' t. func x ev (core_locked n s) = Done ((b, x', ev'), t) \<and>
        core_manager t = lock_held n (core_manager s) \<and> core_object_ok x' \<and> core_beside makes s t"
  shows "safe_from makes P (with_instance core_lens d n func)"
proof (rule safe_fromI)
  fix s :: "('tox, 'av) world"
  assume ok: "world_ok makes s" and s: "pending s = None" "vm_ok (jvm_of s)" "roomy s" "P s"
  have m: "manager_inv (core_manager s)" "unlocked (core_manager s)" "core.manager_ok s"
    using ok by (simp_all add: world_ok_def manager_safe_def)
  note ready = world_ok_call_ready [OF s(1,2)]
  show "\<exists>r t. with_instance core_lens d n func s = Done (r, t) \<and> world_ok makes t \<and>
      jvm_of t = jvm_of s \<and> grew s t"
  proof (cases "access_error (slot_of (core_manager s) n) n")
    case (Some e)
    with core.with_instance_dead [OF m(3) ready, of n d] ok show ?thesis by simp
  next
    case None
    then obtain x ev where x: "slot_of (core_manager s) n = Live x ev" "core_object_ok x"
      by (rule core_live [OF ok])
    from live [OF ok s x] obtain b x' ev' t where
      run: "func x ev (core_locked n s) = Done ((b, x', ev'), t)"
      and t: "core_manager t = lock_held n (core_manager s)" "core_object_ok x'" "core_beside makes s t"
      by blast
    let ?m = "unlock_instance n (write_back n x' ev' (lock_held n (core_manager s)))"
    let ?t = "t\<lparr>core_manager := ?m\<rparr>"
    note w = write_back_held [OF m(1,2) x(1), of x' ev']
    have "with_instance core_lens d n func s = Done (b, ?t)"
      using core.with_instance_live [OF m(3) ready, of n x ev d func] x(1) run t(1)
      by (simp add: andThen_def core_locked_def)
    moreover have "objects_ok core_object_ok ?m"
      by (rule objects_ok_update [of _ "core_manager s"])
        (use w ok t(2) in \<open>auto simp: world_ok_def manager_safe_def\<close>)
    ultimately show ?thesis
      using w t(3) log_ok_cong [of ?t t] registry_ok_cong [of ?t t makes]
      by (auto simp: world_ok_def manager_safe_def core_beside_def grew_def)
  qed
qed

lemmas core_scope_safe = core_scope_safe_from [where P = "\<lambda>_. True", folded native_safe_from]

text \<open>A scope that only logs.\<close>

lemma core_logs_safe_from:
  fixes func :: "'tox tox \<Rightarrow> core_events \<Rightarrow> (('tox, 'av) world, 'b \<times> 'tox tox \<times> core_events) prog"
  assumes "\<And>s x ev. P s \<Longrightarrow> slot_of (core_manager s) n = Live x ev \<Longrightarrow> core_object_ok x \<Longrightarrow>
      logs_only (\<lambda>s. pending s = None) (func x ev) (\<lambda>(b, x', ev'). core_object_ok x')"
  shows "safe_from makes P (with_instance core_lens d n func)"
proof (rule core_scope_safe_from)
  fix s :: "('tox, 'av) world" and x :: "'tox tox" and ev
  assume s: "world_ok makes s" "pending s = None" and x: "P s" "slot_of (core_manager s) n = Live x ev" "core_object_ok x"
  let ?s = "core_locked n s"
  have "log_ok ?s" using s(1) by (simp add: world_ok_def core_locked_def log_ok_def)
  with logs_onlyD [OF assms [OF x], of ?s] s(2) obtain b x' ev' t where
    "func x ev ?s = Done ((b, x', ev'), t)" and t: "log_step ?s t" "core_object_ok x'"
    by (auto simp: wp_iff core_locked_def)
  moreover from t(1) s(1) managers_more [OF log_stepD(6) [OF t(1)]]
  have "core_manager t = lock_held n (core_manager s)" "core_beside makes s t"
    using log_stepD(1,5,7,8) [OF t(1)]
    by (simp_all add: core_beside_def core_locked_def world_ok_def registry_ok_def)
  ultimately show "\<exists>b x' ev' t. func x ev ?s = Done ((b, x', ev'), t) \<and>
        core_manager t = lock_held n (core_manager s) \<and> core_object_ok x' \<and> core_beside makes s t"
    by blast
qed

lemma core_logs_safe:
  fixes func :: "'tox tox \<Rightarrow> core_events \<Rightarrow> (('tox, 'av) world, 'b \<times> 'tox tox \<times> core_events) prog"
  assumes "\<And>x ev. core_object_ok x \<Longrightarrow>
      logs_only (\<lambda>s. pending s = None) (func x ev) (\<lambda>(b, x', ev'). core_object_ok x')"
  shows "native_safe makes (with_instance core_lens d n func)"
  unfolding native_safe_from by (rule core_logs_safe_from) (rule assms)

text \<open>What may happen in the scope of a ToxAV instance beside the change of the instance.\<close>

definition av_beside :: "uintptr set \<Rightarrow> ('tox, 'av) world \<Rightarrow> ('tox, 'av) world \<Rightarrow> bool" where
  "av_beside makes s t \<longleftrightarrow>
     manager_safe core_object_ok (core_manager t) \<and> log_ok t \<and> registry_ok makes t \<and>
     length (instances (core_manager t)) \<le> Suc (length (instances (core_manager s))) \<and>
     jvm_of t = jvm_of s"

definition av_locked :: "jint \<Rightarrow> ('tox, 'av) world \<Rightarrow> ('tox, 'av) world" where
  "av_locked n s = s\<lparr>av_manager := lock_held n (av_manager s)\<rparr>"

lemma av_scope_safe_from:
  fixes func :: "'av toxav \<Rightarrow> av_events \<Rightarrow> (('tox, 'av) world, 'b \<times> 'av toxav \<times> av_events) prog"
  assumes live: "\<And>s x ev. world_ok makes s \<Longrightarrow> pending s = None \<Longrightarrow> vm_ok (jvm_of s) \<Longrightarrow> roomy s \<Longrightarrow> P s \<Longrightarrow>
      slot_of (av_manager s) n = Live x ev \<Longrightarrow> av_object_ok x \<Longrightarrow> \<exists>b x' ev' t. func x ev (av_locked n s) = Done ((b, x', ev'), t) \<and>
        av_manager t = lock_held n (av_manager s) \<and> av_object_ok x' \<and> av_beside makes s t"
  shows "safe_from makes P (with_instance av_lens d n func)"
proof (rule safe_fromI)
  fix s :: "('tox, 'av) world"
  assume ok: "world_ok makes s" and s: "pending s = None" "vm_ok (jvm_of s)" "roomy s" "P s"
  have m: "manager_inv (av_manager s)" "unlocked (av_manager s)" "av.manager_ok s"
    using ok by (simp_all add: world_ok_def manager_safe_def)
  note ready = world_ok_call_ready [OF s(1,2)]
  show "\<exists>r t. with_instance av_lens d n func s = Done (r, t) \<and> world_ok makes t \<and>
      jvm_of t = jvm_of s \<and> grew s t"
  proof (cases "access_error (slot_of (av_manager s) n) n")
    case (Some e)
    with av.with_instance_dead [OF m(3) ready, of n d] ok show ?thesis by simp
  next
    case None
    then obtain x ev where x: "slot_of (av_manager s) n = Live x ev" "av_object_ok x"
      by (rule av_live [OF ok])
    from live [OF ok s x] obtain b x' ev' t where
      run: "func x ev (av_locked n s) = Done ((b, x', ev'), t)"
      and t: "av_manager t = lock_held n (av_manager s)" "av_object_ok x'" "av_beside makes s t"
      by blast
    let ?m = "unlock_instance n (write_back n x' ev' (lock_held n (av_manager s)))"
    let ?t = "t\<lparr>av_manager := ?m\<rparr>"
    note w = write_back_held [OF m(1,2) x(1), of x' ev']
    have "with_instance av_lens d n func s = Done (b, ?t)"
      using av.with_instance_live [OF m(3) ready, of n x ev d func] x(1) run t(1)
      by (simp add: andThen_def av_locked_def)
    moreover have "objects_ok av_object_ok ?m"
      by (rule objects_ok_update [of _ "av_manager s"])
        (use w ok t(2) in \<open>auto simp: world_ok_def manager_safe_def\<close>)
    ultimately show ?thesis
      using w t(3) log_ok_cong [of ?t t] registry_ok_cong [of ?t t makes]
      by (auto simp: world_ok_def manager_safe_def av_beside_def grew_def)
  qed
qed

lemmas av_scope_safe = av_scope_safe_from [where P = "\<lambda>_. True", folded native_safe_from]

text \<open>A scope that only logs.\<close>

lemma av_logs_safe_from:
  fixes func :: "'av toxav \<Rightarrow> av_events \<Rightarrow> (('tox, 'av) world, 'b \<times> 'av toxav \<times> av_events) prog"
  assumes "\<And>s x ev. P s \<Longrightarrow> slot_of (av_manager s) n = Live x ev \<Longrightarrow> av_object_ok x \<Longrightarrow>
      logs_only (\<lambda>s. pending s = None) (func x ev) (\<lambda>(b, x', ev'). av_object_ok x')"
  shows "safe_from makes P (with_instance av_lens d n func)"
proof (rule av_scope_safe_from)
  fix s :: "('tox, 'av) world" and x :: "'av toxav" and ev
  assume s: "world_ok makes s" "pending s = None" and x: "P s" "slot_of (av_manager s) n = Live x ev" "av_object_ok x"
  let ?s = "av_locked n s"
  have "log_ok ?s" using s(1) by (simp add: world_ok_def av_locked_def log_ok_def)
  with logs_onlyD [OF assms [OF x], of ?s] s(2) obtain b x' ev' t where
    "func x ev ?s = Done ((b, x', ev'), t)" and t: "log_step ?s t" "av_object_ok x'"
    by (auto simp: wp_iff av_locked_def)
  moreover from t(1) s(1) managers_more [OF log_stepD(6) [OF t(1)]]
  have "av_manager t = lock_held n (av_manager s)" "av_beside makes s t"
    using log_stepD(1,5,7,8) [OF t(1)]
    by (simp_all add: av_beside_def av_locked_def world_ok_def registry_ok_def)
  ultimately show "\<exists>b x' ev' t. func x ev ?s = Done ((b, x', ev'), t) \<and>
        av_manager t = lock_held n (av_manager s) \<and> av_object_ok x' \<and> av_beside makes s t"
    by blast
qed

lemma av_logs_safe:
  fixes func :: "'av toxav \<Rightarrow> av_events \<Rightarrow> (('tox, 'av) world, 'b \<times> 'av toxav \<times> av_events) prog"
  assumes "\<And>x ev. av_object_ok x \<Longrightarrow>
      logs_only (\<lambda>s. pending s = None) (func x ev) (\<lambda>(b, x', ev'). av_object_ok x')"
  shows "native_safe makes (with_instance av_lens d n func)"
  unfolding native_safe_from by (rule av_logs_safe_from) (rule assms)

end
