(* ===== verification/Safe_Managers.thy ===== *)
theory Safe_Managers
  imports Safe_Calls
begin

text \<open>
  Safety of the calls that change the tables of instances (creation, \<open>kill\<close>,
  \<open>finalize\<close>), of the calls without an instance, and of the calls on the log.
\<close>

section \<open>Managers\<close>

lemma kill_safe:
  assumes "manager_safe P m" and "call_ready s"
  obtains m' exn where "kill m n s = Done (m', raise_opt exn s)" and "manager_safe P m'"
    and "length (instances m') = length (instances m)"
proof -
  from assms(1) have m: "manager_inv m" "unlocked m" "objects_ok P m" by (simp_all add: manager_safe_def)
  from kill_refines [OF m(1,2) assms(2), of n] obtain m' where
    m': "kill m n s = Done (m', raise_opt (snd (spec_kill (slot_of m) n)) s)"
      "slot_of m' = fst (spec_kill (slot_of m) n)" "manager_inv m'" "unlocked m'"
    by blast
  have "objects_ok P m'"
    using m(3) by (auto simp: objects_ok_def m'(2) spec_kill_def split: slot.splits if_splits)
  with m' have "manager_safe P m'" by (simp add: manager_safe_def)
  from that [OF m'(1) this length_instances_kill [OF m'(1)]] show thesis .
qed

lemma finalize_safe:
  assumes "manager_safe P m" and "call_ready s"
  obtains m' exn where "finalize m n s = Done (m', raise_opt exn s)" and "manager_safe P m'"
    and "length (instances m') = length (instances m)"
proof -
  from assms(1) have m: "manager_inv m" "unlocked m" "objects_ok P m" by (simp_all add: manager_safe_def)
  from finalize_refines [OF m(1,2) assms(2), of n] obtain m' where
    m': "finalize m n s = Done (m', raise_opt (snd (spec_finalize (slot_of m) n)) s)"
      "slot_of m' = fst (spec_finalize (slot_of m) n)" "manager_inv m'" "unlocked m'"
    by blast
  have "objects_ok P m'"
    using m(3) by (auto simp: objects_ok_def m'(2) spec_finalize_def split: slot.splits if_splits)
  with m' have "manager_safe P m'" by (simp add: manager_safe_def)
  from that [OF m'(1) this length_instances_finalize [OF m'(1)]] show thesis .
qed

lemma add_safe:
  assumes "manager_safe P m" and "Suc (length (instances m)) < 2 ^ 31" and "P x"
  obtains m' where "\<And>s. add m (Some x) (Some ev) s = Done ((new_number m, m'), s)"
    and "manager_safe P m'" and "length (instances m') \<le> Suc (length (instances m))"
    and "slot_of m' = (slot_of m)(new_number m := Live x ev)"
proof -
  from assms(1,2) have m: "manager_inv m" "unlocked m" "has_room m"
    by (simp_all add: manager_safe_def has_room_def)
  show thesis
  proof (cases "freelist m = []")
    case True
    note f = add_fresh(1-6) [OF m True, where x = x and ev = ev]
    from f(2) assms(1,3) have "objects_ok P (m\<lparr>instances := instances m @ [\<lparr>object_p = Some x, events_p = Some ev\<rparr>],
        locks := locks m @ [False]\<rparr>)"
      by (intro objects_ok_update [OF _ f(2)]) (simp_all add: manager_safe_def)
    with f show thesis by (intro that [OF f(1)]) (simp_all add: manager_safe_def)
  next
    case False
    note r = add_reuse(1-6) [OF m(1,2) False, where x = x and ev = ev]
    from r(2) assms(1,3) have "objects_ok P (m\<lparr>freelist := butlast (freelist m),
        instances := (instances m)[instance_index (new_number m) := \<lparr>object_p = Some x, events_p = Some ev\<rparr>]\<rparr>)"
      by (intro objects_ok_update [OF _ r(2)]) (simp_all add: manager_safe_def)
    with r show thesis by (intro that [OF r(1)]) (simp_all add: manager_safe_def)
  qed
qed

lemma world_ok_managers:
  assumes "world_ok makes s"
  shows "manager_safe core_object_ok (core_manager s)" and "manager_safe av_object_ok (av_manager s)"
    and "manager_safe core_object_ok m \<Longrightarrow> world_ok makes (s\<lparr>core_manager := m\<rparr>)"
    and "manager_safe av_object_ok k \<Longrightarrow> world_ok makes (s\<lparr>av_manager := k\<rparr>)"
  using assms log_ok_cong [of "s\<lparr>core_manager := m\<rparr>" s] log_ok_cong [of "s\<lparr>av_manager := k\<rparr>" s]
  by (simp_all add: world_ok_def registry_ok_def)

lemma core_op_safe:
  fixes f :: "('tox tox, core_events) instance_manager \<Rightarrow> (('tox, 'av) world, 'b \<times> _) prog"
  assumes "\<And>m s. manager_safe core_object_ok m \<Longrightarrow> call_ready s \<Longrightarrow>
      \<exists>b m' exn. f m s = Done ((b, m'), raise_opt exn s) \<and> manager_safe core_object_ok m' \<and>
        length (instances m') = length (instances m)"
  shows "native_safe makes (on_manager core_lens f)"
proof (rule native_safeI)
  fix s :: "('tox, 'av) world"
  assume s: "world_ok makes s" "pending s = None" "vm_ok (jvm_of s)"
  from assms [OF world_ok_managers(1) [OF s(1)] world_ok_call_ready [OF s(2,3)]]
  obtain b m' exn where run: "f (core_manager s) s = Done ((b, m'), raise_opt exn s)"
    and m': "manager_safe core_object_ok m'" "length (instances m') = length (instances (core_manager s))"
    by blast
  have "on_manager core_lens f s = Done (b, raise_opt exn (s\<lparr>core_manager := m'\<rparr>))"
    using run by (cases exn) (simp_all add: on_manager_def andThen_def)
  moreover have "world_ok makes (raise_opt exn (s\<lparr>core_manager := m'\<rparr>))"
    using world_ok_managers(3) [OF s(1) m'(1)] by (simp add: world_ok_raise)
  moreover have "grew s (raise_opt exn (s\<lparr>core_manager := m'\<rparr>))"
    using m'(2) by (cases exn) (simp_all add: grew_def)
  ultimately show "\<exists>r t. on_manager core_lens f s = Done (r, t) \<and> world_ok makes t \<and>
      jvm_of t = jvm_of s \<and> grew s t"
    by simp
qed

lemma av_op_safe:
  fixes f :: "('av toxav, av_events) instance_manager \<Rightarrow> (('tox, 'av) world, 'b \<times> _) prog"
  assumes "\<And>m s. manager_safe av_object_ok m \<Longrightarrow> call_ready s \<Longrightarrow>
      \<exists>b m' exn. f m s = Done ((b, m'), raise_opt exn s) \<and> manager_safe av_object_ok m' \<and>
        length (instances m') = length (instances m)"
  shows "native_safe makes (on_manager av_lens f)"
proof (rule native_safeI)
  fix s :: "('tox, 'av) world"
  assume s: "world_ok makes s" "pending s = None" "vm_ok (jvm_of s)"
  from assms [OF world_ok_managers(2) [OF s(1)] world_ok_call_ready [OF s(2,3)]]
  obtain b m' exn where run: "f (av_manager s) s = Done ((b, m'), raise_opt exn s)"
    and m': "manager_safe av_object_ok m'" "length (instances m') = length (instances (av_manager s))"
    by blast
  have "on_manager av_lens f s = Done (b, raise_opt exn (s\<lparr>av_manager := m'\<rparr>))"
    using run by (cases exn) (simp_all add: on_manager_def andThen_def)
  moreover have "world_ok makes (raise_opt exn (s\<lparr>av_manager := m'\<rparr>))"
    using world_ok_managers(4) [OF s(1) m'(1)] by (simp add: world_ok_raise)
  moreover have "grew s (raise_opt exn (s\<lparr>av_manager := m'\<rparr>))"
    using m'(2) by (cases exn) (simp_all add: grew_def)
  ultimately show "\<exists>r t. on_manager av_lens f s = Done (r, t) \<and> world_ok makes t \<and>
      jvm_of t = jvm_of s \<and> grew s t"
    by simp
qed

lemma kill_op_safe:
  "manager_safe P m \<Longrightarrow> call_ready s \<Longrightarrow>
   \<exists>b m' exn. andThen (kill m n) (\<lambda>m'. ret ((), m')) s = Done ((b, m'), raise_opt exn s) \<and>
     manager_safe P m' \<and> length (instances m') = length (instances m)"
  by (rule kill_safe [of P m s n]) (auto simp: andThen_def)

lemma finalize_op_safe:
  "manager_safe P m \<Longrightarrow> call_ready s \<Longrightarrow>
   \<exists>b m' exn. andThen (finalize m n) (\<lambda>m'. ret ((), m')) s = Done ((b, m'), raise_opt exn s) \<and>
     manager_safe P m' \<and> length (instances m') = length (instances m)"
  by (rule finalize_safe [of P m s n]) (auto simp: andThen_def)

lemma kill_finalize_safe [safe_intros]:
  "native_safe makes (toxKill n)" "native_safe makes (toxFinalize n)"
  "native_safe makes (toxavKill n)" "native_safe makes (toxavFinalize n)"
  unfolding toxKill_def toxFinalize_def toxavKill_def toxavFinalize_def
  by (intro core_op_safe av_op_safe kill_op_safe finalize_op_safe; assumption)+

end
