(* ===== verification/Safe_Creation.thy ===== *)
theory Safe_Creation
  imports Safe_Managers
begin

text \<open>
  Safety of \<open>toxNew\<close> and \<open>toxavNew\<close>: the new object gets its callbacks and a number while
  the log entry of the constructor is open.
\<close>

section \<open>A constructor\<close>

text \<open>
  What a constructor's success function does: it replaces the part of the state beside
  the log by one with property \<open>Q\<close>.
\<close>

definition creates ::
  "('z \<Rightarrow> bool) \<Rightarrow> ('z logenv_scheme, 'b) prog \<Rightarrow> 'z logenv_scheme \<Rightarrow> 'b \<Rightarrow> 'z \<Rightarrow> bool" where
  "creates Q m s b z \<longleftrightarrow>
     (\<forall>t. pending t = None \<longrightarrow> logenv.more t = logenv.more s \<longrightarrow>
        m t = Done (b, logenv.more_update (\<lambda>_. z) t)) \<and> Q z"

lemma constructor_run:
  fixes s :: "'z logenv_scheme"
  assumes s: "log_ok s" "pending s = None" "vm_has_errors (jvm_of s) sub en"
    and func: "\<And>t. tox_func t = Done ((r, e, x), t)" and conv: "yields (to_java r) v"
    and same: "Q (logenv.more s)"
    and succ: "code_result en e = SUCCESS \<Longrightarrow> \<exists>b z. creates Q (success_func v) s b z"
  shows "\<exists>b z exn.
    with_error_handling_new sub en show_result to_java d success_func addr args tox_func s =
       Done ((b, x), logenv.more_update (\<lambda>_. z) (raise_opt exn
         (log_call 0 addr args (show_result r) (func_names s) (static_funcs s) s))) \<and> Q z"
proof -
  have run: "with_error_handling_new sub en show_result to_java d success_func addr args tox_func s =
       Done ((if code_result en e = SUCCESS then b else d, x),
         logenv.more_update (\<lambda>_. z) (raise_opt (error_throwable sub en e)
           (log_call 0 addr args (show_result r) (func_names s) (static_funcs s) s)))"
    if "code_result en e = SUCCESS \<Longrightarrow> creates Q (success_func v) s b z"
      and "code_result en e \<noteq> SUCCESS \<Longrightarrow> z = logenv.more s" for b z
    unfolding with_error_handling_new_def
    by (rule with_error_handling_more [where v = v])
      (use s func conv that in \<open>simp_all add: log_entry_open_eq yieldsD creates_def\<close>)
  show ?thesis
  proof (cases "code_result en e = SUCCESS")
    case True
    with succ obtain b z where z: "creates Q (success_func v) s b z" by blast
    with True run [of b z] show ?thesis
      by (intro exI [of _ b] exI [of _ z] exI [of _ None]) (simp add: creates_def)
  next
    case False
    with run [of d "logenv.more s"] same show ?thesis
      by (intro exI [of _ d] exI [of _ "logenv.more s"] exI [of _ "error_throwable sub en e"]) simp
  qed
qed

text \<open>The log in the state after a constructor.\<close>

lemma constructed_log:
  assumes "log_ok s" and "registry_ok makes s"
    and t_def: "t = logenv.more_update (\<lambda>_. z)
      (raise_opt exn (log_call k addr args res (func_names s) (static_funcs s) s))"
  shows "log_ok t" and "registry_ok makes t" and "jvm_of t = jvm_of s" and "logenv.more t = z"
proof -
  let ?u = "log_call k addr args res (func_names s) (static_funcs s) s"
  have "log_ok t = log_ok ?u" by (rule log_ok_cong) (simp_all add: t_def)
  with log_ok_log_call [OF assms(1)] assms(1) show "log_ok t" by (simp add: log_ok_def)
  show "registry_ok makes t" using assms(2) by (simp add: registry_ok_def t_def)
  show "jvm_of t = jvm_of s" "logenv.more t = z" by (simp_all add: t_def)
qed

section \<open>New objects\<close>

text \<open>What toxcore documents of its constructors: with the code of success comes an object.\<close>

definition new_ok :: "'e error_enum \<Rightarrow> (uintptr \<times> 'st) option \<Rightarrow> 'e \<Rightarrow> bool" where
  "new_ok en p e \<longleftrightarrow> (code_result en e = SUCCESS \<longrightarrow> (\<exists>a st. p = Some (a, st) \<and> a \<noteq> 0))"

lemma toxNew_success_creates:
  fixes s :: "('tox, 'av) world" and x :: "'tox tox"
  assumes "manager_safe core_object_ok (core_manager s)"
    and "Suc (length (instances (core_manager s))) < 2 ^ 31" and "obj_addr x \<noteq> 0"
    and Q: "\<And>m'. manager_safe core_object_ok m' \<Longrightarrow>
      length (instances m') \<le> Suc (length (instances (core_manager s))) \<Longrightarrow>
      Q (logenv.more (s\<lparr>core_manager := m'\<rparr>))"
  shows "\<exists>b z. creates Q (toxNew_success (Some x)) s b z"
proof -
  obtain cbs where cbs: "\<And>s :: ('tox, 'av) world. set_callbacks core_callbacks x (Some no_events) s =
      Done ((x\<lparr>obj_callbacks := cbs\<rparr>, Some no_events), s)" "set core_callbacks \<subseteq> set cbs"
    using set_callbacks_Done [of core_callbacks x no_events] by blast
  let ?x = "x\<lparr>obj_callbacks := cbs\<rparr>"
  have "core_object_ok ?x" using assms(3) cbs(2) by (simp add: core_object_ok_def)
  from add_safe [OF assms(1,2) this, of no_events] obtain m' where
    m': "\<And>t :: ('tox, 'av) world. add (core_manager s) (Some ?x) (Some no_events) t =
        Done ((new_number (core_manager s), m'), t)"
      "manager_safe core_object_ok m'"
      "length (instances m') \<le> Suc (length (instances (core_manager s)))"
    by metis
  let ?z = "put_core m' (logenv.more s)"
  have "toxNew_success (Some x) t = Done (new_number (core_manager s), logenv.more_update (\<lambda>_. ?z) t)"
    if "pending t = None" "logenv.more t = logenv.more s" for t
  proof -
    have "logenv.more_update (\<lambda>_. ?z) t = t\<lparr>core_manager := m'\<rparr>"
      unfolding that(2) [symmetric] put_core_more by (cases t) simp
    with m'(1) managers_more [OF that(2)] show ?thesis
      by (simp add: toxNew_success_def andThen_def cbs(1) on_manager_def)
  qed
  with Q [OF m'(2,3)] have "creates Q (toxNew_success (Some x)) s (new_number (core_manager s)) ?z"
    by (simp add: creates_def put_core_more)
  then show ?thesis by blast
qed

lemma toxavNew_success_creates:
  fixes s :: "('tox, 'av) world" and x :: "'av toxav"
  assumes "manager_safe av_object_ok (av_manager s)"
    and "Suc (length (instances (av_manager s))) < 2 ^ 31" and "obj_addr x \<noteq> 0"
    and Q: "\<And>m'. manager_safe av_object_ok m' \<Longrightarrow>
      length (instances m') \<le> Suc (length (instances (av_manager s))) \<Longrightarrow>
      Q (logenv.more (s\<lparr>av_manager := m'\<rparr>))"
  shows "\<exists>b z. creates Q (toxavNew_success (Some x)) s b z"
proof -
  obtain cbs where cbs: "\<And>s :: ('tox, 'av) world. set_callbacks av_callbacks x (Some no_av_events) s =
      Done ((x\<lparr>obj_callbacks := cbs\<rparr>, Some no_av_events), s)" "set av_callbacks \<subseteq> set cbs"
    using set_callbacks_Done [of av_callbacks x no_av_events] by blast
  let ?x = "x\<lparr>obj_callbacks := cbs\<rparr>"
  have "av_object_ok ?x" using assms(3) cbs(2) by (simp add: av_object_ok_def)
  from add_safe [OF assms(1,2) this, of no_av_events] obtain m' where
    m': "\<And>t :: ('tox, 'av) world. add (av_manager s) (Some ?x) (Some no_av_events) t =
        Done ((new_number (av_manager s), m'), t)"
      "manager_safe av_object_ok m'"
      "length (instances m') \<le> Suc (length (instances (av_manager s)))"
    by metis
  let ?z = "put_av m' (logenv.more s)"
  have "toxavNew_success (Some x) t = Done (new_number (av_manager s), logenv.more_update (\<lambda>_. ?z) t)"
    if "pending t = None" "logenv.more t = logenv.more s" for t
  proof -
    have "logenv.more_update (\<lambda>_. ?z) t = t\<lparr>av_manager := m'\<rparr>"
      unfolding that(2) [symmetric] put_av_more by (cases t) simp
    with m'(1) managers_more [OF that(2)] show ?thesis
      by (simp add: toxavNew_success_def andThen_def cbs(1) on_manager_def)
  qed
  with Q [OF m'(2,3)] have "creates Q (toxavNew_success (Some x)) s (new_number (av_manager s)) ?z"
    by (simp add: creates_def put_av_more)
  then show ?thesis by blast
qed

section \<open>The native methods\<close>

lemma toxNew_call_safe:
  fixes x :: 'x and p :: "(uintptr \<times> 'tox) option"
  assumes "new_ok tox_err_new_enum p e"
    and m_def: "m = (with_error_handling_new core_subsystem tox_err_new_enum show_result
    (\<lambda>p. ret (new_object_of p)) 0 toxNew_success addr args (ret (p, e, x)) ::
      (('tox, 'av) world, jint \<times> 'x) prog)"
  shows "native_safe makes m"
proof (rule native_safeI)
  fix s :: "('tox, 'av) world"
  assume s: "world_ok makes s" "pending s = None" "vm_ok (jvm_of s)" "roomy s"
  have vm: "vm_has_errors (jvm_of s) core_subsystem tox_err_new_enum" using s(3) by (simp add: vm_ok_def)
  define Q :: "('tox, 'av, unit) world_ext \<Rightarrow> bool" where "Q z \<longleftrightarrow> manager_safe core_object_ok (get_core z) \<and> get_av z = av_manager s \<and>
    length (instances (get_core z)) \<le> Suc (length (instances (core_manager s)))" for z
  note managers = world_ok_managers(1,2) [OF s(1)]
  have "\<exists>b z. creates Q (toxNew_success (new_object_of p)) s b z"
    if "code_result tox_err_new_enum e = SUCCESS"
    using assms(1) that s(4) managers(1)
    by (auto simp: new_ok_def new_object_of_def roomy_def Q_def get_core_more get_av_more
        intro!: toxNew_success_creates)
  moreover have "log_ok s" "registry_ok makes s" "Q (logenv.more s)"
    using s(1) managers(1) by (simp_all add: world_ok_def Q_def get_core_more get_av_more)
  ultimately have "\<exists>b z exn. m s = Done ((b, x), logenv.more_update (\<lambda>_. z) (raise_opt exn
         (log_call 0 addr args (show_result p) (func_names s) (static_funcs s) s))) \<and> Q z"
    unfolding m_def using s(2) vm
    by (intro constructor_run [where v = "new_object_of p"]) (simp_all add: yields_def)
  then obtain b z exn where
    run: "m s = Done ((b, x), logenv.more_update (\<lambda>_. z) (raise_opt exn
         (log_call 0 addr args (show_result p) (func_names s) (static_funcs s) s)))" and z: "Q z"
    by blast
  let ?t = "logenv.more_update (\<lambda>_. z) (raise_opt exn
         (log_call 0 addr args (show_result p) (func_names s) (static_funcs s) s))"
  note t = constructed_log [OF \<open>log_ok s\<close> \<open>registry_ok makes s\<close> refl]
  have "core_manager ?t = get_core z" "av_manager ?t = get_av z"
    using get_core_more [of ?t] get_av_more [of ?t] by (simp_all add: t)
  with z t run managers(2) show "\<exists>r t. m s = Done (r, t) \<and> world_ok makes t \<and> jvm_of t = jvm_of s \<and> grew s t"
    by (auto simp: world_ok_def Q_def grew_def)
qed


lemma toxavNew_safe [safe_intros]:
  fixes toxav_new :: "('tox, 'av) toxav_new_fun"
  assumes new: "\<And>st. case run_c toxav_new st of (p, e, _) \<Rightarrow> new_ok toxav_err_new_enum p e"
  shows "native_safe makes (toxavNew toxav_new n)"
  unfolding toxavNew_def
proof (rule core_scope_safe)
  fix s :: "('tox, 'av) world" and x :: "'tox tox" and ev
  assume s: "world_ok makes s" "pending s = None" "vm_ok (jvm_of s)" "roomy s" and x: "core_object_ok x"
  let ?s = "core_locked n s"
  let ?func = "with_error_handling_new av_subsystem toxav_err_new_enum (\<lambda>p. Arg_toxav (show_pointer p))
     (\<lambda>p. ret (new_object_of p)) 0 toxavNew_success (addr_of toxav_new) [Arg_tox (obj_addr x)]
     (on_state (\<lambda>st. ret (run_c toxav_new st)) x)"
  obtain p e st' where new_eq: "run_c toxav_new (obj_state x) = (p, e, st')"
    by (cases "run_c toxav_new (obj_state x)")
  define Q :: "('tox, 'av, unit) world_ext \<Rightarrow> bool" where
    "Q z \<longleftrightarrow> manager_safe av_object_ok (get_av z) \<and> get_core z = lock_held n (core_manager s) \<and>
      length (instances (get_av z)) \<le> Suc (length (instances (av_manager s)))" for z
  have "\<exists>b z. creates Q (toxavNew_success (new_object_of p)) ?s b z"
    if "code_result toxav_err_new_enum e = SUCCESS"
    using new [of "obj_state x"] that s(4) world_ok_managers(2) [OF s(1)]
    by (auto simp: new_eq new_ok_def new_object_of_def roomy_def Q_def get_core_more get_av_more
        core_locked_def intro!: toxavNew_success_creates)
  moreover have "log_ok ?s" "registry_ok makes ?s" "Q (logenv.more ?s)" "pending ?s = None"
    "vm_has_errors (jvm_of ?s) av_subsystem toxav_err_new_enum"
    using s by (simp_all add: world_ok_def Q_def get_core_more get_av_more core_locked_def
        registry_ok_def log_ok_def vm_ok_def)
  moreover have "on_state (\<lambda>st. ret (run_c toxav_new st)) x t = Done ((p, e, x\<lparr>obj_state := st'\<rparr>), t)"
    for t :: "('tox, 'av) world"
    by (simp add: on_state_def andThen_def new_eq)
  ultimately have "\<exists>b z exn. ?func ?s = Done ((b, x\<lparr>obj_state := st'\<rparr>),
       logenv.more_update (\<lambda>_. z) (raise_opt exn
         (log_call 0 (addr_of toxav_new) [Arg_tox (obj_addr x)] (Arg_toxav (show_pointer p))
           (func_names ?s) (static_funcs ?s) ?s))) \<and> Q z"
    by (intro constructor_run [where v = "new_object_of p"]) (simp_all add: yields_def)
  then obtain b z exn where run: "?func ?s = Done ((b, x\<lparr>obj_state := st'\<rparr>),
       logenv.more_update (\<lambda>_. z) (raise_opt exn
         (log_call 0 (addr_of toxav_new) [Arg_tox (obj_addr x)] (Arg_toxav (show_pointer p))
           (func_names ?s) (static_funcs ?s) ?s)))" and z: "Q z"
    by blast
  let ?t = "logenv.more_update (\<lambda>_. z) (raise_opt exn
         (log_call 0 (addr_of toxav_new) [Arg_tox (obj_addr x)] (Arg_toxav (show_pointer p))
           (func_names ?s) (static_funcs ?s) ?s))"
  note t = constructed_log [OF \<open>log_ok ?s\<close> \<open>registry_ok makes ?s\<close> refl]
  have "core_manager ?t = get_core z" "av_manager ?t = get_av z"
    using get_core_more [of ?t] get_av_more [of ?t] by (simp_all add: t)
  with z t have "core_manager ?t = lock_held n (core_manager s)" "core_beside makes s ?t"
    by (auto simp: core_beside_def Q_def core_locked_def)
  with run x show "\<exists>b x' ev' t. andThen ?func (\<lambda>(n, tox). ret (n, tox, ev)) ?s = Done ((b, x', ev'), t) \<and>
      core_manager t = lock_held n (core_manager s) \<and> core_object_ok x' \<and> core_beside makes s t"
    by (auto simp: andThen_def)
qed

end
