(* ===== verification/Safe_Methods.thy ===== *)
theory Safe_Methods
  imports Safe_Creation
begin

text \<open>
  Safety of the remaining kinds of native methods: those that throw on their own, those
  without an instance, those on the log, \<open>iterate\<close> and the \<open>invoke\<close> methods.
\<close>

section \<open>Exceptions\<close>

lemma throw_safe [safe_intros]:
  fixes makes :: "uintptr set"
  assumes "\<And>vm. vm_ok vm \<Longrightarrow> vm_has_errors vm sub en" and "code_result en e = FAILURE"
  shows "native_safe makes (throw_tox_exception sub en e :: (('tox, 'av) world, unit) prog)"
  using assms by (intro native_safeI) (simp add: throw_tox_exception_Done)

lemma throw_error_safe:
  fixes makes :: "uintptr set"
  assumes "\<And>vm. vm_ok vm \<Longrightarrow> vm_has_exception vm (error_class_name sub en) name"
  shows "native_safe makes (throw_tox_error sub en name :: (('tox, 'av) world, unit) prog)"
  using assms by (intro native_safeI) (simp add: throw_tox_error_Done)

lemma safe_return:
  assumes "native_safe makes m" and "\<And>r. \<exists>r'. \<forall>s. f r s = Done (r', s)"
  shows "native_safe makes (andThen m f)"
proof (rule native_safeI)
  fix s :: "('a, 'b) world"
  assume "world_ok makes s" "pending s = None" "vm_ok (jvm_of s)" "roomy s"
  with assms(1) obtain r t where "m s = Done (r, t)" "world_ok makes t" "jvm_of t = jvm_of s" "grew s t"
    by (auto simp: native_safe_def wp_iff)
  with assms(2) [of r] show "\<exists>r t. andThen m f s = Done (r, t) \<and> world_ok makes t \<and>
      jvm_of t = jvm_of s \<and> grew s t"
    by (auto simp: andThen_def)
qed

section \<open>Calls without an instance\<close>

definition crypto_returns ::
  "'e error_enum \<Rightarrow> ('r \<Rightarrow> ('s jenv_scheme, 'b) prog) \<Rightarrow> ('s jenv_scheme, 'r \<times> 'e) prog \<Rightarrow> bool" where
  "crypto_returns en success_func f \<longleftrightarrow>
     (\<exists>r e b. (\<forall>t. f t = Done ((r, e), t)) \<and>
        (code_result en e = SUCCESS \<longrightarrow> yields (success_func r) b))"

lemma crypto_call_safe [safe_intros]:
  fixes f :: "(('tox, 'av) world, 'r \<times> 'e) prog"
  assumes vm: "\<And>vm. vm_ok vm \<Longrightarrow> vm_has_errors vm crypto_subsystem en"
    and f: "crypto_returns en success_func f"
  shows "native_safe makes (crypto_call en show_result d success_func addr f)"
proof (rule native_safeI)
  fix s :: "('tox, 'av) world"
  assume s: "world_ok makes s" "pending s = None" "vm_ok (jvm_of s)"
  have "log_ok s" using s(1) by (simp add: world_ok_def)
  from f obtain r e b where ret: "\<forall>t. f t = Done ((r, e), t)"
    "code_result en e = SUCCESS \<longrightarrow> yields (success_func r) b" by (auto simp: crypto_returns_def)
  let ?u = "raise_opt (error_throwable crypto_subsystem en e)
         (log_call 0 addr [] (show_result r) (func_names s) (static_funcs s) s)"
  have "with_log_entry (log_entry_open addr [])
       (\<lambda>log_entry. with_error_handling log_entry crypto_subsystem en show_result ret d success_func
          (andThen f (\<lambda>(r, e). ret (r, e, ())))) s =
     Done ((if code_result en e = SUCCESS then b else d, ()), ?u)"
    by (rule with_error_handling_scope [where v = r])
      (use \<open>log_ok s\<close> s vm ret in \<open>simp_all add: log_entry_open_eq andThen_def yieldsD\<close>)
  then have run: "crypto_call en show_result d success_func addr f s =
      Done (if code_result en e = SUCCESS then b else d, ?u)"
    by (simp add: crypto_call_def andThen_def)
  from world_ok_names [OF s(1)] have "world_ok makes ?u" "jvm_of ?u = jvm_of s" "grew s ?u"
    by (intro after_log_call [OF s(1) refl grew_refl]; simp)+
  with run show "\<exists>r t. crypto_call en show_result d success_func addr f s = Done (r, t) \<and>
      world_ok makes t \<and> jvm_of t = jvm_of s \<and> grew s t"
    by blast
qed

section \<open>The log\<close>

lemma world_ok_set_log:
  assumes "world_ok makes s" and "log_wf l"
  shows "world_ok makes (set_log l s)" and "grew s (set_log l s)"
proof -
  have "log_ok (set_log l s)" "registry_ok makes (set_log l s)"
    using assms by (simp_all add: world_ok_def log_ok_def registry_ok_def)
  with world_ok_cong [of "set_log l s" s makes] assms(1)
  show "world_ok makes (set_log l s)" "grew s (set_log l s)" by simp_all
qed

text \<open>The serialised log fits in a Java array.\<close>

definition log_fits :: "(log_entry list \<Rightarrow> uint8 list) \<Rightarrow> 'z logenv_scheme \<Rightarrow> bool" where
  "log_fits serialize s \<longleftrightarrow>
     (\<forall>bytes t. clear_log serialize s = Done (bytes, t) \<longrightarrow> length bytes < 2 ^ 31)"

lemma tox4jLastLog_safe:
  "safe_from makes (log_fits serialize) (tox4jLastLog serialize :: ('tox, 'av, uint8 jarray) native)"
proof (rule safe_fromI)
  fix s :: "('tox, 'av) world"
  assume s: "world_ok makes s" "pending s = None" and fits: "log_fits serialize s"
  let ?t = "set_log ((lg s)\<lparr>log_entries := []\<rparr>) s"
  have wf: "log_wf (lg s)" using s(1) by (simp add: world_ok_def log_ok_def)
  then have "\<forall>(p, e) \<in> set (log_entries (lg s)). entry_name e \<noteq> []"
    by (auto simp: log_wf_def)
  then obtain r where r: "\<forall>t :: ('tox, 'av) world. resolve_names (func_names s) (log_entries (lg s)) t = Done (r, t)"
    using resolve_names_Done by blast
  have "log_wf ((lg s)\<lparr>log_entries := []\<rparr>)" using wf by (simp add: log_wf_def)
  note t = world_ok_set_log [OF s(1) this]
  have "clear_log serialize s = Done (serialize r, ?t)" using r by (simp add: clear_log_def andThen_def)
  with fits have "length (serialize r) < 2 ^ 31" by (simp add: log_fits_def)
  with s(2) have "toJavaArray (serialize r) ?t = Done (Some (serialize r), ?t)"
    by (simp add: toJavaArray_Done)
  with r s t show "\<exists>r t. tox4jLastLog serialize s = Done (r, t) \<and> world_ok makes t \<and>
      jvm_of t = jvm_of s \<and> grew s t"
    by (simp add: tox4jLastLog_def log_empty_def log_size_def clear_log_def andThen_def)
qed

lemma filter_strings_yields: "\<exists>r. yields (filter_strings strs :: ('tox, 'av, string list) native) r"
proof (induction strs)
  case Nil
  show ?case by (auto simp: yields_def)
next
  case (Cons str strs)
  then obtain r where "yields (filter_strings strs :: ('tox, 'av, string list) native) r" by blast
  then show ?case by (auto simp: yields_def andThen_def jni_call_def utf_chars_Done)
qed

lemma log_methods_safe [safe_intros]:
  fixes makes :: "uintptr set"
  shows "native_safe makes (tox4jSetMaxLogSize n :: ('tox, 'av, unit) native)"
    and "native_safe makes (tox4jGetMaxLogSize :: ('tox, 'av, jint) native)"
    and "native_safe makes (tox4jGetCurrentLogSize :: ('tox, 'av, jint) native)"
    and "native_safe makes (tox4jSetLogFilter (Some strs) :: ('tox, 'av, unit) native)"
proof -
  have wf: "log_wf ((lg s)\<lparr>log_max_size := n\<rparr>)" "log_wf ((lg s)\<lparr>log_filters := fs\<rparr>)"
    if "world_ok makes s" for s :: "('tox, 'av) world" and fs
    using that by (simp_all add: world_ok_def log_ok_def log_wf_def)
  show "native_safe makes (tox4jSetMaxLogSize n :: ('tox, 'av, unit) native)"
    by (rule native_safeI) (simp add: tox4jSetMaxLogSize_def set_max_size_def world_ok_set_log wf)
  show "native_safe makes (tox4jGetMaxLogSize :: ('tox, 'av, jint) native)"
    "native_safe makes (tox4jGetCurrentLogSize :: ('tox, 'av, jint) native)"
    by (rule native_safeI; simp add: tox4jGetMaxLogSize_def get_max_size_def
        tox4jGetCurrentLogSize_def log_size_def)+
  obtain r where "yields (filter_strings strs :: ('tox, 'av, string list) native) r"
    using filter_strings_yields by blast
  then show "native_safe makes (tox4jSetLogFilter (Some strs) :: ('tox, 'av, unit) native)"
    by (intro native_safeI)
      (simp add: tox4jSetLogFilter_def set_filter_def jni_call_def andThen_def yieldsD
        world_ok_set_log wf)
qed

section \<open>Iteration\<close>

text \<open>What the scope of \<open>iterate\<close> shares: a logged run, then the queue is handed out or kept.\<close>

lemma logs_only_yields:
  "yields m a \<Longrightarrow> R a \<Longrightarrow> logs_only (\<lambda>s. pending s = None) m R"
  by (rule logs_onlyI) (simp add: wp_iff yieldsD log_step_refl)

lemma logs_only_weaken: "logs_only P m R \<Longrightarrow> (\<And>r. R r \<Longrightarrow> R' r) \<Longrightarrow> logs_only P m R'"
  unfolding logs_only_def by (blast intro: wp_mono)

definition hand_out :: "('ev \<Rightarrow> uint8 list) \<Rightarrow> 'ev \<Rightarrow> 'ev \<Rightarrow> 'x \<Rightarrow> uint8 jarray \<times> 'x \<times> 'ev" where
  "hand_out serialize none events x =
     (if length (serialize events) = 0 then (None, x, events) else (Some (serialize events), x, none))"

lemma yields_hand_out:
  assumes "length (serialize events) < 2 ^ 31"
  shows "yields (if length (serialize events) = 0 then ret (None, x, events)
      else andThen (toJavaArray (serialize events)) (\<lambda>arr. ret (arr, x, none)))
    (hand_out serialize none events x)"
  using assms by (cases "length (serialize events) = 0") (auto simp: hand_out_def intro!: yields_intros)

lemma logs_only_iterate:
  fixes run :: "('z logenv_scheme, 'ev \<times> 'x) prog"
  assumes run: "logs_only (\<lambda>_. True) run (\<lambda>r. r = (ev', x'))"
    and out: "length (serialize ev') < 2 ^ 31"
  shows "logs_only (\<lambda>s. pending s = None)
    (with_log_entry (instance_log_entry_open n addr args) (\<lambda>log_entry.
       andThen (print_result log_entry (\<lambda>_. Arg_void) run) (\<lambda>(events, x).
         if length (serialize events) = 0 then ret (None, x, events)
         else andThen (toJavaArray (serialize events)) (\<lambda>arr. ret (arr, x, none)))))
    (\<lambda>r. r = hand_out serialize none ev' x')"
proof (rule logs_onlyI)
  fix s :: "'z logenv_scheme"
  assume s: "log_ok s" "pending s = None"
  show "wp (with_log_entry (instance_log_entry_open n addr args) (\<lambda>log_entry.
       andThen (print_result log_entry (\<lambda>_. Arg_void) run) (\<lambda>(events, x).
         if length (serialize events) = 0 then ret (None, x, events)
         else andThen (toJavaArray (serialize events)) (\<lambda>arr. ret (arr, x, none)))))
    (\<lambda>r t. log_step s t \<and> r = hand_out serialize none ev' x') s"
  proof (rule with_log_entry_step [where P = "\<lambda>t. pending t = None"])
    fix ep
    have "logs_only (\<lambda>t. pending t = None \<and> points ep t) (print_result ep (\<lambda>_. Arg_void) run)
        (\<lambda>r. r = (ev', x'))"
      by (rule logs_only_print_result [OF logs_only_pre [OF run]])
        (auto dest: log_stepD(4) intro: points_step)
    then show "logs_only (\<lambda>t. pending t = None \<and> points ep t)
       (andThen (print_result ep (\<lambda>_. Arg_void) run) (\<lambda>(events, x).
         if length (serialize events) = 0 then ret (None, x, events)
         else andThen (toJavaArray (serialize events)) (\<lambda>arr. ret (arr, x, none))))
       (\<lambda>r. r = hand_out serialize none ev' x')"
    proof (rule logs_only_andThen)
      fix r :: "'ev \<times> 'x"
      assume "r = (ev', x')"
      then show "logs_only (\<lambda>t. pending t = None \<and> points ep t) (case r of (events, x) \<Rightarrow>
          if length (serialize events) = 0 then ret (None, x, events)
          else andThen (toJavaArray (serialize events)) (\<lambda>arr. ret (arr, x, none)))
          (\<lambda>r. r = hand_out serialize none ev' x')"
        by (simp only: prod.case)
          (intro logs_only_pre [OF logs_only_yields [OF yields_hand_out [where serialize = serialize, OF out]]];
           simp)
    qed (auto dest: log_stepD(4) intro: points_step)
  qed (use s in \<open>auto intro: instance_log_entry_open_step dest: log_stepD(4)\<close>)
qed

text \<open>The callbacks that toxcore makes append their events, in order.\<close>

lemma logs_only_run_iterate:
  fixes x :: "'tox tox" and tox_iterate :: "'tox iterate_fun"
  assumes "core_object_ok x" and "run_c tox_iterate (obj_state x) = (cs, st)"
    and "\<forall>c \<in> set cs. valid_callback c"
  shows "logs_only (\<lambda>_. True) (run_iterate addr tox_iterate x ev)
    (\<lambda>r. r = (fold append_event cs ev, x\<lparr>obj_state := st\<rparr>))"
  unfolding run_iterate_def assms(2) Let_def prod.case
proof (rule logs_only_andThen)
  show "logs_only (\<lambda>_. True)
      (deliver callback_name (obj_callbacks x) (invoke addr (obj_addr x)) cs ev)
      (\<lambda>r. r = fold append_event cs ev)"
    using assms(1,3) core_callbacks_complete
    by (intro logs_only_deliver conjI logs_only_invoke) (auto simp: core_object_ok_def)
qed (auto intro!: logs_only_ret)

lemma logs_only_run_av_iterate:
  fixes x :: "'av toxav" and toxav_iterate :: "'av av_iterate_fun"
  assumes "av_object_ok x" and "run_c toxav_iterate (obj_state x) = (cs, st)"
    and "\<forall>c \<in> set cs. valid_av_callback c"
  shows "logs_only (\<lambda>_. True) (run_av_iterate bits addr toxav_iterate x ev)
    (\<lambda>r. r = (fold (append_av_event bits) cs ev, x\<lparr>obj_state := st\<rparr>))"
  unfolding run_av_iterate_def assms(2) Let_def prod.case
proof (rule logs_only_andThen)
  show "logs_only (\<lambda>_. True)
      (deliver av_name (obj_callbacks x) (av_invoke bits addr (obj_addr x)) cs ev)
      (\<lambda>r. r = fold (append_av_event bits) cs ev)"
    using assms(1,3) av_callbacks_complete
    by (intro logs_only_deliver conjI logs_only_av_invoke) (auto simp: av_object_ok_def)
qed (auto intro!: logs_only_ret)

text \<open>What \<open>tox_iterate\<close> may do on instance \<open>n\<close>: valid callbacks, whose events fit in a Java array.\<close>

definition iterate_fits ::
  "(core_events \<Rightarrow> uint8 list) \<Rightarrow> 'tox iterate_fun \<Rightarrow> jint \<Rightarrow> ('tox, 'av) world \<Rightarrow> bool" where
  "iterate_fits serialize tox_iterate n s \<longleftrightarrow>
     (\<forall>x ev. slot_of (core_manager s) n = Live x ev \<longrightarrow>
        (\<forall>c \<in> set (fst (run_c tox_iterate (obj_state x))). valid_callback c) \<and>
        length (serialize (fold append_event (fst (run_c tox_iterate (obj_state x))) ev)) < 2 ^ 31)"

lemma toxIterate_safe:
  fixes tox_iterate :: "'tox iterate_fun"
  shows "safe_from makes (iterate_fits serialize tox_iterate n)
    (toxIterate addr serialize tox_iterate n :: ('tox, 'av, uint8 jarray) native)"
  unfolding toxIterate_def
proof (rule core_logs_safe_from)
  fix s :: "('tox, 'av) world" and x :: "'tox tox" and ev
  assume fits: "iterate_fits serialize tox_iterate n s" and live: "slot_of (core_manager s) n = Live x ev"
    and x: "core_object_ok x"
  obtain cs st where cs: "run_c tox_iterate (obj_state x) = (cs, st)" by fastforce
  have calls: "\<forall>c \<in> set cs. valid_callback c" and out: "length (serialize (fold append_event cs ev)) < 2 ^ 31"
    using fits live by (simp_all add: iterate_fits_def cs)
  note run = logs_only_run_iterate [OF x cs calls]
  show "logs_only (\<lambda>s. pending s = None)
    (with_log_entry (instance_log_entry_open n (addr_of tox_iterate) [Arg_tox (obj_addr x)]) (\<lambda>log_entry.
       andThen (print_result log_entry (\<lambda>_. Arg_void) (run_iterate addr tox_iterate x ev)) (\<lambda>(events, x).
         if length (serialize events) = 0 then ret (None, x, events)
         else andThen (toJavaArray (serialize events)) (\<lambda>arr. ret (arr, x, no_events)))))
    (\<lambda>(b, x', ev'). core_object_ok x')"
    by (rule logs_only_weaken, rule logs_only_iterate [where serialize = serialize, OF run out])
      (use x in \<open>auto simp: hand_out_def core_object_ok_def av_object_ok_def split: if_splits\<close>)
qed

text \<open>What \<open>toxav_iterate\<close> may do on instance \<open>n\<close>: valid callbacks, whose events fit in a Java array.\<close>

definition av_iterate_fits ::
  "(TOXAV_FRIEND_CALL_STATE \<Rightarrow> uint32) \<Rightarrow> (av_events \<Rightarrow> uint8 list) \<Rightarrow> 'av av_iterate_fun \<Rightarrow> jint \<Rightarrow> ('tox, 'av) world \<Rightarrow> bool" where
  "av_iterate_fits bits serialize toxav_iterate n s \<longleftrightarrow>
     (\<forall>x ev. slot_of (av_manager s) n = Live x ev \<longrightarrow>
        (\<forall>c \<in> set (fst (run_c toxav_iterate (obj_state x))). valid_av_callback c) \<and>
        length (serialize (fold (append_av_event bits) (fst (run_c toxav_iterate (obj_state x))) ev)) < 2 ^ 31)"

lemma toxavIterate_safe:
  fixes toxav_iterate :: "'av av_iterate_fun"
  shows "safe_from makes (av_iterate_fits bits serialize toxav_iterate n)
    (toxavIterate bits addr serialize toxav_iterate n :: ('tox, 'av, uint8 jarray) native)"
  unfolding toxavIterate_def
proof (rule av_logs_safe_from)
  fix s :: "('tox, 'av) world" and x :: "'av toxav" and ev
  assume fits: "av_iterate_fits bits serialize toxav_iterate n s" and live: "slot_of (av_manager s) n = Live x ev"
    and x: "av_object_ok x"
  obtain cs st where cs: "run_c toxav_iterate (obj_state x) = (cs, st)" by fastforce
  have calls: "\<forall>c \<in> set cs. valid_av_callback c" and out: "length (serialize (fold (append_av_event bits) cs ev)) < 2 ^ 31"
    using fits live by (simp_all add: av_iterate_fits_def cs)
  note run = logs_only_run_av_iterate [OF x cs calls]
  show "logs_only (\<lambda>s. pending s = None)
    (with_log_entry (instance_log_entry_open n (addr_of toxav_iterate) [Arg_toxav (obj_addr x)]) (\<lambda>log_entry.
       andThen (print_result log_entry (\<lambda>_. Arg_void) (run_av_iterate bits addr toxav_iterate x ev)) (\<lambda>(events, x).
         if length (serialize events) = 0 then ret (None, x, events)
         else andThen (toJavaArray (serialize events)) (\<lambda>arr. ret (arr, x, no_av_events)))))
    (\<lambda>(b, x', ev'). av_object_ok x')"
    by (rule logs_only_weaken, rule logs_only_iterate [where serialize = serialize, OF run out])
      (use x in \<open>auto simp: hand_out_def core_object_ok_def av_object_ok_def split: if_splits\<close>)
qed

text \<open>One iteration on a live instance, in full.\<close>

lemma core_with_instance_frame:
  fixes s t :: "('tox, 'av) world"
  assumes "core.manager_ok s" "call_ready s" "slot_of (core_manager s) n = Live x ev"
    and "func x ev (core_locked n s) = Done ((r, x', ev'), t)"
    and "core_manager t = lock_held n (core_manager s)"
  shows "\<exists>s'. with_instance core_lens d n func s = Done (r, s') \<and>
     slot_of (core_manager s') = (slot_of (core_manager s))(n := Live x' ev') \<and>
     core.manager_ok s' \<and> s' = t\<lparr>core_manager := core_manager s'\<rparr>"
  using core.with_instance_frame [of s n x ev func r x' ev' t d] assms by (auto simp: core_locked_def)

lemma av_with_instance_frame:
  fixes s t :: "('tox, 'av) world"
  assumes "av.manager_ok s" "call_ready s" "slot_of (av_manager s) n = Live x ev"
    and "func x ev (av_locked n s) = Done ((r, x', ev'), t)"
    and "av_manager t = lock_held n (av_manager s)"
  shows "\<exists>s'. with_instance av_lens d n func s = Done (r, s') \<and>
     slot_of (av_manager s') = (slot_of (av_manager s))(n := Live x' ev') \<and>
     av.manager_ok s' \<and> s' = t\<lparr>av_manager := av_manager s'\<rparr>"
  using av.with_instance_frame [of s n x ev func r x' ev' t d] assms by (auto simp: av_locked_def)

text \<open>A function that only logs, on a live instance: it replaces the object and its events.\<close>

lemma core_logs_live:
  fixes s :: "('tox, 'av) world" and func :: "'tox tox \<Rightarrow> core_events \<Rightarrow> (('tox, 'av) world, 'r \<times> 'tox tox \<times> core_events) prog"
  assumes ok: "world_ok makes s" "pending s = None" "vm_ok (jvm_of s)"
    and live: "slot_of (core_manager s) n = Live x ev"
    and logs: "core_object_ok x \<Longrightarrow> logs_only (\<lambda>s. pending s = None) (func x ev) (\<lambda>q. q = (r, x', ev'))"
    and same_object: "core_object_ok x \<Longrightarrow> core_object_ok x'"
  shows "\<exists>t. with_instance core_lens d n func s = Done (r, t) \<and>
    slot_of (core_manager t) = (slot_of (core_manager s))(n := Live x' ev') \<and>
    av_manager t = av_manager s \<and> pending t = None \<and> jvm_of t = jvm_of s \<and> world_ok makes t"
proof -
  let ?s = "core_locked n s"
  have m: "core.manager_ok s" "call_ready s" using world_ok_core [OF ok(1)] world_ok_call_ready [OF ok(2,3)] by simp_all
  have x: "core_object_ok x"
    using ok(1) live by (auto simp: world_ok_def manager_safe_def objects_ok_def)
  have s: "log_ok ?s" "pending ?s = None"
    using ok(1,2) by (simp_all add: world_ok_def core_locked_def log_ok_def)
  from logs_onlyD [OF logs [OF x] s] obtain u where u: "func x ev ?s = Done ((r, x', ev'), u)" "log_step ?s u"
    unfolding wp_iff by blast
  have more: "core_manager u = lock_held n (core_manager s)" "av_manager u = av_manager s" "pending u = None"
    using managers_more [OF log_stepD(6) [OF u(2)]] log_stepD(4) [OF u(2)] s(2)
    by (simp_all add: core_locked_def)
  from core_with_instance_frame [where d = d and func = func, OF m live u(1) more(1)]
  obtain t where t: "with_instance core_lens d n func s = Done (r, t)"
    "slot_of (core_manager t) = (slot_of (core_manager s))(n := Live x' ev')"
    "core.manager_ok t" "t = u\<lparr>core_manager := core_manager t\<rparr>"
    by blast
  note same = t(4) [THEN arg_cong]
  have fields: "av_manager t = av_manager s" "pending t = None" "jvm_of t = jvm_of s"
      "func_names t = func_names s" "static_funcs t = static_funcs s" "jni_log_of t = jni_log_of u"
    using same [of av_manager] same [of pending] same [of jvm_of] same [of func_names] same [of static_funcs]
      same [of jni_log_of] more log_stepD(5,7,8) [OF u(2)]
    by (simp_all add: core_locked_def)
  have "objects_ok core_object_ok (core_manager t)"
    using ok(1) same_object [OF x] by (intro objects_ok_update [OF _ t(2)]) (simp_all add: world_ok_def manager_safe_def)
  moreover have "log_ok t" using log_stepD(1,7) [OF u(2)] fields by (simp add: log_ok_def core_locked_def)
  ultimately have "world_ok makes t"
    using ok(1) t(3) fields by (simp add: world_ok_def manager_safe_def registry_ok_def)
  with t(1,2) fields show ?thesis by auto
qed

lemma av_logs_live:
  fixes s :: "('tox, 'av) world" and func :: "'av toxav \<Rightarrow> av_events \<Rightarrow> (('tox, 'av) world, 'r \<times> 'av toxav \<times> av_events) prog"
  assumes ok: "world_ok makes s" "pending s = None" "vm_ok (jvm_of s)"
    and live: "slot_of (av_manager s) n = Live x ev"
    and logs: "av_object_ok x \<Longrightarrow> logs_only (\<lambda>s. pending s = None) (func x ev) (\<lambda>q. q = (r, x', ev'))"
    and same_object: "av_object_ok x \<Longrightarrow> av_object_ok x'"
  shows "\<exists>t. with_instance av_lens d n func s = Done (r, t) \<and>
    slot_of (av_manager t) = (slot_of (av_manager s))(n := Live x' ev') \<and>
    core_manager t = core_manager s \<and> pending t = None \<and> jvm_of t = jvm_of s \<and> world_ok makes t"
proof -
  let ?s = "av_locked n s"
  have m: "av.manager_ok s" "call_ready s" using world_ok_av [OF ok(1)] world_ok_call_ready [OF ok(2,3)] by simp_all
  have x: "av_object_ok x"
    using ok(1) live unfolding world_ok_def manager_safe_def objects_ok_def by blast
  have s: "log_ok ?s" "pending ?s = None"
    using ok(1,2) by (simp_all add: world_ok_def av_locked_def log_ok_def)
  from logs_onlyD [OF logs [OF x] s] obtain u where u: "func x ev ?s = Done ((r, x', ev'), u)" "log_step ?s u"
    unfolding wp_iff by blast
  have more: "av_manager u = lock_held n (av_manager s)" "core_manager u = core_manager s" "pending u = None"
    using managers_more [OF log_stepD(6) [OF u(2)]] log_stepD(4) [OF u(2)] s(2)
    by (simp_all add: av_locked_def)
  from av_with_instance_frame [where d = d and func = func, OF m live u(1) more(1)]
  obtain t where t: "with_instance av_lens d n func s = Done (r, t)"
    "slot_of (av_manager t) = (slot_of (av_manager s))(n := Live x' ev')"
    "av.manager_ok t" "t = u\<lparr>av_manager := av_manager t\<rparr>"
    by blast
  note same = t(4) [THEN arg_cong]
  have fields: "core_manager t = core_manager s" "pending t = None" "jvm_of t = jvm_of s"
      "func_names t = func_names s" "static_funcs t = static_funcs s" "jni_log_of t = jni_log_of u"
    using same [of core_manager] same [of pending] same [of jvm_of] same [of func_names] same [of static_funcs]
      same [of jni_log_of] more log_stepD(5,7,8) [OF u(2)]
    by (simp_all add: av_locked_def)
  have "objects_ok av_object_ok (av_manager t)"
    using ok(1) same_object [OF x] by (intro objects_ok_update [OF _ t(2)]) (simp_all add: world_ok_def manager_safe_def)
  moreover have "log_ok t" using log_stepD(1,7) [OF u(2)] fields by (simp add: log_ok_def av_locked_def)
  ultimately have "world_ok makes t"
    using ok(1) t(3) fields by (simp add: world_ok_def manager_safe_def registry_ok_def)
  with t(1,2) fields show ?thesis by auto
qed

lemma toxIterate_live:
  fixes s :: "('tox, 'av) world" and tox_iterate :: "'tox iterate_fun"
  assumes ok: "world_ok makes s" "pending s = None" "vm_ok (jvm_of s)"
    and live: "slot_of (core_manager s) n = Live x ev"
    and iter: "run_c tox_iterate (obj_state x) = (cs, st)" "\<forall>c \<in> set cs. valid_callback c"
    and out: "length (serialize (fold append_event cs ev)) < 2 ^ 31"
    and res: "hand_out serialize no_events (fold append_event cs ev) (x\<lparr>obj_state := st\<rparr>) = (r, x', ev')"
  shows "\<exists>t. toxIterate addr serialize tox_iterate n s = Done (r, t) \<and>
    slot_of (core_manager t) = (slot_of (core_manager s))(n := Live x' ev') \<and>
    av_manager t = av_manager s \<and> pending t = None \<and> jvm_of t = jvm_of s \<and> world_ok makes t"
  unfolding toxIterate_def
proof (rule core_logs_live [OF ok live])
  assume x: "core_object_ok x"
  show "core_object_ok x'" using x res by (auto simp: hand_out_def core_object_ok_def split: if_splits)
  show "logs_only (\<lambda>s. pending s = None) (with_log_entry
      (instance_log_entry_open n (addr_of tox_iterate) [Arg_tox (obj_addr x)]) (\<lambda>log_entry.
       andThen (print_result log_entry (\<lambda>_. Arg_void) (run_iterate addr tox_iterate x ev)) (\<lambda>(events, x).
         if length (serialize events) = 0 then ret (None, x, events)
         else andThen (toJavaArray (serialize events)) (\<lambda>arr. ret (arr, x, no_events)))))
    (\<lambda>q. q = (r, x', ev'))"
    unfolding res [symmetric]
    by (rule logs_only_iterate [where serialize = serialize, OF logs_only_run_iterate [OF x iter] out])
qed

lemma toxavIterate_live:
  fixes s :: "('tox, 'av) world" and toxav_iterate :: "'av av_iterate_fun"
  assumes ok: "world_ok makes s" "pending s = None" "vm_ok (jvm_of s)"
    and live: "slot_of (av_manager s) n = Live x ev"
    and iter: "run_c toxav_iterate (obj_state x) = (cs, st)" "\<forall>c \<in> set cs. valid_av_callback c"
    and out: "length (serialize (fold (append_av_event bits) cs ev)) < 2 ^ 31"
    and res: "hand_out serialize no_av_events (fold (append_av_event bits) cs ev) (x\<lparr>obj_state := st\<rparr>) = (r, x', ev')"
  shows "\<exists>t. toxavIterate bits addr serialize toxav_iterate n s = Done (r, t) \<and>
    slot_of (av_manager t) = (slot_of (av_manager s))(n := Live x' ev') \<and>
    core_manager t = core_manager s \<and> pending t = None \<and> jvm_of t = jvm_of s \<and> world_ok makes t"
  unfolding toxavIterate_def
proof (rule av_logs_live [OF ok live])
  assume x: "av_object_ok x"
  show "av_object_ok x'" using x res by (auto simp: hand_out_def av_object_ok_def split: if_splits)
  show "logs_only (\<lambda>s. pending s = None) (with_log_entry
      (instance_log_entry_open n (addr_of toxav_iterate) [Arg_toxav (obj_addr x)]) (\<lambda>log_entry.
       andThen (print_result log_entry (\<lambda>_. Arg_void) (run_av_iterate bits addr toxav_iterate x ev)) (\<lambda>(events, x).
         if length (serialize events) = 0 then ret (None, x, events)
         else andThen (toJavaArray (serialize events)) (\<lambda>arr. ret (arr, x, no_av_events)))))
    (\<lambda>q. q = (r, x', ev'))"
    unfolding res [symmetric]
    by (rule logs_only_iterate [where serialize = serialize, OF logs_only_run_av_iterate [OF x iter] out])
qed

section \<open>Invoke methods\<close>

lemma invoke_on_safe [safe_intros]:
  fixes callback :: "core_events \<Rightarrow> ('tox, 'av, core_events) native"
  assumes "\<And>ev. \<exists>ev'. yields (callback ev) ev'"
  shows "native_safe makes (invoke_on n callback)"
  unfolding invoke_on_def
proof (rule core_logs_safe)
  fix x :: "'tox tox" and ev
  assume x: "core_object_ok x"
  from assms obtain ev' where "yields (callback ev) ev'" by blast
  with x show "logs_only (\<lambda>s. pending s = None)
      (andThen (cassert ''tox != nullptr'' (obj_addr x \<noteq> 0)) (\<lambda>_.
       andThen (callback ev) (\<lambda>events. ret ((), x, events)))) (\<lambda>(b, x', ev'). core_object_ok x')"
    by (intro logs_only_yields [where a = "((), x, ev')"]) (auto intro!: yields_intros simp: core_object_ok_def)
qed

lemma av_invoke_on_safe [safe_intros]:
  fixes callback :: "av_events \<Rightarrow> ('tox, 'av, av_events) native"
  assumes "\<And>ev. \<exists>ev'. yields (callback ev) ev'"
  shows "native_safe makes (av_invoke_on n callback)"
  unfolding av_invoke_on_def
proof (rule av_logs_safe)
  fix x :: "'av toxav" and ev
  assume x: "av_object_ok x"
  from assms obtain ev' where "yields (callback ev) ev'" by blast
  with x show "logs_only (\<lambda>s. pending s = None)
      (andThen (cassert ''av != nullptr'' (obj_addr x \<noteq> 0)) (\<lambda>_.
       andThen (callback ev) (\<lambda>events. ret ((), x, events)))) (\<lambda>(b, x', ev'). av_object_ok x')"
    by (intro logs_only_yields [where a = "((), x, ev')"]) (auto intro!: yields_intros simp: av_object_ok_def)
qed

end
