(* ===== verification/Jni_Methods.thy ===== *)
theory Jni_Methods
  imports Safe_Methods
begin

text \<open>
  All native methods of the three JNI classes, each with what its arguments and the
  toxcore functions behind it must satisfy, and the theorem that every one of them is
  safe.
\<close>

section \<open>Arguments\<close>

definition valid_port :: "jint \<Rightarrow> bool" where
  "valid_port port \<longleftrightarrow> 0 \<le> sint port \<and> sint port \<le> 65535"

definition null_or :: "nat \<Rightarrow> uint8 jarray \<Rightarrow> bool" where
  "null_or n arr \<longleftrightarrow> arr = None \<or> array_len arr = n"

lemma null_or_assert [simp]: "null_or n arr \<Longrightarrow> arr = None \<or> array_len arr = n"
  by (simp add: null_or_def)

lemma null_or_at_least [simp]: "null_or n p \<Longrightarrow> at_least n p"
  by (cases p) (auto simp: null_or_def at_least_def)

lemma call_returnsI:
  assumes "\<And>st. \<exists>r e st' v b. f st = ret (r, e, st') \<and> yields (to_java r) v \<and>
      (code_result en e = SUCCESS \<longrightarrow> yields (success_func v) b)"
  shows "call_returns en to_java success_func f"
  unfolding call_returns_def
proof
  fix st
  from assms [of st] show "\<exists>r e st' v b. (\<forall>t. f st t = Done ((r, e, st'), t)) \<and>
      (\<forall>t. pending t = None \<longrightarrow> to_java r t = Done (v, t)) \<and>
      (code_result en e = SUCCESS \<longrightarrow> (\<forall>t. pending t = None \<longrightarrow> success_func v t = Done (b, t)))"
    unfolding yields_def
    by (elim exE) (rule exI, rule exI, rule exI, rule exI, rule exI, elim conjE, intro conjI; simp)
qed

text \<open>A local array that toxcore fills.\<close>

lemma call_returns_fill_local:
  assumes "\<And>st. length (snd (fst (g st))) \<le> length stack" and "length stack < 2 ^ 31"
  shows "call_returns en ret (\<lambda>(_, arr). toJavaArray arr) (fill_local stack g)"
proof (rule call_returnsI)
  fix st
  obtain b out e st' where g: "g st = ((b, out), e, st')" by (metis prod.collapse)
  let ?arr = "out @ drop (length out) stack"
  from assms(1) [of st] have out: "length out \<le> length stack" by (simp add: g)
  then have "fill_local stack g st = ret ((b, ?arr), e, st')"
    by (simp add: fill_local_def g fill_buffer_def fun_eq_iff)
  moreover have "yields (toJavaArray ?arr) (Some ?arr)"
    using out assms(2) by (intro yields_intros) simp
  ultimately show "\<exists>r e st' v c. fill_local stack g st = ret (r, e, st') \<and> yields (ret r) v \<and>
      (code_result en e = SUCCESS \<longrightarrow> yields ((\<lambda>(_, arr). toJavaArray arr) v) c)"
    by (intro exI conjI impI) (assumption, rule yields_ret, simp)
qed

section \<open>Safety by rewriting\<close>

text \<open>
  A conversion at the head of a method is replaced by its result, and a call path is safe
  when the exception classes exist and the function and the conversions return.
\<close>

named_theorems safe_simps \<open>rewrite rules for the safety of a native method\<close>

lemma safe_bind_eq: "yields m a \<Longrightarrow> native_safe makes (andThen m f) = native_safe makes (f a)"
  by (simp add: native_safe_def wp_iff yields_def andThen_def)

lemma safe_conversions [safe_simps]:
  "native_safe makes (andThen (fromJavaArray arr) f) = native_safe makes (f arr)"
  "native_safe makes (andThen (array_size arr') g) = native_safe makes (g (array_len arr'))"
  "native_safe makes (andThen (utf_chars str) h) = native_safe makes (h str)"
  by (intro safe_bind_eq yields_conversions)+

lemma safe_asserts [safe_simps]:
  "c \<Longrightarrow> native_safe makes (andThen (tox4j_assert l txt c) f) = native_safe makes (f ())"
  "c \<Longrightarrow> native_safe makes (andThen (cassert txt c) f) = native_safe makes (f ())"
  by (intro safe_bind_eq yields_assert; assumption)+

lemma safe_uint16 [safe_simps]:
  "valid_port port \<Longrightarrow> native_safe makes (andThen (assert_valid_uint16 port) f) = native_safe makes (f ())"
  by (intro safe_bind_eq yields_uint16) (simp_all add: valid_port_def)

lemmas safe_valueOf [safe_simps] = yields_valueOf [THEN safe_bind_eq]

lemma vm_ok_errors [safe_simps]:
  assumes "vm_ok vm"
  shows "vm_has_errors vm core_subsystem tox_err_bootstrap_enum"
    "vm_has_errors vm core_subsystem tox_err_file_control_enum"
    "vm_has_errors vm core_subsystem tox_err_file_get_enum"
    "vm_has_errors vm core_subsystem tox_err_file_seek_enum"
    "vm_has_errors vm core_subsystem tox_err_file_send_enum"
    "vm_has_errors vm core_subsystem tox_err_file_send_chunk_enum"
    "vm_has_errors vm core_subsystem tox_err_friend_add_enum"
    "vm_has_errors vm core_subsystem tox_err_friend_by_public_key_enum"
    "vm_has_errors vm core_subsystem tox_err_friend_custom_packet_enum"
    "vm_has_errors vm core_subsystem tox_err_friend_delete_enum"
    "vm_has_errors vm core_subsystem tox_err_friend_get_public_key_enum"
    "vm_has_errors vm core_subsystem tox_err_friend_send_message_enum"
    "vm_has_errors vm core_subsystem tox_err_get_port_enum"
    "vm_has_errors vm core_subsystem tox_err_new_enum"
    "vm_has_errors vm core_subsystem tox_err_set_info_enum"
    "vm_has_errors vm core_subsystem tox_err_set_typing_enum"
    "vm_has_errors vm av_subsystem toxav_err_answer_enum"
    "vm_has_errors vm av_subsystem toxav_err_bit_rate_set_enum"
    "vm_has_errors vm av_subsystem toxav_err_call_control_enum"
    "vm_has_errors vm av_subsystem toxav_err_call_enum"
    "vm_has_errors vm av_subsystem toxav_err_new_enum"
    "vm_has_errors vm av_subsystem toxav_err_send_frame_enum"
    "vm_has_errors vm crypto_subsystem tox_err_decryption_enum"
    "vm_has_errors vm crypto_subsystem tox_err_encryption_enum"
    "vm_has_errors vm crypto_subsystem tox_err_get_salt_enum"
    "vm_has_errors vm crypto_subsystem tox_err_key_derivation_enum"
  using assms by (simp_all add: vm_ok_def)

lemma core_err_ret_safe [safe_simps]:
  fixes g :: "'tox \<Rightarrow> 'r \<times> 'e \<times> 'tox" and success_func :: "'r \<Rightarrow> ('tox, 'av, 'b) native"
  assumes "\<forall>vm. vm_ok vm \<longrightarrow> vm_has_errors vm core_subsystem en"
    and "\<forall>r. \<exists>b. yields (success_func r) b"
  shows "native_safe makes (with_instance_err core_class en show_result ret d success_func n addr args
    (on_state (\<lambda>st. ret (g st))))"
  using assms by (intro core_err_safe call_returns_ret) auto

lemma av_err_ret_safe [safe_simps]:
  fixes g :: "'av \<Rightarrow> 'r \<times> 'e \<times> 'av" and success_func :: "'r \<Rightarrow> ('tox, 'av, 'b) native"
  assumes "\<forall>vm. vm_ok vm \<longrightarrow> vm_has_errors vm av_subsystem en"
    and "\<forall>r. \<exists>b. yields (success_func r) b"
  shows "native_safe makes (with_instance_err av_class en show_result ret d success_func n addr args
    (on_state (\<lambda>st. ret (g st))))"
  using assms by (intro av_err_safe call_returns_ret) auto

lemma yields_some [safe_simps]: "\<exists>b. yields (ret a) b"
  by (intro exI) (rule yields_ret)

lemma core_noerr_ret_safe [safe_simps]:
  fixes g :: "'tox \<Rightarrow> 'r \<times> 'tox" and to_java :: "'r \<Rightarrow> ('tox, 'av, 'b) native"
  assumes "\<forall>r. \<exists>b. yields (to_java r) b"
  shows "native_safe makes (with_instance_noerr core_class show_result to_java d n addr args
    (on_state_noerr (\<lambda>st. ret (g st))))"
  using assms by (intro core_noerr_safe noerr_returns_pure) auto

lemma av_noerr_ret_safe [safe_simps]:
  fixes g :: "'av \<Rightarrow> 'r \<times> 'av" and to_java :: "'r \<Rightarrow> ('tox, 'av, 'b) native"
  assumes "\<forall>r. \<exists>b. yields (to_java r) b"
  shows "native_safe makes (with_instance_noerr av_class show_result to_java d n addr args
    (on_state_noerr (\<lambda>st. ret (g st))))"
  using assms by (intro av_noerr_safe noerr_returns_pure) auto

lemmas with_instance_ign_safe [safe_simps] = with_instance_ign_def

section \<open>Methods of ToxCoreJni\<close>

lemma get_bytes_safe [safe_simps]:
  fixes g :: "('tox, uint8) vector_getter"
  assumes "vector_ok makes g"
  shows "native_safe makes (get_bytes g n :: ('tox, 'av, uint8 jarray) native)"
  unfolding get_bytes_def by (intro core_noerr_safe noerr_returns_vector assms)

lemma toxSelfGetFriendList_safe [safe_simps]:
  fixes g :: "('tox, jint) vector_getter"
  assumes "vector_ok makes g"
  shows "native_safe makes (toxSelfGetFriendList g n :: ('tox, 'av, jint jarray) native)"
  unfolding toxSelfGetFriendList_def by (intro core_noerr_safe noerr_returns_vector assms)

text \<open>A scope that calls back: the callback returns.\<close>

definition returns :: "('z jenv_scheme, 'a) prog \<Rightarrow> bool" where
  "returns m \<longleftrightarrow> (\<exists>r. yields m r)"

lemma returns_bind_eq: "yields m a \<Longrightarrow> returns (andThen m f) = returns (f a)"
  by (simp add: returns_def yields_def andThen_def)

lemma returns_ret [safe_simps]: "returns (ret a)"
  by (auto simp: returns_def intro: yields_ret)

lemma returns_conversions [safe_simps]:
  "returns (andThen (fromJavaArray arr) f) = returns (f arr)"
  "returns (andThen (array_size arr') g) = returns (g (array_len arr'))"
  by (intro returns_bind_eq yields_conversions)+

lemmas returns_valueOf [safe_simps] = yields_valueOf [THEN returns_bind_eq]

lemma invoke_safe [safe_simps]:
  fixes callback :: "core_events \<Rightarrow> ('tox, 'av, core_events) native"
    and av_callback :: "av_events \<Rightarrow> ('tox, 'av, av_events) native"
  shows "\<forall>ev. returns (callback ev) \<Longrightarrow> native_safe makes (invoke_on n callback)"
    and "\<forall>ev. returns (av_callback ev) \<Longrightarrow> native_safe makes (av_invoke_on n av_callback)"
  by (intro invoke_on_safe av_invoke_on_safe; auto simp: returns_def)+

lemma valid_array [safe_simps]: "valid_data arr (array_len arr)"
  by (cases arr) simp_all

lemma valid_key [safe_simps]: "null_or n arr \<Longrightarrow> arr \<noteq> None \<Longrightarrow> valid_data arr n"
  by (auto simp: null_or_def)

lemma returns_callback: "valid_callback cb \<Longrightarrow> returns (run_callback cb ev)"
  unfolding returns_def yields_def by (intro exI allI impI) (rule run_callback_eq)

lemma returns_av_callback: "valid_av_callback cb \<Longrightarrow> returns (run_av_callback bits cb ev)"
  unfolding returns_def yields_def by (intro exI allI impI) (rule run_av_callback_eq)

lemma local_array_safe:
  fixes g :: "uint32 \<Rightarrow> ('tox, bool \<times> uint8 list, TOX_ERR_FRIEND_GET_PUBLIC_KEY) tox_err"
    and h :: "uint32 \<Rightarrow> uint32 \<Rightarrow> ('tox, bool \<times> uint8 list, TOX_ERR_FILE_GET) tox_err"
  assumes "length stack = 32"
  shows "(\<And>fn st. length (snd (fst (g fn st))) \<le> 32) \<Longrightarrow>
      native_safe makes (toxFriendGetPublicKey stack (a, g) n fn :: ('tox, 'av, uint8 jarray) native)"
    and "(\<And>fn file st. length (snd (fst (h fn file st))) \<le> 32) \<Longrightarrow>
      native_safe makes (toxFileGetFileId stack (a, h) n fn file :: ('tox, 'av, uint8 jarray) native)"
  unfolding toxFriendGetPublicKey_def toxFileGetFileId_def using assms
  by (intro core_err_safe call_returns_fill_local; simp add: safe_simps)+

lemma thrown_codes [safe_simps]:
  "code_result tox_err_new_enum TOX_ERR_NEW_MALLOC = FAILURE"
  "code_result toxav_err_send_frame_enum TOXAV_ERR_SEND_FRAME_INVALID = FAILURE"
  by (simp_all add: tox_err_new_enum_def toxav_err_send_frame_enum_def handling_defs)

lemma toxNew_safe:
  fixes tox_new :: "'tox tox_new_fun"
  assumes "unat proxyType < 3" and "proxyType \<noteq> 0 \<Longrightarrow> valid_port proxyPort"
    and "valid_port startPort" and "valid_port endPort" and "valid_port tcpPort"
    and "unat saveDataType < 3"
    and new: "\<And>opts. case run_c tox_new opts of (p, e) \<Rightarrow> new_ok tox_err_new_enum p e"
  shows "native_safe makes (toxNew avail tox_new ipv6 udp discovery proxyType host proxyPort startPort
    endPort tcpPort saveDataType saveData :: ('tox, 'av, jint) native)"
proof (cases avail)
  case False
  then show ?thesis unfolding toxNew_def
    by simp (intro safe_return throw_safe; simp add: safe_simps)
next
  case True
  have none: "consts_TOX_PROXY_TYPE ! unat proxyType \<noteq> TOX_PROXY_TYPE_NONE \<Longrightarrow> proxyType \<noteq> 0"
    by (auto simp: consts_TOX_PROXY_TYPE_def)
  have port: "native_safe makes (andThen
      (if consts_TOX_PROXY_TYPE ! unat proxyType \<noteq> TOX_PROXY_TYPE_NONE
       then assert_valid_uint16 proxyPort else ret ()) f) = native_safe makes (f ())"
    for f :: "unit \<Rightarrow> ('tox, 'av, jint) native"
    using none assms(2) by (auto simp: safe_simps)
  have call: "native_safe makes (andThen (with_error_handling_new core_subsystem tox_err_new_enum
        (\<lambda>p. Arg_tox (show_pointer p)) (\<lambda>p. ret (new_object_of p)) 0 toxNew_success
        (addr_of tox_new) args (ret (case run_c tox_new opts of (p, error) \<Rightarrow> (p, error, ()))))
      (\<lambda>(n, _). ret n) :: ('tox, 'av, jint) native)" for opts args
    using new [of opts] by (intro safe_return) (auto split: prod.split intro: toxNew_call_safe [OF _ refl])
  from True assms show ?thesis
    unfolding toxNew_def toxNew_options_def
    by (simp add: andThen_assoc safe_simps port del: ret_apply) (rule call)
qed

end
