(* ===== verification/Av_Frames.thy ===== *)
theory Av_Frames
  imports Jni_Methods
begin

text \<open>
  The methods that move audio and video frames: the sizes that the code computes at 32 and
  64 bits are the mathematical ones under the bounds stated here, and the methods are safe.
\<close>

section \<open>Sizes\<close>

lemma uint_nonneg:
  fixes a :: jint
  assumes "0 \<le> sint a"
  shows "uint a = sint a" and "unat a = nat (sint a)"
proof -
  have "sint a < 2 ^ 31" using sint_lt [of a] by simp
  moreover have "uint a = take_bit 32 (sint a)" by (simp add: uint_sint)
  ultimately show "uint a = sint a" using assms by (simp add: take_bit_int_eq_self)
  then show "unat a = nat (sint a)" by (simp add: unat_eq_nat_uint)
qed

lemma sint_word_of_int: "- (2 ^ 31) \<le> p \<Longrightarrow> p < 2 ^ 31 \<Longrightarrow> sint (word_of_int p :: jint) = p"
  by (simp add: signed_of_int signed_take_bit_int_eq_self)

lemma uint_to_size_t:
  assumes "0 \<le> sint a"
  shows "uint (to_size_t a) = sint a"
proof -
  have "sint a < 2 ^ 64" using sint_lt [of a] by simp
  with assms show ?thesis
    unfolding to_size_t_def scast_eq
    by (simp only: uint_word_of_int_eq len_num1 len_bit0 len_of_numeral_defs take_bit_int_eq_self)
      (simp add: take_bit_int_eq_self)
qed

lemma uint_size_nat: "n < 2 ^ 64 \<Longrightarrow> uint (word_of_nat n :: uint64) = int n"
  by (simp add: unsigned_of_nat take_bit_nat_eq_self)

lemma to_size_t_nat:
  assumes "0 \<le> sint a"
  shows "to_size_t a = word_of_nat (nat (sint a))"
proof (rule word_uint_eq_iff [THEN iffD2])
  have "nat (sint a) < 2 ^ 64" using sint_lt [of a] by simp
  with assms show "uint (to_size_t a) = uint (word_of_nat (nat (sint a)) :: uint64)"
    by (simp only: uint_size_nat uint_to_size_t)
qed

lemma size_eq_iff:
  assumes "0 \<le> sint a" and "n < 2 ^ 31"
  shows "word_of_nat n = to_size_t a \<longleftrightarrow> int n = sint a"
proof -
  have "word_of_nat n = to_size_t a \<longleftrightarrow> uint (word_of_nat n :: uint64) = uint (to_size_t a)"
    by (rule word_uint_eq_iff)
  also have "\<dots> \<longleftrightarrow> int n = sint a" using assms by (subst uint_size_nat) (simp_all add: uint_to_size_t)
  finally show ?thesis .
qed

lemma int_mult_ret:
  assumes "0 \<le> sint a" and "0 \<le> sint b" and "sint a * sint b < 2 ^ 31"
  shows "int_mult a b = ret (word_of_int (sint a * sint b))"
  using assms by (simp add: int_mult_def Let_def order_trans [of _ 0])

lemma sint_int_half: "0 \<le> sint a \<Longrightarrow> sint (int_half a) = sint a div 2"
proof -
  assume a: "0 \<le> sint a"
  have "sint a < 2 ^ 31" using sint_lt [of a] by simp
  with a have "sint a div 2 < 2 ^ 31" "0 \<le> sint a div 2" by simp_all
  then have "sint (word_of_int (sint a div 2) :: jint) = sint a div 2" by (intro sint_word_of_int) simp_all
  moreover from a have "sint a sdiv 2 = sint a div 2"
    by (cases "sint a = 0") (simp_all add: signed_divide_int_def)
  ultimately show ?thesis by (simp add: int_half_def)
qed

lemma array_size_iff:
  assumes "0 \<le> sint a" and "0 \<le> sint b" and "sint a * sint b < 2 ^ 31" and "java_array p"
  shows "word_of_nat (array_len p) = to_size_t (word_of_int (sint a * sint b)) \<longleftrightarrow>
     array_len p = nat (sint a) * nat (sint b)"
proof -
  have nonneg: "0 \<le> sint a * sint b" using assms by simp
  have p: "sint (word_of_int (sint a * sint b) :: jint) = sint a * sint b"
    using assms order_trans [OF _ nonneg] by (intro sint_word_of_int) simp_all
  have "word_of_nat (array_len p) = to_size_t (word_of_int (sint a * sint b)) \<longleftrightarrow>
      int (array_len p) = sint a * sint b"
    using assms nonneg by (subst size_eq_iff) (simp_all only: p, simp_all add: java_array_def)
  also have "\<dots> \<longleftrightarrow> array_len p = nat (sint a * sint b)" using nonneg by linarith
  finally show ?thesis using assms by (simp add: nat_mult_distrib)
qed

section \<open>Frames to send\<close>

definition audio_frame_ok :: "jshort jarray \<Rightarrow> jint \<Rightarrow> jint \<Rightarrow> jint \<Rightarrow> bool" where
  "audio_frame_ok pcm sampleCount channels samplingRate \<longleftrightarrow>
     0 \<le> sint sampleCount \<and> 0 \<le> sint channels \<and> sint channels \<le> 255 \<and> 0 \<le> sint samplingRate \<and>
     sint sampleCount * sint channels < 2 ^ 31 \<and> java_array pcm"

lemma ucast_channels:
  fixes c :: jint
  assumes "0 \<le> sint c" and "sint c \<le> 255"
  shows "uint (ucast c :: uint8) = sint c" and "unat (ucast c :: uint8) = nat (sint c)"
proof -
  have "uint (ucast c :: uint8) = uint c mod 256" by (simp add: unsigned_ucast_eq take_bit_eq_mod)
  with assms show "uint (ucast c :: uint8) = sint c" by (simp add: uint_nonneg)
  then show "unat (ucast c :: uint8) = nat (sint c)" by (simp only: unat_eq_nat_uint)
qed

lemma uint_widened: "uint (ucast (w :: uint8) :: uint64) = uint w"
  by (rule uint_up_ucast) (simp add: is_up)

lemma at_least_len: "array_len p = n \<Longrightarrow> at_least n p"
  by (cases p) (simp_all add: at_least_def)

text \<open>
  What \<open>toxav_audio_send_frame\<close> and \<open>toxav_video_send_frame\<close> document: they read the samples and
  planes that their other arguments announce, and no more.
\<close>

definition reads_samples ::
  "(uint32 \<Rightarrow> samples \<Rightarrow> nat \<Rightarrow> uint8 \<Rightarrow> uint32 \<Rightarrow> ('av, bool, TOXAV_ERR_SEND_FRAME) tox_ptr) \<Rightarrow> bool" where
  "reads_samples f \<longleftrightarrow> (\<forall>fn p k c r av. at_least (k * unat c) p \<longrightarrow> in_bounds (f fn p k c r av))"

definition reads_planes ::
  "(uint32 \<Rightarrow> uint16 \<Rightarrow> uint16 \<Rightarrow> pointer \<Rightarrow> pointer \<Rightarrow> pointer \<Rightarrow>
      ('av, bool, TOXAV_ERR_SEND_FRAME) tox_ptr) \<Rightarrow> bool" where
  "reads_planes f \<longleftrightarrow> (\<forall>fn w h y u v av.
     at_least (unat w * unat h) y \<longrightarrow> at_least (unat w div 2 * (unat h div 2)) u \<longrightarrow>
     at_least (unat w div 2 * (unat h div 2)) v \<longrightarrow> in_bounds (f fn w h y u v av))"

lemma toxavAudioSendFrame_safe:
  fixes f :: "(uint32 \<Rightarrow> samples \<Rightarrow> nat \<Rightarrow> uint8 \<Rightarrow> uint32 \<Rightarrow> ('av, bool, TOXAV_ERR_SEND_FRAME) tox_ptr) cfun"
  assumes ok: "audio_frame_ok pcm sampleCount channels samplingRate" and f: "reads_samples (run_c f)"
  shows "native_safe makes (toxavAudioSendFrame f n fn pcm sampleCount channels samplingRate
    :: ('tox, 'av, unit) native)"
proof -
  have dims: "0 \<le> sint sampleCount" "0 \<le> sint channels" "sint sampleCount * sint channels < 2 ^ 31"
    and "java_array pcm" "sint channels \<le> 255"
    using ok by (simp_all add: audio_frame_ok_def)
  define a :: jint where "a = word_of_int (sint sampleCount * sint channels)"
  note mult = int_mult_ret [OF dims, folded a_def]
  note size_iff = array_size_iff [OF dims \<open>java_array pcm\<close>, folded a_def]
  have count: "unat sampleCount * unat (ucast channels :: uint8) = nat (sint sampleCount) * nat (sint channels)"
    using dims \<open>sint channels \<le> 255\<close> by (simp add: uint_nonneg ucast_channels)
  show ?thesis
  proof (cases "array_len pcm = nat (sint sampleCount) * nat (sint channels)")
    case True
    have "at_least (unat sampleCount * unat (ucast channels :: uint8)) pcm"
      by (rule at_least_len) (simp only: True count)
    with f have "in_bounds (run_c f fn pcm (unat sampleCount) (ucast channels) samplingRate av)" for av
      by (simp add: reads_samples_def)
    note samples = call_c_in_bounds [OF this]
    from True size_iff have "word_of_nat (array_len pcm) = to_size_t a" by blast
    with ok show ?thesis
      unfolding toxavAudioSendFrame_def
      by (simp add: safe_simps audio_frame_ok_def mult samples del: ret_apply)
  next
    case False
    with size_iff have "word_of_nat (array_len pcm) \<noteq> to_size_t a" by blast
    with ok show ?thesis
      unfolding toxavAudioSendFrame_def
      by (simp add: safe_simps audio_frame_ok_def mult throw_safe del: ret_apply)
  qed
qed

definition video_frame_ok ::
  "jint \<Rightarrow> jint \<Rightarrow> uint8 jarray \<Rightarrow> uint8 jarray \<Rightarrow> uint8 jarray \<Rightarrow> bool" where
  "video_frame_ok width height y u v \<longleftrightarrow>
     0 \<le> sint width \<and> sint width \<le> 65535 \<and> 0 \<le> sint height \<and> sint height \<le> 65535 \<and>
     sint width * sint height < 2 ^ 31 \<and> java_array y \<and> java_array u \<and> java_array v"

lemma unat_ucast_dimension:
  fixes c :: jint
  assumes "0 \<le> sint c" and "sint c \<le> 65535"
  shows "unat (ucast c :: uint16) = nat (sint c)"
proof -
  have "uint (ucast c :: uint16) = uint c mod 65536" by (simp add: unsigned_ucast_eq take_bit_eq_mod)
  with assms show ?thesis by (simp add: uint_nonneg unat_eq_nat_uint)
qed

lemma toxavVideoSendFrame_safe:
  fixes f :: "(uint32 \<Rightarrow> uint16 \<Rightarrow> uint16 \<Rightarrow> pointer \<Rightarrow> pointer \<Rightarrow> pointer \<Rightarrow>
      ('av, bool, TOXAV_ERR_SEND_FRAME) tox_ptr) cfun"
  assumes ok: "video_frame_ok width height y u v" and f: "reads_planes (run_c f)"
  shows "native_safe makes (toxavVideoSendFrame f n fn width height y u v :: ('tox, 'av, unit) native)"
proof -
  let ?w = "int_half width" and ?h = "int_half height"
  have dims: "0 \<le> sint width" "0 \<le> sint height" "sint width * sint height < 2 ^ 31"
    and arrays: "java_array y" "java_array u" "java_array v"
    and small: "sint width \<le> 65535" "sint height \<le> 65535"
    using ok by (simp_all add: video_frame_ok_def)
  have half: "sint ?w = sint width div 2" "sint ?h = sint height div 2"
    using dims by (simp_all add: sint_int_half)
  have "(sint width div 2) * (sint height div 2) \<le> sint width * sint height"
    using dims by (intro mult_mono) simp_all
  then have halves: "0 \<le> sint ?w" "0 \<le> sint ?h" "sint ?w * sint ?h < 2 ^ 31"
    using dims by (simp_all add: half)
  define a b :: jint where "a = word_of_int (sint width * sint height)"
    and "b = word_of_int (sint ?w * sint ?h)"
  note mult = int_mult_ret [OF dims, folded a_def] int_mult_ret [OF halves, folded b_def]
  note iffs = array_size_iff [OF dims arrays(1), folded a_def]
    array_size_iff [OF halves arrays(2), folded b_def] array_size_iff [OF halves arrays(3), folded b_def]
  have nats: "nat (sint ?w) = nat (sint width) div 2" "nat (sint ?h) = nat (sint height) div 2"
    by (simp_all add: half nat_div_distrib)
  have words: "unat (ucast width :: uint16) = nat (sint width)"
    "unat (ucast height :: uint16) = nat (sint height)"
    using dims small by (simp_all add: unat_ucast_dimension)
  show ?thesis
  proof (cases "array_len y = nat (sint width) * nat (sint height) \<and>
      array_len u = nat (sint ?w) * nat (sint ?h) \<and> array_len v = nat (sint ?w) * nat (sint ?h)")
    case True
    then have "at_least (unat (ucast width :: uint16) * unat (ucast height :: uint16)) y"
      "at_least (unat (ucast width :: uint16) div 2 * (unat (ucast height :: uint16) div 2)) u"
      "at_least (unat (ucast width :: uint16) div 2 * (unat (ucast height :: uint16) div 2)) v"
      by (simp_all add: at_least_len words nats)
    with f have "in_bounds (run_c f fn (ucast width) (ucast height) y u v av)" for av
      unfolding reads_planes_def by blast
    note planes = call_c_in_bounds [OF this]
    from True iffs have "word_of_nat (array_len y) = to_size_t a"
      "word_of_nat (array_len u) = to_size_t b" "word_of_nat (array_len v) = to_size_t b" by blast+
    then show ?thesis
      unfolding toxavVideoSendFrame_def
      by (simp add: safe_simps mult planes del: ret_apply)
  next
    case False
    with iffs have "\<not> (word_of_nat (array_len y) = to_size_t a \<and>
      word_of_nat (array_len u) = to_size_t b \<and> word_of_nat (array_len v) = to_size_t b)" by blast
    then show ?thesis
      unfolding toxavVideoSendFrame_def
      by (auto simp add: safe_simps mult throw_safe del: ret_apply)
  qed
qed

section \<open>Frames received\<close>

definition audio_event_ok :: "jshort jarray \<Rightarrow> jint \<Rightarrow> bool" where
  "audio_event_ok pcm channels \<longleftrightarrow>
     1 \<le> sint channels \<and> sint channels \<le> 255 \<and> java_array pcm \<and>
     array_len pcm mod nat (sint channels) = 0"

lemma returns_asserts [safe_simps]:
  "c \<Longrightarrow> returns (andThen (tox4j_assert l txt c) f) = returns (f ())"
  by (intro returns_bind_eq yields_assert)

lemma audio_sizes:
  assumes "audio_event_ok pcm channels"
  shows "to_size_t channels \<noteq> 0"
    and "(word_of_nat (array_len pcm) :: uint64) mod to_size_t channels = 0"
    and "(word_of_nat (array_len pcm) :: uint64) div to_size_t channels * ucast (ucast channels :: uint8) =
         word_of_nat (array_len pcm)"
proof -
  let ?n = "array_len pcm"
  from assms have c: "1 \<le> sint channels" "sint channels \<le> 255" "?n < 2 ^ 31" "?n mod nat (sint channels) = 0"
    by (simp_all add: audio_event_ok_def java_array_def)
  then have u: "uint (to_size_t channels) = sint channels" by (intro uint_to_size_t) simp
  with c(1) show nz: "to_size_t channels \<noteq> 0" by auto
  have "int ?n mod sint channels = int (?n mod nat (sint channels))" using c(1) by (simp add: zmod_int)
  with c(4) have "int ?n mod sint channels = 0" by simp
  then have "uint ((word_of_nat ?n :: uint64) mod to_size_t channels) = 0"
    using c(3) by (simp add: uint_mod uint_size_nat u)
  then show mod0: "(word_of_nat ?n :: uint64) mod to_size_t channels = 0" by (simp add: unsigned_eq_0_iff)
  have "uint (ucast channels :: uint8) = sint channels"
    using c(1,2) by (intro ucast_channels) simp_all
  then have "uint (ucast (ucast channels :: uint8) :: uint64) = sint channels"
    by (simp only: uint_widened)
  with u have "(ucast (ucast channels :: uint8) :: uint64) = to_size_t channels"
    by (simp add: word_uint_eq_iff)
  then show "(word_of_nat ?n :: uint64) div to_size_t channels * ucast (ucast channels :: uint8) = word_of_nat ?n"
    using div_mult_mod_eq [of "word_of_nat ?n :: uint64" "to_size_t channels"] mod0 by simp
qed

lemma sample_range_array:
  assumes "java_array pcm"
  shows "sample_range pcm (word_of_nat (array_len pcm)) = ret (case pcm of None \<Rightarrow> [] | Some xs \<Rightarrow> xs)"
proof -
  have "unat (word_of_nat (array_len pcm) :: uint64) = array_len pcm"
    using assms by (simp add: java_array_def unat_eq_nat_uint uint_size_nat)
  then show ?thesis by (cases pcm) (simp_all add: sample_range_def)
qed

lemma invokeAudioReceiveFrame_safe:
  fixes makes :: "uintptr set"
  assumes "audio_event_ok pcm channels"
  shows "native_safe makes (invokeAudioReceiveFrame n fn pcm channels rate :: ('tox, 'av, unit) native)"
proof -
  have "returns (tox4j_audio_receive_frame_cb fn pcm
      (word_of_nat (array_len pcm) div to_size_t channels) (ucast channels) rate ev
        :: ('tox, 'av, av_events) native)" for ev
    using assms audio_sizes(3) [OF assms]
    by (simp add: tox4j_audio_receive_frame_cb_def audio_event_ok_def sample_range_array
        returns_def yields_def andThen_def shorts.to_bytes_eq)
  with audio_sizes(1,2) [OF assms] show ?thesis
    unfolding invokeAudioReceiveFrame_def by (simp add: safe_simps del: ret_apply)
qed

definition video_event_ok ::
  "jint \<Rightarrow> jint \<Rightarrow> uint8 jarray \<Rightarrow> uint8 jarray \<Rightarrow> uint8 jarray \<Rightarrow> jint \<Rightarrow> jint \<Rightarrow> jint \<Rightarrow> bool" where
  "video_event_ok width height y u v ys us vs \<longleftrightarrow>
     0 \<le> sint width \<and> sint width \<le> 65535 \<and> 0 \<le> sint height \<and> sint height \<le> 65535 \<and>
     (sint ys < 0) = (sint us < 0) \<and> (sint ys < 0) = (sint vs < 0) \<and>
     sint ys \<noteq> - (2 ^ 31) \<and> sint us \<noteq> - (2 ^ 31) \<and> sint vs \<noteq> - (2 ^ 31) \<and>
     java_array y \<and> java_array u \<and> java_array v \<and>
     array_len y = plane_size (nat (sint width)) (nat (sint height)) ys \<and>
     array_len u = plane_size (nat (sint width) div 2) (nat (sint height) div 2) us \<and>
     array_len v = plane_size (nat (sint width) div 2) (nat (sint height) div 2) vs"

lemma max_size:
  "m < 2 ^ 64 \<Longrightarrow> n < 2 ^ 64 \<Longrightarrow>
   max (word_of_nat m) (word_of_nat n) = (word_of_nat (max m n) :: uint64)"
  by (simp add: max_def word_le_def uint_size_nat)

lemma plane_bytes_ret:
  assumes "0 \<le> sint w" and "0 \<le> sint h" and "sint stride \<noteq> - (2 ^ 31)"
  shows "plane_bytes w h stride = ret (word_of_nat (plane_size (nat (sint w)) (nat (sint h)) stride))"
proof -
  let ?a = "nat \<bar>sint stride\<bar>"
  have w: "to_size_t w = word_of_nat (nat (sint w))" and h: "to_size_t h = word_of_nat (nat (sint h))"
    using assms by (simp_all add: to_size_t_nat)
  have "nat (sint w) < 2 ^ 64" "?a < 2 ^ 64"
    using sint_lt [of w] sint_lt [of stride] sint_ge [of stride] by simp_all
  then have "max (word_of_nat (nat (sint w)) :: uint64) (word_of_nat ?a) = word_of_nat (max (nat (sint w)) ?a)"
    by (rule max_size)
  with assms(3) show ?thesis
    by (simp add: plane_bytes_def abs_int_def w h del: ret_apply)
qed

lemma invokeVideoReceiveFrame_safe:
  fixes makes :: "uintptr set"
  assumes ok: "video_event_ok width height y u v ys us vs"
  shows "native_safe makes (invokeVideoReceiveFrame n fn width height y u v ys us vs
    :: ('tox, 'av, unit) native)"
proof -
  have dims: "0 \<le> sint width" "0 \<le> sint height" "sint width \<le> 65535" "sint height \<le> 65535"
    and strides: "sint ys \<noteq> - (2 ^ 31)" "sint us \<noteq> - (2 ^ 31)" "sint vs \<noteq> - (2 ^ 31)"
    using ok unfolding video_event_ok_def by blast+
  have half: "sint (int_half width) = sint width div 2" "sint (int_half height) = sint height div 2"
    using dims by (simp_all add: sint_int_half)
  have sizes: "plane_size (nat (sint width)) (nat (sint height)) ys = array_len y"
    "plane_size (nat (sint (int_half width))) (nat (sint (int_half height))) us = array_len u"
    "plane_size (nat (sint (int_half width))) (nat (sint (int_half height))) vs = array_len v"
    using ok by (simp_all add: video_event_ok_def half nat_div_distrib)
  have "0 \<le> sint (int_half width)" "0 \<le> sint (int_half height)" using dims by (simp_all add: half)
  note planes = plane_bytes_ret [OF dims(1,2) strides(1), unfolded sizes(1)]
    plane_bytes_ret [OF this strides(2), unfolded sizes(2)]
    plane_bytes_ret [OF this strides(3), unfolded sizes(3)]
  have words: "unat (ucast width :: uint16) = nat (sint width)"
    "unat (ucast height :: uint16) = nat (sint height)"
    using dims by (simp_all add: unat_ucast_dimension)
  have "valid_av_callback (Cb_video_receive_frame fn (ucast width) (ucast height) y u v ys us vs)"
    using ok valid_array [of y] valid_array [of u] valid_array [of v]
    by (simp add: video_event_ok_def words) blast
  note cb = returns_av_callback [OF this, unfolded run_av_callback.simps]
  show ?thesis
    unfolding invokeVideoReceiveFrame_def
    by (simp add: safe_simps planes cb del: ret_apply)
qed

end
