(* ===== verification/Static_Init.thy ===== *)
theory Static_Init
  imports World
begin

text \<open>
  What runs before any native method: the tables of native methods, the static registrations of
  \<open>ToxCore/lifecycle.cpp\<close> and
  \<open>ToxAv/lifecycle.cpp\<close> in the table of function names, and \<open>JNI_OnLoad\<close>. The addresses that
  the linker gives to the C symbols are a parameter.
\<close>

section \<open>The registered functions\<close>

text \<open>
  \<open>generated/natives.h\<close>: native methods and the C names that belong to them, a line
  \<open>JAVA_METHOD_REF\<close> and a line \<open>CXX_FUNCTION_REF\<close> for each.
\<close>

definition core_refs :: "(string \<times> string) list" where
  "core_refs = [
    (''toxAddTcpRelay'', ''tox_add_tcp_relay''),
    (''toxBootstrap'', ''tox_bootstrap''),
    (''toxFileControl'', ''tox_file_control''),
    (''toxFileGetFileId'', ''tox_file_get_file_id''),
    (''toxFileSeek'', ''tox_file_seek''),
    (''toxFileSend'', ''tox_file_send''),
    (''toxFileSendChunk'', ''tox_file_send_chunk''),
    (''toxFinalize'', ''tox_finalize''),
    (''toxFriendAdd'', ''tox_friend_add''),
    (''toxFriendAddNorequest'', ''tox_friend_add_norequest''),
    (''toxFriendByPublicKey'', ''tox_friend_by_public_key''),
    (''toxFriendDelete'', ''tox_friend_delete''),
    (''toxFriendExists'', ''tox_friend_exists''),
    (''toxFriendGetPublicKey'', ''tox_friend_get_public_key''),
    (''toxFriendSendLosslessPacket'', ''tox_friend_send_lossless_packet''),
    (''toxFriendSendLossyPacket'', ''tox_friend_send_lossy_packet''),
    (''toxFriendSendMessage'', ''tox_friend_send_message''),
    (''toxGetSavedata'', ''tox_get_savedata''),
    (''toxIterate'', ''tox_iterate''),
    (''toxIterationInterval'', ''tox_iteration_interval''),
    (''toxKill'', ''tox_kill''),
    (''toxNew'', ''tox_new''),
    (''toxSelfGetAddress'', ''tox_self_get_address''),
    (''toxSelfGetDhtId'', ''tox_self_get_dht_id''),
    (''toxSelfGetFriendList'', ''tox_self_get_friend_list''),
    (''toxSelfGetName'', ''tox_self_get_name''),
    (''toxSelfGetNospam'', ''tox_self_get_nospam''),
    (''toxSelfGetPublicKey'', ''tox_self_get_public_key''),
    (''toxSelfGetSecretKey'', ''tox_self_get_secret_key''),
    (''toxSelfGetStatus'', ''tox_self_get_status''),
    (''toxSelfGetStatusMessage'', ''tox_self_get_status_message''),
    (''toxSelfGetTcpPort'', ''tox_self_get_tcp_port''),
    (''toxSelfGetUdpPort'', ''tox_self_get_udp_port''),
    (''toxSelfSetName'', ''tox_self_set_name''),
    (''toxSelfSetNospam'', ''tox_self_set_nospam''),
    (''toxSelfSetStatus'', ''tox_self_set_status''),
    (''toxSelfSetStatusMessage'', ''tox_self_set_status_message''),
    (''toxSelfSetTyping'', ''tox_self_set_typing'')]"

definition av_refs :: "(string \<times> string) list" where
  "av_refs = [
    (''toxavAnswer'', ''toxav_answer''),
    (''toxavAudioSendFrame'', ''toxav_audio_send_frame''),
    (''toxavAudioSetBitRate'', ''toxav_audio_set_bit_rate''),
    (''toxavCall'', ''toxav_call''),
    (''toxavCallControl'', ''toxav_call_control''),
    (''toxavFinalize'', ''toxav_finalize''),
    (''toxavIterate'', ''toxav_iterate''),
    (''toxavIterationInterval'', ''toxav_iteration_interval''),
    (''toxavKill'', ''toxav_kill''),
    (''toxavNew'', ''toxav_new''),
    (''toxavVideoSendFrame'', ''toxav_video_send_frame''),
    (''toxavVideoSetBitRate'', ''toxav_video_set_bit_rate'')]"

definition crypto_refs :: "(string \<times> string) list" where
  "crypto_refs = [
    (''toxGetSalt'', ''tox_get_salt''),
    (''toxHash'', ''tox_hash''),
    (''toxIsDataEncrypted'', ''tox_is_data_encrypted''),
    (''toxPassKeyDecrypt'', ''tox_pass_key_decrypt''),
    (''toxPassKeyDerive'', ''tox_pass_key_derive''),
    (''toxPassKeyDeriveWithSalt'', ''tox_pass_key_derive_with_salt''),
    (''toxPassKeyEncrypt'', ''tox_pass_key_encrypt'')]"

text \<open>The registration leaves out the Java methods.\<close>

definition core_natives :: "string list" where
  "core_natives = map snd core_refs"

definition av_natives :: "string list" where
  "av_natives = map snd av_refs"

definition crypto_natives :: "string list" where
  "crypto_natives = map snd crypto_refs"

fun core_cb_string :: "core_callback_name \<Rightarrow> string" where
  "core_cb_string CB_file_chunk_request = ''file_chunk_request''"
| "core_cb_string CB_file_recv = ''file_recv''"
| "core_cb_string CB_file_recv_chunk = ''file_recv_chunk''"
| "core_cb_string CB_file_recv_control = ''file_recv_control''"
| "core_cb_string CB_friend_connection_status = ''friend_connection_status''"
| "core_cb_string CB_friend_lossless_packet = ''friend_lossless_packet''"
| "core_cb_string CB_friend_lossy_packet = ''friend_lossy_packet''"
| "core_cb_string CB_friend_message = ''friend_message''"
| "core_cb_string CB_friend_name = ''friend_name''"
| "core_cb_string CB_friend_read_receipt = ''friend_read_receipt''"
| "core_cb_string CB_friend_request = ''friend_request''"
| "core_cb_string CB_friend_status = ''friend_status''"
| "core_cb_string CB_friend_status_message = ''friend_status_message''"
| "core_cb_string CB_friend_typing = ''friend_typing''"
| "core_cb_string CB_self_connection_status = ''self_connection_status''"

fun av_cb_string :: "av_callback_name \<Rightarrow> string" where
  "av_cb_string CB_audio_bit_rate = ''audio_bit_rate''"
| "av_cb_string CB_audio_receive_frame = ''audio_receive_frame''"
| "av_cb_string CB_call = ''call''"
| "av_cb_string CB_call_state = ''call_state''"
| "av_cb_string CB_video_bit_rate = ''video_bit_rate''"
| "av_cb_string CB_video_receive_frame = ''video_receive_frame''"

definition core_symbols :: "string list" where
  "core_symbols =
     core_natives @ map (\<lambda>cb. ''tox4j_'' @ core_cb_string cb @ ''_cb'') core_callbacks @ [''tox_new_unique'']"

definition av_symbols :: "string list" where
  "av_symbols =
     av_natives @ map (\<lambda>cb. ''tox4j_'' @ av_cb_string cb @ ''_cb'') av_callbacks @ [''toxav_new_unique'']"

text \<open>\<open>REGISTER_FUNC (func)\<close>: the address of a function with its spelling.\<close>

definition register_all :: "(string \<Rightarrow> uintptr) \<Rightarrow> string list \<Rightarrow> ('z logenv_scheme, bool) prog" where
  "register_all addr symbols = register_funcs (map (\<lambda>f. (addr f, f)) symbols)"

text \<open>
  The initialisers of the two translation units; their order is not specified.
\<close>

definition static_init :: "(string \<Rightarrow> uintptr) \<Rightarrow> ('z logenv_scheme, bool) prog" where
  "static_init addr =
     andThen (register_all addr core_symbols) (\<lambda>_. register_all addr av_symbols)"

definition static_init_av_first :: "(string \<Rightarrow> uintptr) \<Rightarrow> ('z logenv_scheme, bool) prog" where
  "static_init_av_first addr =
     andThen (register_all addr av_symbols) (\<lambda>_. register_all addr core_symbols)"

section \<open>Loading\<close>

text \<open>\<open>JNI_VERSION_1_4\<close> of \<open>jni.h\<close>; the version check is a macro of toxcore.\<close>

definition JNI_OnLoad :: "bool \<Rightarrow> jint" where
  "JNI_OnLoad abi_compatible = (if \<not> abi_compatible then - 1 else 0x00010004)"

section \<open>Lemmas\<close>

lemma register_funcs_eq:
  assumes "distinct (map fst fs)" and "\<forall>a \<in> fst ` set fs. func_names s a = None"
  shows "register_funcs fs s = Done (True, s\<lparr>func_names := func_names s ++ map_of fs\<rparr>)"
  using assms
proof (induction fs arbitrary: s)
  case (Cons p fs)
  obtain a f where p: "p = (a, f)" by (cases p)
  let ?s = "s\<lparr>func_names := (func_names s)(a \<mapsto> f)\<rparr>"
  have names: "func_names ?s ++ map_of fs = func_names s ++ map_of (p # fs)"
    using Cons.prems
    by (auto simp: p map_add_def fun_eq_iff split: option.split dest!: map_of_SomeD intro: rev_image_eqI)
  have "register_funcs (p # fs) s = register_funcs fs ?s"
    using Cons.prems by (simp add: p register_func_def andThen_def)
  also have "\<dots> = Done (True, ?s\<lparr>func_names := func_names ?s ++ map_of fs\<rparr>)"
    using Cons.prems by (intro Cons.IH) (auto simp: p)
  also have "\<dots> = Done (True, s\<lparr>func_names := func_names s ++ map_of (p # fs)\<rparr>)"
    unfolding names by simp
  finally show ?case .
qed simp

lemma register_all_eq:
  assumes "inj_on addr (set symbols)" and "distinct symbols"
    and "\<forall>f \<in> set symbols. func_names s (addr f) = None"
  shows "register_all addr symbols s =
    Done (True, s\<lparr>func_names := func_names s ++ map_of (map (\<lambda>f. (addr f, f)) symbols)\<rparr>)"
  unfolding register_all_def using assms
  by (intro register_funcs_eq) (auto simp: distinct_map comp_def)

lemma symbols_distinct: "distinct (core_symbols @ av_symbols @ crypto_natives)"
  by (simp add: core_symbols_def av_symbols_def core_natives_def core_refs_def av_natives_def av_refs_def crypto_natives_def crypto_refs_def
      core_callbacks_def av_callbacks_def)

lemma map_of_symbols:
  assumes "inj_on addr (set symbols)"
  shows "f \<in> set symbols \<Longrightarrow> map_of (map (\<lambda>f. (addr f, f)) symbols) (addr f) = Some f"
    and "a \<notin> addr ` set symbols \<Longrightarrow> map_of (map (\<lambda>f. (addr f, f)) symbols) a = None"
  using assms
proof -
  assume f: "f \<in> set symbols"
  with assms show "map_of (map (\<lambda>f. (addr f, f)) symbols) (addr f) = Some f"
    by (induction symbols) (auto simp: inj_on_def)
next
  assume "a \<notin> addr ` set symbols"
  then show "map_of (map (\<lambda>f. (addr f, f)) symbols) a = None"
    by (induction symbols) auto
qed

text \<open>The names after start-up.\<close>

definition startup_names :: "(string \<Rightarrow> uintptr) \<Rightarrow> uintptr \<Rightarrow> string option" where
  "startup_names addr = map_of (map (\<lambda>f. (addr f, f)) (core_symbols @ av_symbols))"

lemma static_init_names:
  fixes s :: "'z logenv_scheme"
  assumes inj: "inj_on addr (set (core_symbols @ av_symbols))" and empty: "func_names s = (\<lambda>_. None)"
  shows "static_init addr s = Done (True, s\<lparr>func_names := startup_names addr\<rparr>)"
    and "static_init_av_first addr s = Done (True, s\<lparr>func_names := startup_names addr\<rparr>)"
proof -
  let ?core = "map (\<lambda>f. (addr f, f)) core_symbols" and ?av = "map (\<lambda>f. (addr f, f)) av_symbols"
  have injs: "inj_on addr (set core_symbols)" "inj_on addr (set av_symbols)"
    using inj by (auto intro: inj_on_subset)
  have dist: "distinct core_symbols" "distinct av_symbols" "set core_symbols \<inter> set av_symbols = {}"
    using symbols_distinct by auto
  have apart: "map_of ?core (addr f) = None" if "f \<in> set av_symbols" for f
    using that inj dist(3) by (intro map_of_symbols(2) [OF injs(1)]) (auto dest: inj_onD)
  have apart': "map_of ?av (addr f) = None" if "f \<in> set core_symbols" for f
    using that inj dist(3) by (intro map_of_symbols(2) [OF injs(2)]) (auto dest: inj_onD)
  have swap: "map_of ?av ++ map_of ?core = map_of ?core ++ map_of ?av"
    using inj dist(3) by (intro map_add_comm) (auto simp: dom_map_of_conv_image_fst image_image dest: inj_onD)
  have names: "startup_names addr = map_of ?av ++ map_of ?core"
    by (simp add: startup_names_def)
  show "static_init addr s = Done (True, s\<lparr>func_names := startup_names addr\<rparr>)"
    using register_all_eq [OF injs(1) dist(1), of s]
      register_all_eq [OF injs(2) dist(2), of "s\<lparr>func_names := map_of ?core\<rparr>"] apart
    by (simp add: static_init_def andThen_def empty names swap)
  show "static_init_av_first addr s = Done (True, s\<lparr>func_names := startup_names addr\<rparr>)"
    using register_all_eq [OF injs(2) dist(2), of s]
      register_all_eq [OF injs(1) dist(1), of "s\<lparr>func_names := map_of ?av\<rparr>"] apart'
    by (simp add: static_init_av_first_def andThen_def empty names)
qed

lemma startup_names_wf: "names_wf (startup_names addr)"
proof -
  have "\<forall>f \<in> set (core_symbols @ av_symbols). hd f = CHR ''t''"
    by (simp add: core_symbols_def av_symbols_def core_natives_def core_refs_def av_natives_def av_refs_def
        core_callbacks_def av_callbacks_def)
  moreover have "\<forall>f \<in> set (core_symbols @ av_symbols). f \<noteq> []"
    by (auto simp: core_symbols_def av_symbols_def core_natives_def core_refs_def av_natives_def av_refs_def)
  ultimately show ?thesis
    by (auto simp: names_wf_def startup_names_def isdigit_def dest!: map_of_SomeD)
qed

end
