(* ===== verification/Native_Runs.thy ===== *)
theory Native_Runs
  imports Av_Frames Static_Init
begin

text \<open>
  Every native method of the library, with what its arguments and the toxcore functions
  behind it must satisfy, as one predicate; and runs of any number of them.
\<close>

section \<open>Methods of ToxCoreJni\<close>

definition drop_result :: "('s, 'r) prog \<Rightarrow> ('s, unit) prog" where
  "drop_result m = andThen m (\<lambda>_. ret ())"

lemma drop_result_safe [safe_simps]: "native_safe makes m \<Longrightarrow> native_safe makes (drop_result m)"
  unfolding drop_result_def by (intro safe_return) auto

lemma drop_result_safe_from: "safe_from makes P m \<Longrightarrow> safe_from makes P (drop_result m)"
  unfolding drop_result_def safe_from_def wp_iff by (fastforce simp: andThen_def)

text \<open>Methods that take no array, and those whose arrays toxcore checks itself.\<close>

inductive core_simple :: "(('tox, 'av) world, unit) prog \<Rightarrow> bool" where
  "core_simple (toxKill n)"
| "core_simple (toxFinalize n)"
| "core_simple (drop_result (toxSelfGetUdpPort f n))"
| "core_simple (drop_result (toxSelfGetTcpPort f n))"
| "core_simple (toxSelfSetName f n name)"
| "core_simple (toxSelfSetStatusMessage f n name)"
| "unat st < 3 \<Longrightarrow> core_simple (toxSelfSetStatus f n st)"
| "core_simple (toxFriendDelete f n fn)"
| "unat c < 3 \<Longrightarrow> core_simple (toxFileControl f n fn file c)"
| "core_simple (toxFileSeek f n fn file pos)"
| "core_simple (toxFileSendChunk f n fn file pos chunk)"
| "core_simple (toxSelfSetTyping f n fn b)"
| "unat ty < 2 \<Longrightarrow> core_simple (drop_result (toxFriendSendMessage f n fn ty delta message))"
| "core_simple (toxFriendSendLossyPacket f n fn packet)"
| "core_simple (toxFriendSendLosslessPacket f n fn packet)"
| "core_simple (drop_result (toxIterationInterval f n))"
| "core_simple (drop_result (toxSelfGetStatus value f n))"
| "core_simple (toxSelfSetNospam f n k)"
| "core_simple (drop_result (toxFriendExists f n fn))"
| "core_simple (drop_result (toxSelfGetNospam f n))"

lemmas core_simple_defs =
  toxSelfGetUdpPort_def toxSelfGetTcpPort_def toxSelfSetName_def toxSelfSetStatusMessage_def
  toxSelfSetStatus_def toxFriendDelete_def toxFileControl_def toxFileSeek_def toxFileSendChunk_def
  toxSelfSetTyping_def toxFriendSendMessage_def toxFriendSendLossyPacket_def
  toxFriendSendLosslessPacket_def toxIterationInterval_def toxSelfGetStatus_def toxSelfSetNospam_def
  toxFriendExists_def toxSelfGetNospam_def

lemma core_simple_safe: "core_simple m \<Longrightarrow> native_safe makes m"
  by (induction rule: core_simple.induct)
    (simp_all add: core_simple_defs safe_simps kill_finalize_safe del: ret_apply)

text \<open>Methods with arrays of a fixed size, and those that read vectors out of the object.\<close>

inductive core_sized :: "uintptr set \<Rightarrow> (('tox, 'av) world, unit) prog \<Rightarrow> bool" for makes where
  "unat proxyType < 3 \<Longrightarrow> (proxyType \<noteq> 0 \<longrightarrow> valid_port proxyPort) \<Longrightarrow> valid_port startPort \<Longrightarrow>
   valid_port endPort \<Longrightarrow> valid_port tcpPort \<Longrightarrow> unat saveDataType < 3 \<Longrightarrow>
   \<forall>opts. case run_c tox_new opts of (p, e) \<Rightarrow> new_ok tox_err_new_enum p e \<Longrightarrow>
   core_sized makes (drop_result (toxNew avail tox_new ipv6 udp discovery proxyType host proxyPort
     startPort endPort tcpPort saveDataType saveData))"
| "vector_ok makes g \<Longrightarrow> core_sized makes (drop_result (toxGetSavedata g n))"
| "valid_port port \<Longrightarrow> null_or TOX_PUBLIC_KEY_SIZE key \<Longrightarrow>
   \<forall>h p k st. at_least TOX_PUBLIC_KEY_SIZE k \<longrightarrow> in_bounds (boot h p k st) \<Longrightarrow>
   core_sized makes (toxBootstrap (a, boot) n host port key)"
| "valid_port port \<Longrightarrow> null_or TOX_PUBLIC_KEY_SIZE key \<Longrightarrow>
   \<forall>h p k st. at_least TOX_PUBLIC_KEY_SIZE k \<longrightarrow> in_bounds (boot h p k st) \<Longrightarrow>
   core_sized makes (toxAddTcpRelay (a, boot) n host port key)"
| "vector_ok makes (constant_getter mk sz TOX_PUBLIC_KEY_SIZE data) \<Longrightarrow>
   core_sized makes (drop_result (toxSelfGetDhtId mk sz data n))"
| "vector_ok makes (constant_getter mk sz TOX_PUBLIC_KEY_SIZE data) \<Longrightarrow>
   core_sized makes (drop_result (toxSelfGetPublicKey mk sz data n))"
| "vector_ok makes (constant_getter mk sz TOX_SECRET_KEY_SIZE data) \<Longrightarrow>
   core_sized makes (drop_result (toxSelfGetSecretKey mk sz data n))"
| "vector_ok makes (constant_getter mk sz TOX_ADDRESS_SIZE data) \<Longrightarrow>
   core_sized makes (drop_result (toxSelfGetAddress mk sz data n))"
| "vector_ok makes g \<Longrightarrow> core_sized makes (drop_result (toxSelfGetName g n))"
| "vector_ok makes g \<Longrightarrow> core_sized makes (drop_result (toxSelfGetStatusMessage g n))"
| "null_or TOX_ADDRESS_SIZE address \<Longrightarrow>
   \<forall>k m l st. at_least TOX_ADDRESS_SIZE k \<longrightarrow> in_bounds (friend_add k m l st) \<Longrightarrow>
   core_sized makes (drop_result (toxFriendAdd (a, friend_add) n address message))"
| "null_or TOX_PUBLIC_KEY_SIZE key \<Longrightarrow>
   \<forall>k st. at_least TOX_PUBLIC_KEY_SIZE k \<longrightarrow> in_bounds (norequest k st) \<Longrightarrow>
   core_sized makes (drop_result (toxFriendAddNorequest (a, norequest) n key))"
| "null_or TOX_PUBLIC_KEY_SIZE key \<Longrightarrow>
   \<forall>k st. at_least TOX_PUBLIC_KEY_SIZE k \<longrightarrow> in_bounds (by_key k st) \<Longrightarrow>
   core_sized makes (drop_result (toxFriendByPublicKey (a, by_key) n key))"
| "length stack = 32 \<Longrightarrow> \<forall>fn st. length (snd (fst (g fn st))) \<le> 32 \<Longrightarrow>
   core_sized makes (drop_result (toxFriendGetPublicKey stack (a, g) n fn))"
| "vector_ok makes friends \<Longrightarrow> core_sized makes (drop_result (toxSelfGetFriendList friends n))"
| "null_or TOX_FILE_ID_LENGTH fileId \<Longrightarrow>
   \<forall>fn k sz i p l st. at_least TOX_FILE_ID_LENGTH i \<longrightarrow> in_bounds (send fn k sz i p l st) \<Longrightarrow>
   core_sized makes (drop_result (toxFileSend (a, send) n fn kind fileSize fileId filename))"
| "length stack = 32 \<Longrightarrow> \<forall>fn file st. length (snd (fst (h fn file st))) \<le> 32 \<Longrightarrow>
   core_sized makes (drop_result (toxFileGetFileId stack (a, h) n fn file))"

lemmas core_sized_defs =
  toxGetSavedata_def toxBootstrap_def toxAddTcpRelay_def toxBootstrapLike_def toxSelfGetDhtId_def
  toxSelfGetPublicKey_def toxSelfGetSecretKey_def toxSelfGetAddress_def toxSelfGetName_def
  toxSelfGetStatusMessage_def toxFriendAdd_def toxFriendAddNorequest_def toxFriendByPublicKey_def
  toxFileSend_def

lemma core_sized_safe: "core_sized makes m \<Longrightarrow> native_safe makes m"
  by (induction rule: core_sized.induct)
    (simp_all add: core_sized_defs safe_simps call_c_in_bounds valid_port_def
      local_array_safe toxNew_safe del: ret_apply)

inductive core_event :: "(('tox, 'av) world, unit) prog \<Rightarrow> bool" where
  "unat st < 3 \<Longrightarrow> core_event (invokeSelfConnectionStatus n st)"
| "unat c < 3 \<Longrightarrow> core_event (invokeFileRecvControl n fn file c)"
| "core_event (invokeFileRecv n fn file kind sz filename)"
| "core_event (invokeFileRecvChunk n fn file pos data)"
| "core_event (invokeFileChunkRequest n fn file pos len)"
| "unat st < 3 \<Longrightarrow> core_event (invokeFriendConnectionStatus n fn st)"
| "core_event (invokeFriendLosslessPacket n fn data)"
| "core_event (invokeFriendLossyPacket n fn data)"
| "unat ty < 2 \<Longrightarrow> core_event (invokeFriendMessage n fn ty delta data)"
| "core_event (invokeFriendName n fn data)"
| "valid_data key TOX_PUBLIC_KEY_SIZE \<Longrightarrow> core_event (invokeFriendRequest n key delta data)"
| "unat st < 3 \<Longrightarrow> core_event (invokeFriendStatus n fn st)"
| "core_event (invokeFriendStatusMessage n fn data)"
| "core_event (invokeFriendTyping n fn b)"
| "core_event (invokeFriendReadReceipt n fn i)"

lemmas core_event_defs =
  invokeSelfConnectionStatus_def invokeFileRecvControl_def invokeFileRecv_def invokeFileRecvChunk_def
  invokeFileChunkRequest_def invokeFriendConnectionStatus_def invokeFriendLosslessPacket_def
  invokeFriendLossyPacket_def invokeFriendMessage_def invokeFriendName_def invokeFriendRequest_def
  invokeFriendStatus_def invokeFriendStatusMessage_def invokeFriendTyping_def
  invokeFriendReadReceipt_def with_bytes_def

lemma core_event_safe: "core_event m \<Longrightarrow> native_safe makes m"
  by (induction rule: core_event.induct)
    (simp_all add: core_event_defs callback_defs safe_simps set_bytes_valid del: ret_apply)

inductive log_method :: "(('tox, 'av) world, unit) prog \<Rightarrow> bool" where
  "log_method (tox4jSetMaxLogSize k)"
| "log_method (drop_result tox4jGetMaxLogSize)"
| "log_method (drop_result tox4jGetCurrentLogSize)"
| "log_method (tox4jSetLogFilter (Some filters))"

lemma log_method_safe: "log_method m \<Longrightarrow> native_safe makes m"
  by (induction rule: log_method.induct)
    (simp_all add: safe_simps log_methods_safe)

section \<open>Methods of ToxAvJni\<close>

inductive av_method :: "(('tox, 'av) world, unit) prog \<Rightarrow> bool" where
  "\<forall>st. case run_c toxav_new st of (p, e, _) \<Rightarrow> new_ok toxav_err_new_enum p e \<Longrightarrow>
   av_method (drop_result (toxavNew toxav_new n))"
| "av_method (toxavKill n)"
| "av_method (toxavFinalize n)"
| "av_method (drop_result (toxavIterationInterval f n))"
| "av_method (toxavCall f1 n fn a v)"
| "av_method (toxavAnswer f2 n fn a v)"
| "unat c < 7 \<Longrightarrow> av_method (toxavCallControl f3 n fn c)"
| "av_method (toxavAudioSetBitRate f4 n fn r)"
| "av_method (toxavVideoSetBitRate f4 n fn r)"
| "audio_frame_ok pcm samples channels rate \<Longrightarrow> reads_samples (run_c f5) \<Longrightarrow>
   av_method (toxavAudioSendFrame f5 n fn pcm samples channels rate)"
| "video_frame_ok width height y u v \<Longrightarrow> reads_planes (run_c f6) \<Longrightarrow>
   av_method (toxavVideoSendFrame f6 n fn width height y u v)"
| "av_method (invokeAudioBitRate n fn r)"
| "av_method (invokeVideoBitRate n fn r)"
| "audio_event_ok pcm channels \<Longrightarrow> av_method (invokeAudioReceiveFrame n fn pcm channels rate)"
| "av_method (invokeCall n fn au vi)"
| "av_method (invokeCallState bits n fn st)"
| "video_event_ok width height y u v ys us vs \<Longrightarrow>
   av_method (invokeVideoReceiveFrame n fn width height y u v ys us vs)"

lemmas av_method_defs =
  toxavIterationInterval_def toxavCall_def toxavAnswer_def toxavCallControl_def
  toxavAudioSetBitRate_def toxavVideoSetBitRate_def invokeAudioBitRate_def invokeVideoBitRate_def
  invokeCall_def invokeCallState_def tox4j_audio_bit_rate_cb_def tox4j_video_bit_rate_cb_def
  tox4j_call_cb_def tox4j_call_state_cb_def

lemma av_method_safe: "av_method m \<Longrightarrow> native_safe makes m"
  by (induction rule: av_method.induct)
    (simp_all add: av_method_defs safe_simps kill_finalize_safe toxavNew_safe
      toxavAudioSendFrame_safe toxavVideoSendFrame_safe invokeAudioReceiveFrame_safe
      invokeVideoReceiveFrame_safe del: ret_apply)

section \<open>Methods of ToxCryptoJni\<close>

text \<open>What the functions of toxencryptsave document of their output.\<close>

definition key_ok :: "pass_key option \<times> TOX_ERR_KEY_DERIVATION \<Rightarrow> bool" where
  "key_ok r \<longleftrightarrow> (code_result tox_err_key_derivation_enum (snd r) = SUCCESS \<longrightarrow>
     (\<exists>key. fst r = Some key \<and> length key = PASS_KEY_SIZE))"

lemma fill_zeros: "length out \<le> n \<Longrightarrow>
  fill_buffer (replicate n 0) out = ret (out @ replicate (n - length out) 0)"
  by (simp add: fill_buffer_def drop_replicate del: ret_apply)

lemma crypto_returnsI:
  assumes "f = ret (r, e)" and "code_result en e = SUCCESS \<Longrightarrow> returns (success_func r)"
  shows "crypto_returns en success_func f"
proof -
  from assms(2) obtain b where "code_result en e = SUCCESS \<longrightarrow> yields (success_func r) b"
    unfolding returns_def by blast
  with assms(1) show ?thesis unfolding crypto_returns_def by (intro exI conjI) simp_all
qed

lemma returns_toJavaArray: "length xs < 2 ^ 31 \<Longrightarrow> returns (toJavaArray xs)"
  unfolding returns_def by (intro exI) (rule yields_toJavaArray)

lemma toxGetSalt_safe:
  fixes makes :: "uintptr set"
  assumes "in_bounds (f data)" and "\<And>r. f data = Some r \<Longrightarrow> length (fst (snd r)) \<le> TOX_PASS_SALT_LENGTH"
  shows "native_safe makes (toxGetSalt (a, f) data :: ('tox, 'av, uint8 jarray) native)"
proof -
  obtain b out e where out: "f data = Some (b, out, e)" using assms(1) by (auto simp: in_bounds_def)
  from assms(2) [OF out] have len: "length out \<le> TOX_PASS_SALT_LENGTH" by simp
  have "crypto_returns tox_err_get_salt_enum (\<lambda>(_, salt). toJavaArray salt :: ('tox, 'av, uint8 jarray) native)
     (andThen (call_c (f data)) (\<lambda>(b, out, e).
        andThen (fill_buffer (replicate TOX_PASS_SALT_LENGTH 0) out) (\<lambda>salt. ret ((b, salt), e))))"
    by (rule crypto_returnsI [where r = "(b, out @ replicate (TOX_PASS_SALT_LENGTH - length out) 0)"
          and e = e])
      (use len in \<open>simp_all add: out fill_zeros returns_toJavaArray
         TOX_PASS_SALT_LENGTH_def del: ret_apply\<close>)
  then show ?thesis
    unfolding toxGetSalt_def
    by (simp add: safe_simps crypto_call_safe del: ret_apply)
qed

lemma toxIsDataEncrypted_safe:
  fixes makes :: "uintptr set"
  assumes "\<And>p. at_least TOX_PASS_ENCRYPTION_EXTRA_LENGTH p \<Longrightarrow> in_bounds (run_c f p)"
  shows "native_safe makes (toxIsDataEncrypted f data :: ('tox, 'av, bool) native)"
proof -
  have "at_least TOX_PASS_ENCRYPTION_EXTRA_LENGTH data"
    if "\<not> array_len data < TOX_PASS_ENCRYPTION_EXTRA_LENGTH"
    using that by (cases data) (simp_all add: at_least_def)
  moreover have "native_safe makes (ret b :: ('tox, 'av, bool) native)" for b
    by (rule safe_yields) (rule yields_ret)
  ultimately show ?thesis
    unfolding toxIsDataEncrypted_def 
    by (simp add: safe_simps call_c_in_bounds assms del: ret_apply)
qed

lemma key_returns:
  assumes "key_ok r"
  shows "crypto_returns tox_err_key_derivation_enum derived_key_to_java (ret r)"
proof (rule crypto_returnsI [where r = "fst r" and e = "snd r"])
  assume "code_result tox_err_key_derivation_enum (snd r) = SUCCESS"
  with assms obtain key where "fst r = Some key" "length key = PASS_KEY_SIZE" by (auto simp: key_ok_def)
  then show "returns (derived_key_to_java (fst r))"
    by (simp add: derived_key_to_java_def pass_key_to_java_def returns_toJavaArray PASS_KEY_SIZE_def
        TOX_PASS_SALT_LENGTH_def TOX_PASS_KEY_LENGTH_def)
qed simp

lemma derive_safe:
  fixes makes :: "uintptr set"
  shows "(\<And>m p. at_least TOX_PASS_SALT_LENGTH p \<Longrightarrow> in_bounds (g passphrase m p)) \<Longrightarrow>
      (\<And>m p r. g passphrase m p = Some r \<Longrightarrow> key_ok r) \<Longrightarrow>
      native_safe makes (toxPassKeyDeriveWithSalt (a, g) passphrase salt :: ('tox, 'av, uint8 jarray) native)"
    and "(\<And>m. key_ok (h passphrase m)) \<Longrightarrow>
      native_safe makes (toxPassKeyDerive (a, h) passphrase :: ('tox, 'av, uint8 jarray) native)"
proof -
  assume g: "\<And>m p. at_least TOX_PASS_SALT_LENGTH p \<Longrightarrow> in_bounds (g passphrase m p)"
    "\<And>m p r. g passphrase m p = Some r \<Longrightarrow> key_ok r"
  have throw: "native_safe makes (andThen (throw_tox_error crypto_subsystem tox_err_key_derivation_enum
      ''INVALID_LENGTH'') (\<lambda>_. ret None) :: ('tox, 'av, uint8 jarray) native)"
    by (intro safe_return throw_error_safe) (auto simp: vm_ok_def)
  show "native_safe makes (toxPassKeyDeriveWithSalt (a, g) passphrase salt :: ('tox, 'av, uint8 jarray) native)"
  proof (cases "array_len salt = TOX_PASS_SALT_LENGTH")
    case True
    then have "at_least TOX_PASS_SALT_LENGTH salt" by (rule at_least_len)
    from g(1) [OF this, of "array_len passphrase"] obtain r where
      r: "g passphrase (array_len passphrase) salt = Some r" by (auto simp: in_bounds_def)
    with True show ?thesis
      unfolding toxPassKeyDeriveWithSalt_def
      by (simp add: safe_simps crypto_call_safe key_returns [OF g(2) [OF r]] del: ret_apply)
  next
    case False
    with throw show ?thesis unfolding toxPassKeyDeriveWithSalt_def by (simp add: safe_simps)
  qed
next
  assume h: "\<And>m. key_ok (h passphrase m)"
  show "native_safe makes (toxPassKeyDerive (a, h) passphrase :: ('tox, 'av, uint8 jarray) native)"
    unfolding toxPassKeyDerive_def
    by (simp add: safe_simps crypto_call_safe key_returns [OF h] del: ret_apply)
qed

lemma crypt_into_returns:
  assumes "\<And>key p. length (fst (snd (g key p len))) \<le> k" and "k < 2 ^ 31"
  shows "crypto_returns en (\<lambda>(_, out). toJavaArray out) (crypt_into (a, g) key p len k)"
proof -
  obtain b out e where out: "g key p len = (b, out, e)" by (cases "g key p len") auto
  from assms(1) [of key p] have "length out \<le> k" by (simp add: out)
  with assms(2) show ?thesis
    by (intro crypto_returnsI [where r = "(b, out @ replicate (k - length out) 0)" and e = e])
      (simp_all add: crypt_into_def out fill_zeros returns_toJavaArray del: ret_apply)
qed

lemma pass_key_safe [safe_simps]:
  "array_len passKey = PASS_KEY_SIZE \<Longrightarrow>
   native_safe makes (andThen (pass_key_from_java passKey) f) = native_safe makes (f (the passKey))"
proof (rule safe_bind_eq)
  assume len: "array_len passKey = PASS_KEY_SIZE"
  then obtain key where "passKey = Some key" "length key = PASS_KEY_SIZE"
    by (cases passKey) (simp_all add: PASS_KEY_SIZE_def TOX_PASS_SALT_LENGTH_def)
  then show "yields (pass_key_from_java passKey) (the passKey)"
    by (simp add: pass_key_from_java_def yields_def andThen_def fromJavaArray_Done array_size_Done
        fill_buffer_def)
qed

lemma crypt_safe:
  fixes makes :: "uintptr set"
  assumes "array_len passKey = PASS_KEY_SIZE" and "array_len data + TOX_PASS_ENCRYPTION_EXTRA_LENGTH < 2 ^ 31"
  shows "(\<And>key p. length (fst (snd (g key p (array_len data)))) \<le> decrypted_size (array_len data)) \<Longrightarrow>
      native_safe makes (toxPassKeyDecrypt (a, g) data passKey :: ('tox, 'av, uint8 jarray) native)"
    and "(\<And>key p. length (fst (snd (h key p (array_len data)))) \<le>
        array_len data + TOX_PASS_ENCRYPTION_EXTRA_LENGTH) \<Longrightarrow>
      native_safe makes (toxPassKeyEncrypt (a, h) data passKey :: ('tox, 'av, uint8 jarray) native)"
proof -
  have "decrypted_size (array_len data) < 2 ^ 31" using assms(2) by (simp add: decrypted_size_def)
  then show "native_safe makes (toxPassKeyDecrypt (a, g) data passKey :: ('tox, 'av, uint8 jarray) native)"
    if "\<And>key p. length (fst (snd (g key p (array_len data)))) \<le> decrypted_size (array_len data)"
    using assms(1) that unfolding toxPassKeyDecrypt_def
    by (simp add: safe_simps crypto_call_safe crypt_into_returns del: ret_apply)
  show "native_safe makes (toxPassKeyEncrypt (a, h) data passKey :: ('tox, 'av, uint8 jarray) native)"
    if "\<And>key p. length (fst (snd (h key p (array_len data)))) \<le>
      array_len data + TOX_PASS_ENCRYPTION_EXTRA_LENGTH"
    using assms that unfolding toxPassKeyEncrypt_def
    by (simp add: safe_simps crypto_call_safe crypt_into_returns del: ret_apply)
qed

lemma toxHash_safe:
  fixes makes :: "uintptr set"
  assumes "length stack = TOX_HASH_LENGTH" and "\<And>p n. fst (f p n) \<and> length (snd (f p n)) \<le> TOX_HASH_LENGTH"
  shows "native_safe makes (toxHash stack (a, f) data :: ('tox, 'av, uint8 jarray) native)"
proof -
  obtain out where out: "f data (array_len data) = (True, out)" "length out \<le> TOX_HASH_LENGTH"
    using assms(2) [of data "array_len data"] by (cases "f data (array_len data)") auto
  let ?hash = "out @ drop (length out) stack"
  have "native_safe makes (toJavaArray ?hash :: ('tox, 'av, uint8 jarray) native)"
    by (rule safe_yields, rule yields_toJavaArray) (use assms(1) out(2) in \<open>simp add: TOX_HASH_LENGTH_def\<close>)
  with assms(1) out show ?thesis
    unfolding toxHash_def by (simp add: safe_simps fill_buffer_def del: ret_apply)
qed

inductive crypto_method :: "(('tox, 'av) world, unit) prog \<Rightarrow> bool" where
  "at_least salt_end data \<Longrightarrow> \<forall>p. at_least salt_end p \<longrightarrow> in_bounds (f p) \<Longrightarrow>
   \<forall>p r. f p = Some r \<longrightarrow> length (fst (snd r)) \<le> TOX_PASS_SALT_LENGTH \<Longrightarrow>
   crypto_method (drop_result (toxGetSalt (a, f) data))"
| "\<forall>p. at_least TOX_PASS_ENCRYPTION_EXTRA_LENGTH p \<longrightarrow> in_bounds (encrypted p) \<Longrightarrow>
   crypto_method (drop_result (toxIsDataEncrypted (a, encrypted) data))"
| "\<forall>m p. at_least TOX_PASS_SALT_LENGTH p \<longrightarrow> in_bounds (g passphrase m p) \<Longrightarrow>
   \<forall>m p r. g passphrase m p = Some r \<longrightarrow> key_ok r \<Longrightarrow>
   crypto_method (drop_result (toxPassKeyDeriveWithSalt (a, g) passphrase salt))"
| "\<forall>m. key_ok (h passphrase m) \<Longrightarrow> crypto_method (drop_result (toxPassKeyDerive (a, h) passphrase))"
| "array_len passKey = PASS_KEY_SIZE \<Longrightarrow> array_len data + TOX_PASS_ENCRYPTION_EXTRA_LENGTH < 2 ^ 31 \<Longrightarrow>
   \<forall>key p. length (fst (snd (dec key p (array_len data)))) \<le> decrypted_size (array_len data) \<Longrightarrow>
   crypto_method (drop_result (toxPassKeyDecrypt (a, dec) data passKey))"
| "array_len passKey = PASS_KEY_SIZE \<Longrightarrow> array_len data + TOX_PASS_ENCRYPTION_EXTRA_LENGTH < 2 ^ 31 \<Longrightarrow>
   \<forall>key p. length (fst (snd (enc key p (array_len data)))) \<le>
     array_len data + TOX_PASS_ENCRYPTION_EXTRA_LENGTH \<Longrightarrow>
   crypto_method (drop_result (toxPassKeyEncrypt (a, enc) data passKey))"
| "length stack = TOX_HASH_LENGTH \<Longrightarrow> \<forall>p n. fst (hash p n) \<and> length (snd (hash p n)) \<le> TOX_HASH_LENGTH \<Longrightarrow>
   crypto_method (drop_result (toxHash stack (a, hash) data))"

lemma crypto_method_safe: "crypto_method m \<Longrightarrow> native_safe makes m"
  by (induction rule: crypto_method.induct)
    (intro drop_result_safe toxGetSalt_safe toxIsDataEncrypted_safe derive_safe crypt_safe toxHash_safe;
     simp only: snd_conv; blast)+

section \<open>Runs\<close>

text \<open>
  A native method \<open>m\<close> with arguments that Java may pass, and the states \<open>P\<close> from which it may be
  called: all but for the three methods that hand a serialised message to Java, which must not
  be larger than a Java array can be.
\<close>

inductive jni_method ::
  "uintptr set \<Rightarrow> (('tox, 'av) world \<Rightarrow> bool) \<Rightarrow> (('tox, 'av) world, unit) prog \<Rightarrow> bool" for makes where
  jni_any: "core_simple m \<or> core_sized makes m \<or> core_event m \<or> log_method m \<or> av_method m \<or> crypto_method m \<Longrightarrow>
   jni_method makes (\<lambda>_. True) m"
| jni_iterate: "jni_method makes (iterate_fits serialize tox_iterate n)
   (drop_result (toxIterate addr serialize tox_iterate n))"
| jni_av_iterate: "jni_method makes (av_iterate_fits bits serialize toxav_iterate n)
   (drop_result (toxavIterate bits addr serialize toxav_iterate n))"
| jni_last_log: "jni_method makes (log_fits serialize) (drop_result (tox4jLastLog serialize))"

lemma jni_method_safe: "jni_method makes P m \<Longrightarrow> safe_from makes P m"
proof (induction rule: jni_method.induct)
  case (jni_any m)
  then have "native_safe makes m"
    by (elim disjE) (rule core_simple_safe core_sized_safe core_event_safe log_method_safe
      av_method_safe crypto_method_safe, assumption)+
  then show ?case by (simp add: native_safe_from)
qed (intro drop_result_safe_from toxIterate_safe toxavIterate_safe tox4jLastLog_safe)+

text \<open>Java code calls native methods one after the other and handles the exceptions.\<close>

fun run_calls :: "(('tox, 'av) world, unit) prog list \<Rightarrow> (('tox, 'av) world, unit) prog" where
  "run_calls [] = ret ()"
| "run_calls (m # ms) =
     andThen m (\<lambda>_. andThen (modifies (\<lambda>s. s\<lparr>pending := None\<rparr>)) (\<lambda>_. run_calls ms))"

text \<open>Every call of the sequence is made in a state from which it may be called.\<close>

fun calls_fit ::
  "((('tox, 'av) world \<Rightarrow> bool) \<times> (('tox, 'av) world, unit) prog) list \<Rightarrow> ('tox, 'av) world \<Rightarrow> bool" where
  "calls_fit [] s \<longleftrightarrow> True"
| "calls_fit ((P, m) # cs) s \<longleftrightarrow>
     P s \<and> (\<forall>r t. m s = Done (r, t) \<longrightarrow> calls_fit cs (t\<lparr>pending := None\<rparr>))"

lemma calls_fit_always: "(\<And>P m s. (P, m) \<in> set cs \<Longrightarrow> P s) \<Longrightarrow> calls_fit cs s"
  by (induction cs s rule: calls_fit.induct) auto

lemma run_calls_safe:
  fixes s :: "('tox, 'av) world"
  assumes "\<forall>(P, m) \<in> set cs. jni_method makes P m" and "calls_fit cs s"
    and "world_ok makes s" and "pending s = None" and "vm_ok (jvm_of s)"
    and "length (instances (core_manager s)) + length cs < 2 ^ 31"
    and "length (instances (av_manager s)) + length cs < 2 ^ 31"
  shows "\<exists>t. run_calls (map snd cs) s = Done ((), t) \<and> world_ok makes t \<and> pending t = None"
  using assms
proof (induction cs arbitrary: s)
  case (Cons c cs)
  obtain P m where c: "c = (P, m)" by fastforce
  have "safe_from makes P m" "P s" using Cons.prems(1,2) by (simp_all add: c jni_method_safe)
  moreover have "roomy s" using Cons.prems(6,7) by (simp add: roomy_def)
  ultimately obtain u where u: "m s = Done ((), u)" "world_ok makes u" "jvm_of u = jvm_of s" "grew s u"
    using safe_fromD [of makes P m s] Cons.prems(3-5) by auto
  let ?u = "u\<lparr>pending := None\<rparr>"
  have "\<exists>t. run_calls (map snd cs) ?u = Done ((), t) \<and> world_ok makes t \<and> pending t = None"
    by (rule Cons.IH) (use Cons.prems u in \<open>auto simp: c grew_def\<close>)
  with u(1) show ?case by (auto simp: andThen_def c)
qed simp

text \<open>The state after the library has been loaded.\<close>

definition startup_world :: "jvm \<Rightarrow> (nat \<Rightarrow> int) \<Rightarrow> (string \<Rightarrow> uintptr) \<Rightarrow> ('tox, 'av) world" where
  "startup_world vm clk addr =
     \<lparr>jvm_of = vm, pending = None, jni_log_of = initial_log, func_names = startup_names addr,
      static_funcs = [], tox_ids = [], av_ids = [], clock = clk, ticks = 0,
      core_manager = empty_manager, av_manager = empty_manager\<rparr>"

lemma empty_manager_safe: "manager_safe P empty_manager"
  by (simp add: manager_safe_def objects_ok_def slot_of_def manager_inv_def unlocked_def empty_manager_def
      in_table_def)

lemma startup_world_ok:
  assumes "makes \<inter> addr ` set (core_symbols @ av_symbols) = {}"
  shows "world_ok makes (startup_world vm clk addr)"
proof -
  have "startup_names addr a = None" if "a \<in> makes" for a
    using assms that unfolding startup_names_def by (auto simp: map_of_eq_None_iff)
  then show ?thesis
    by (simp add: world_ok_def startup_world_def empty_manager_safe log_ok_def startup_names_wf
        initial_log_def log_wf_def registry_ok_def)
qed

end
