(* ===== verification/Call_Properties.thy ===== *)
theory Call_Properties
  imports Native_Runs
begin

text \<open>
  Properties of whole native methods: that every sequence of calls with valid arguments is
  safe, and what single methods do to the instances, to the log and to Java.
\<close>

section \<open>Sequences of calls\<close>

text \<open>The memory of the process before any static initialiser has run.\<close>

definition loaded_world :: "jvm \<Rightarrow> (nat \<Rightarrow> int) \<Rightarrow> ('tox, 'av) world" where
  "loaded_world vm clk =
     \<lparr>jvm_of = vm, pending = None, jni_log_of = initial_log, func_names = (\<lambda>_. None),
      static_funcs = [], tox_ids = [], av_ids = [], clock = clk, ticks = 0,
      core_manager = empty_manager, av_manager = empty_manager\<rparr>"


text \<open>Addresses for the symbols and a toxcore without network.\<close>

definition all_symbols :: "string list" where
  "all_symbols = core_symbols @ av_symbols @ crypto_natives"

definition sample_addr :: "string \<Rightarrow> uintptr" where
  "sample_addr f = word_of_nat (1000 + length (takeWhile (\<lambda>g. g \<noteq> f) all_symbols))"

lemma nth_index: "x \<in> set xs \<Longrightarrow> xs ! length (takeWhile (\<lambda>y. y \<noteq> x) xs) = x"
  by (induction xs) auto

lemma sample_addr_unat: "unat (sample_addr f) = 1000 + length (takeWhile (\<lambda>g. g \<noteq> f) all_symbols)"
proof -
  have "length all_symbols < 100"
    by (simp add: all_symbols_def core_symbols_def av_symbols_def core_natives_def core_refs_def av_natives_def av_refs_def
        crypto_natives_def crypto_refs_def core_callbacks_def av_callbacks_def)
  then have "length (takeWhile (\<lambda>g. g \<noteq> f) all_symbols) < 100"
    using length_takeWhile_le le_less_trans by blast
  then show ?thesis unfolding sample_addr_def by (simp only: unat_of_nat) simp
qed

lemma sample_addr_inj: "inj_on sample_addr (set all_symbols)"
proof (rule inj_onI)
  fix f g assume fg: "f \<in> set all_symbols" "g \<in> set all_symbols" and "sample_addr f = sample_addr g"
  then have "length (takeWhile (\<lambda>h. h \<noteq> f) all_symbols) = length (takeWhile (\<lambda>h. h \<noteq> g) all_symbols)"
    using sample_addr_unat [of f] sample_addr_unat [of g] by simp
  then show "f = g" using nth_index [OF fg(1)] nth_index [OF fg(2)] by metis
qed

lemma sample_addr_inj_registered: "inj_on sample_addr (set (core_symbols @ av_symbols))"
  by (rule inj_on_subset [OF sample_addr_inj]) (auto simp: all_symbols_def)

definition sample_new :: "nat tox_new_fun" where
  "sample_new = (sample_addr ''tox_new_unique'', \<lambda>opts.
     if opt_udp_enabled opts then (Some (4096, 0), TOX_ERR_NEW_OK) else (None, TOX_ERR_NEW_PORT_ALLOC))"

lemma sample_new_ok: "case run_c sample_new opts of (p, e) \<Rightarrow> new_ok tox_err_new_enum p e"
  by (simp add: sample_new_def new_ok_def tox_err_new_enum_def handling_defs)

text \<open>The sample process after its start, and with one live instance.\<close>

definition sample_start :: "(nat, nat) world" where
  "sample_start = startup_world complete_vm (\<lambda>_. 0) sample_addr"

definition sample_object :: "nat tox" where
  "sample_object = \<lparr>obj_addr = 4096, obj_callbacks = core_callbacks, obj_state = 0\<rparr>"

definition sample_live :: "(nat, nat) world" where
  "sample_live = sample_start\<lparr>core_manager :=
     \<lparr>instances = [\<lparr>object_p = Some sample_object, events_p = Some no_events\<rparr>], locks = [False],
      freelist = [], deleted = []\<rparr>\<rparr>"

lemma sample_start_fields:
  "pending sample_start = None" "jvm_of sample_start = complete_vm"
  "core_manager sample_start = empty_manager" "av_manager sample_start = empty_manager"
  "jni_log_of sample_start = initial_log" "func_names sample_start = startup_names sample_addr"
  by (simp_all add: sample_start_def startup_world_def)

lemma sample_start_ok:
  "world_ok {} sample_start" "pending sample_start = None" "vm_ok (jvm_of sample_start)" "roomy sample_start"
  by (simp_all add: sample_start_fields complete_vm_ok roomy_def)
    (simp_all add: sample_start_def startup_world_ok empty_manager_def)

lemma sample_start_slots:
  "new_number (core_manager sample_start) = 1" "core_manager sample_start = empty_manager"
  by (simp_all add: sample_start_fields new_number_def empty_manager_def)

lemma sample_live_slots:
  "slot_of (core_manager sample_live) n = (if n = 1 then Live sample_object no_events else Unused)"
proof -
  have "in_table (core_manager sample_live) n \<longleftrightarrow> n = 1"
    by (auto simp: in_table_def sample_live_def word_unat_eq_iff)
  then show ?thesis by (simp add: slot_of_def sample_live_def instance_index_def)
qed

lemma sample_live_ok:
  "world_ok {} sample_live" "pending sample_live = None" "vm_ok (jvm_of sample_live)" "roomy sample_live"
proof -
  have "manager_inv (core_manager sample_live)" "unlocked (core_manager sample_live)"
    by (simp_all add: sample_live_def manager_inv_def unlocked_def paired_def)
  then have "manager_safe core_object_ok (core_manager sample_live)"
    by (simp add: manager_safe_def objects_ok_def sample_live_slots core_object_ok_def sample_object_def)
  with world_ok_managers(3) [OF sample_start_ok(1), of "core_manager sample_live"]
  show "world_ok {} sample_live" by (simp add: sample_live_def)
qed (simp_all add: sample_live_def sample_start_fields complete_vm_ok roomy_def empty_manager_def)

lemma sample_ports: "valid_port 33445" "valid_port 33545" "valid_port 0"
  by (simp_all add: valid_port_def)

section \<open>Creation of an instance\<close>

text \<open>The options that \<open>toxNew\<close> hands to toxcore.\<close>

definition java_options ::
  "jboolean \<Rightarrow> jboolean \<Rightarrow> jboolean \<Rightarrow> jint \<Rightarrow> jstring \<Rightarrow> jint \<Rightarrow> jint \<Rightarrow> jint \<Rightarrow> jint \<Rightarrow> jint \<Rightarrow>
   uint8 jarray \<Rightarrow> tox_options" where
  "java_options ipv6 udp discovery proxyType host proxyPort startPort endPort tcpPort saveDataType saveData =
     \<lparr>opt_ipv6_enabled = (ipv6 \<noteq> 0), opt_udp_enabled = (udp \<noteq> 0),
      opt_local_discovery_enabled = (discovery \<noteq> 0),
      opt_proxy_type = consts_TOX_PROXY_TYPE ! unat proxyType, opt_proxy_host = host,
      opt_proxy_port = ucast proxyPort, opt_start_port = ucast startPort,
      opt_end_port = ucast endPort, opt_tcp_port = ucast tcpPort,
      opt_savedata_type = consts_TOX_SAVEDATA_TYPE ! unat saveDataType, opt_savedata = saveData\<rparr>"

lemma yields_bind_Done: "yields m a \<Longrightarrow> pending s = None \<Longrightarrow> andThen m f s = f a s"
  by (simp add: yields_def andThen_def)

lemmas bind_Done = yields_valueOf [THEN yields_bind_Done] yields_conversions [THEN yields_bind_Done]
  yields_uint16 [THEN yields_bind_Done] yields_assert [THEN yields_bind_Done]

lemma proxy_port_check:
  assumes "unat proxyType < 3" and "proxyType \<noteq> 0 \<longrightarrow> valid_port proxyPort"
  shows "yields (if consts_TOX_PROXY_TYPE ! unat proxyType \<noteq> TOX_PROXY_TYPE_NONE
    then assert_valid_uint16 proxyPort else ret ()) ()"
proof -
  have "consts_TOX_PROXY_TYPE ! unat proxyType \<noteq> TOX_PROXY_TYPE_NONE \<Longrightarrow> proxyType \<noteq> 0"
    by (auto simp: consts_TOX_PROXY_TYPE_def)
  with assms(2) show ?thesis by (auto simp: valid_port_def intro: yields_uint16 yields_ret)
qed

lemma toxNew_converted:
  fixes s :: "('tox, 'av) world" and tox_new :: "'tox tox_new_fun"
  assumes "unat proxyType < 3" and "proxyType \<noteq> 0 \<longrightarrow> valid_port proxyPort"
    and "valid_port startPort" and "valid_port endPort" and "valid_port tcpPort"
    and "unat saveDataType < 3" and "pending s = None"
    and opts: "opts = java_options ipv6 udp discovery proxyType host proxyPort startPort endPort tcpPort
      saveDataType saveData"
    and new: "run_c tox_new opts = (p, e)"
  shows "toxNew True tox_new ipv6 udp discovery proxyType host proxyPort startPort endPort tcpPort
      saveDataType saveData s =
    andThen (with_error_handling_new core_subsystem tox_err_new_enum (\<lambda>p. Arg_tox (show_pointer p))
      (\<lambda>p. ret (new_object_of p)) 0 toxNew_success (addr_of tox_new) [Arg_options (Some opts)]
      (ret (p, e, ()))) (\<lambda>(n, _). ret n) s"
  using assms(1-7)
  by (simp add: toxNew_def toxNew_options_def andThen_assoc bind_Done
      yields_bind_Done [OF proxy_port_check] valid_port_def
      new [unfolded opts java_options_def] opts java_options_def del: ret_apply)

lemma toxNew_success_run:
  fixes s :: "('tox, 'av) world" and x :: "'tox tox"
  assumes "manager_safe core_object_ok (core_manager s)" and "roomy s" and "obj_addr x \<noteq> 0"
  obtains cbs m' where "\<And>t. logenv.more t = logenv.more s \<Longrightarrow> toxNew_success (Some x) t =
      Done (new_number (core_manager s), logenv.more_update (\<lambda>_. put_core m' (logenv.more s)) t)"
    and "slot_of m' = (slot_of (core_manager s))
      (new_number (core_manager s) := Live (x\<lparr>obj_callbacks := cbs\<rparr>) no_events)"
    and "\<And>cb. cb \<in> set cbs"
proof -
  obtain cbs where cbs: "\<And>s :: ('tox, 'av) world. set_callbacks core_callbacks x (Some no_events) s =
      Done ((x\<lparr>obj_callbacks := cbs\<rparr>, Some no_events), s)" "set core_callbacks \<subseteq> set cbs"
    using set_callbacks_Done [of core_callbacks x no_events] by blast
  have "core_object_ok (x\<lparr>obj_callbacks := cbs\<rparr>)" using assms(3) cbs(2) by (simp add: core_object_ok_def)
  from add_safe [OF assms(1) _ this, of no_events] assms(2) obtain m' where
    m': "\<And>t :: ('tox, 'av) world. add (core_manager s) (Some (x\<lparr>obj_callbacks := cbs\<rparr>)) (Some no_events) t =
        Done ((new_number (core_manager s), m'), t)"
      "slot_of m' = (slot_of (core_manager s))
        (new_number (core_manager s) := Live (x\<lparr>obj_callbacks := cbs\<rparr>) no_events)"
    unfolding roomy_def by metis
  show thesis
  proof (rule that [of m' cbs])
    fix t :: "('tox, 'av) world" assume t: "logenv.more t = logenv.more s"
    have "logenv.more_update (\<lambda>_. put_core m' (logenv.more s)) t = t\<lparr>core_manager := m'\<rparr>"
      unfolding t [symmetric] put_core_more by (cases t) simp
    with m'(1) managers_more [OF t]
    show "toxNew_success (Some x) t =
        Done (new_number (core_manager s), logenv.more_update (\<lambda>_. put_core m' (logenv.more s)) t)"
      by (simp add: toxNew_success_def andThen_def cbs(1) on_manager_def)
  next
    fix cb
    have "cb \<in> set core_callbacks" by (cases cb) (simp_all add: core_callbacks_def)
    with cbs(2) show "cb \<in> set cbs" by blast
  qed (rule m'(2))
qed

lemma constructor_effect:
  fixes s :: "'z logenv_scheme"
  assumes s: "log_ok s" "pending s = None" "vm_has_errors (jvm_of s) sub en"
    and func: "\<And>t. tox_func t = Done ((p, e, x), t)"
    and succ: "\<And>t. code_result en e = SUCCESS \<Longrightarrow> logenv.more t = logenv.more s \<Longrightarrow>
      success_func (new_object_of p) t = Done (b, logenv.more_update (\<lambda>_. z) t)"
    and fail: "code_result en e \<noteq> SUCCESS \<Longrightarrow> b = 0 \<and> z = logenv.more s"
  shows "\<exists>t. with_error_handling_new sub en show_result (\<lambda>p. ret (new_object_of p)) (0 :: jint) success_func
      addr args tox_func s = Done ((b, x), t) \<and> logenv.more t = z \<and>
      pending t = error_throwable sub en e \<and> jvm_of t = jvm_of s"
proof -
  let ?t = "logenv.more_update (\<lambda>_. z) (raise_opt (error_throwable sub en e)
         (log_call 0 addr args (show_result p) (func_names s) (static_funcs s) s))"
  have "with_error_handling_new sub en show_result (\<lambda>p. ret (new_object_of p)) 0 success_func addr args tox_func s =
     Done ((if code_result en e = SUCCESS then b else 0, x), ?t)"
    unfolding with_error_handling_new_def
    by (rule with_error_handling_more [where v = "new_object_of p"])
      (use s func succ fail in \<open>simp_all add: log_entry_open_eq\<close>)
  moreover have "pending (raise_opt exn u) = exn" "jvm_of (raise_opt exn u) = jvm_of u" if "pending u = None"
    for exn and u :: "'z logenv_scheme"
    using that by (cases exn; simp add: raise_opt_def)+
  ultimately show ?thesis using s(2) fail by (intro exI [of _ ?t]) auto
qed

lemma toxNew_run:
  fixes s :: "('tox, 'av) world"
  assumes s: "world_ok makes s" "pending s = None" "vm_ok (jvm_of s)"
    and succ: "\<And>t. code_result tox_err_new_enum e = SUCCESS \<Longrightarrow> logenv.more t = logenv.more s \<Longrightarrow>
      toxNew_success (new_object_of p) t = Done (b, logenv.more_update (\<lambda>_. z) t)"
    and fail: "code_result tox_err_new_enum e \<noteq> SUCCESS \<Longrightarrow> b = 0 \<and> z = logenv.more s"
  shows "\<exists>t. andThen (with_error_handling_new core_subsystem tox_err_new_enum show_result
      (\<lambda>p. ret (new_object_of p)) 0 toxNew_success addr args (ret (p, e, ()))) (\<lambda>(n, _). ret n) s =
        Done (b, t) \<and> logenv.more t = z \<and> pending t = error_throwable core_subsystem tox_err_new_enum e"
proof -
  have "log_ok s" "vm_has_errors (jvm_of s) core_subsystem tox_err_new_enum"
    using s(1,3) by (simp_all add: world_ok_def vm_ok_def)
  note s' = this(1) s(2) this(2)
  have "\<exists>t. with_error_handling_new core_subsystem tox_err_new_enum show_result (\<lambda>p. ret (new_object_of p)) 0
      toxNew_success addr args (ret (p, e, ())) s = Done ((b, ()), t) \<and> logenv.more t = z \<and>
      pending t = error_throwable core_subsystem tox_err_new_enum e \<and> jvm_of t = jvm_of s"
    by (rule constructor_effect [OF s']) (use succ fail in simp_all)
  then show ?thesis by (auto simp: andThen_def)
qed

lemma toxNew_new:
  fixes s :: "('tox, 'av) world" and tox_new :: "'tox tox_new_fun"
  assumes "world_ok makes s" and "pending s = None" and "vm_ok (jvm_of s)" and "roomy s"
    and "unat proxyType < 3" and "proxyType \<noteq> 0 \<longrightarrow> valid_port proxyPort"
    and "valid_port startPort" and "valid_port endPort" and "valid_port tcpPort"
    and "unat saveDataType < 3"
    and "run_c tox_new (java_options ipv6 udp discovery proxyType host proxyPort startPort endPort tcpPort
      saveDataType saveData) = (Some (a, st), TOX_ERR_NEW_OK)" and "a \<noteq> 0"
  shows "\<exists>x t. toxNew True tox_new ipv6 udp discovery proxyType host proxyPort startPort endPort tcpPort
      saveDataType saveData s = Done (new_number (core_manager s), t) \<and>
    obj_addr x = a \<and> obj_state x = st \<and> (\<forall>cb. cb \<in> set (obj_callbacks x)) \<and>
    slot_of (core_manager s) (new_number (core_manager s)) \<in> {Unused, Finalized} \<and>
    slot_of (core_manager t) = (slot_of (core_manager s))(new_number (core_manager s) := Live x no_events) \<and>
    av_manager t = av_manager s \<and> pending t = None"
proof -
  have ok: "code_result tox_err_new_enum TOX_ERR_NEW_OK = SUCCESS"
    by (simp add: tox_err_new_enum_def handling_defs)
  let ?x = "\<lparr>obj_addr = a, obj_callbacks = [], obj_state = st\<rparr> :: 'tox tox"
  have m: "manager_safe core_object_ok (core_manager s)" using world_ok_managers(1) [OF assms(1)] .
  obtain cbs m' where new: "\<And>t. logenv.more t = logenv.more s \<Longrightarrow> toxNew_success (Some ?x) t =
        Done (new_number (core_manager s), logenv.more_update (\<lambda>_. put_core m' (logenv.more s)) t)"
      "slot_of m' = (slot_of (core_manager s))
        (new_number (core_manager s) := Live (?x\<lparr>obj_callbacks := cbs\<rparr>) no_events)"
      "\<And>cb. cb \<in> set cbs"
    by (rule toxNew_success_run [OF m assms(4), of ?x]) (simp add: assms(12), rule that)
  have "\<exists>t. toxNew True tox_new ipv6 udp discovery proxyType host proxyPort startPort endPort tcpPort
      saveDataType saveData s = Done (new_number (core_manager s), t) \<and>
      logenv.more t = put_core m' (logenv.more s) \<and>
      pending t = error_throwable core_subsystem tox_err_new_enum TOX_ERR_NEW_OK"
    unfolding toxNew_converted [OF assms(5-10,2) refl assms(11)]
    by (rule toxNew_run [OF assms(1-3)]) (simp_all add: ok new(1) new_object_of_def)
  then obtain t where t: "toxNew True tox_new ipv6 udp discovery proxyType host proxyPort startPort endPort
      tcpPort saveDataType saveData s = Done (new_number (core_manager s), t)"
      "logenv.more t = put_core m' (logenv.more s)" "pending t = None"
    by (auto simp: ok)
  have "core_manager t = m'" "av_manager t = av_manager s"
    using managers_more [of t "s\<lparr>core_manager := m'\<rparr>"] t(2) by (simp_all add: put_core_more)
  moreover have "slot_of (core_manager s) (new_number (core_manager s)) \<in> {Unused, Finalized}"
    using m assms(4) add_refines [of "core_manager s" ?x no_events s]
    by (auto simp: manager_safe_def roomy_def has_room_def)
  ultimately show ?thesis using t new(2,3) by (intro exI [of _ "?x\<lparr>obj_callbacks := cbs\<rparr>"] exI [of _ t]) simp
qed

text \<open>
  C11. \<open>toxNew\<close> with valid arguments: the object that toxcore created is stored under a number that
  no live or killed instance has, with every callback registered and an empty queue of
  events, and that number is returned; no other instance changes and no exception is raised.
\<close>

theorem toxNew_creates_instance:
  fixes s :: "('tox, 'av) world" and tox_new :: "'tox tox_new_fun"
  assumes "world_ok makes s" and "pending s = None" and "vm_ok (jvm_of s)" and "roomy s"
    and "unat proxyType < 3" and "proxyType \<noteq> 0 \<longrightarrow> valid_port proxyPort"
    and "valid_port startPort" and "valid_port endPort" and "valid_port tcpPort"
    and "unat saveDataType < 3"
    and "run_c tox_new (java_options ipv6 udp discovery proxyType host proxyPort startPort endPort tcpPort
      saveDataType saveData) = (Some (a, st), TOX_ERR_NEW_OK)" and "a \<noteq> 0"
  shows "\<exists>x t. toxNew True tox_new ipv6 udp discovery proxyType host proxyPort startPort endPort tcpPort
      saveDataType saveData s = Done (new_number (core_manager s), t) \<and>
    obj_addr x = a \<and> obj_state x = st \<and> (\<forall>cb. cb \<in> set (obj_callbacks x)) \<and>
    slot_of (core_manager s) (new_number (core_manager s)) \<in> {Unused, Finalized} \<and>
    slot_of (core_manager t) = (slot_of (core_manager s))(new_number (core_manager s) := Live x no_events) \<and>
    av_manager t = av_manager s \<and> pending t = None"
  by (rule toxNew_new [OF assms])

theorem toxNew_creates_instance_witness:
  "\<exists>x t. toxNew True sample_new 1 1 1 0 None 0 33445 33545 0 0 None sample_start = Done (1, t) \<and>
     obj_addr x = 4096 \<and> slot_of (core_manager t) 1 = Live x no_events \<and> pending t = None"
proof -
  have "run_c sample_new (java_options 1 1 1 0 None 0 33445 33545 0 0 None) = (Some (4096, 0), TOX_ERR_NEW_OK)"
    by (simp add: sample_new_def java_options_def)
  from toxNew_creates_instance [OF sample_start_ok _ _ sample_ports _ this] sample_start_slots
  show ?thesis by auto
qed

text \<open>
  C12. \<open>toxNew\<close> when toxcore fails: null is returned, the exception of the error code is raised, an
  unknown code is reported as \<open>IllegalStateException\<close>, and no instance appears.
\<close>

theorem toxNew_reports_error:
  fixes s :: "('tox, 'av) world" and tox_new :: "'tox tox_new_fun"
  assumes "world_ok makes s" and "pending s = None" and "vm_ok (jvm_of s)"
    and "unat proxyType < 3" and "proxyType \<noteq> 0 \<longrightarrow> valid_port proxyPort"
    and "valid_port startPort" and "valid_port endPort" and "valid_port tcpPort"
    and "unat saveDataType < 3"
    and "run_c tox_new (java_options ipv6 udp discovery proxyType host proxyPort startPort endPort tcpPort
      saveDataType saveData) = (p, e)" and "e \<noteq> TOX_ERR_NEW_OK"
  shows "\<exists>t. toxNew True tox_new ipv6 udp discovery proxyType host proxyPort startPort endPort tcpPort
      saveDataType saveData s = Done (0, t) \<and>
    core_manager t = core_manager s \<and> av_manager t = av_manager s \<and>
    pending t = Some (case e of
        TOX_ERR_NEW_OTHER v \<Rightarrow> illegal_state v ''Unknown error code''
      | _ \<Rightarrow> tox_throwable ''im/tox/tox4j/core/exceptions/ToxNewException''
               (the (err_name (handle_TOX_ERR_NEW e))))"
proof -
  have e: "code_result tox_err_new_enum e \<noteq> SUCCESS"
    using assms(11) by (cases e) (simp_all add: tox_err_new_enum_def handling_defs)
  have cls: "error_class_name core_subsystem tox_err_new_enum = ''im/tox/tox4j/core/exceptions/ToxNewException''"
    by code_simp
  have "error_throwable core_subsystem tox_err_new_enum e = Some (case e of
        TOX_ERR_NEW_OTHER v \<Rightarrow> illegal_state v ''Unknown error code''
      | _ \<Rightarrow> tox_throwable ''im/tox/tox4j/core/exceptions/ToxNewException''
               (the (err_name (handle_TOX_ERR_NEW e))))"
    unfolding error_throwable_def cls [symmetric]
    using assms(11) by (cases e) (simp_all add: tox_err_new_enum_def handling_defs)
  moreover have "\<exists>t. toxNew True tox_new ipv6 udp discovery proxyType host proxyPort startPort endPort
      tcpPort saveDataType saveData s = Done (0, t) \<and> logenv.more t = logenv.more s \<and>
      pending t = error_throwable core_subsystem tox_err_new_enum e"
    unfolding toxNew_converted [OF assms(4-9,2) refl assms(10)]
    by (rule toxNew_run [OF assms(1-3)]) (use e in simp_all)
  ultimately show ?thesis using managers_more [of _ s] by metis
qed

theorem toxNew_reports_error_witness:
  "\<exists>t. toxNew True sample_new 1 0 1 0 None 0 33445 33545 0 0 None sample_start = Done (0, t) \<and>
     core_manager t = empty_manager \<and>
     pending t = Some (tox_throwable ''im/tox/tox4j/core/exceptions/ToxNewException'' ''PORT_ALLOC'')"
proof -
  have "run_c sample_new (java_options 1 0 1 0 None 0 33445 33545 0 0 None) = (None, TOX_ERR_NEW_PORT_ALLOC)"
    by (simp add: sample_new_def java_options_def)
  from toxNew_reports_error [OF sample_start_ok(1-3) _ _ sample_ports _ this] sample_start_slots
  show ?thesis by (auto simp: handling_defs)
qed

section \<open>Calls on an instance\<close>

text \<open>The entry that a call leaves in the log, if any.\<close>

definition call_entry :: "jint \<Rightarrow> uintptr \<Rightarrow> log_arg list \<Rightarrow> log_arg \<Rightarrow> 'z logenv_scheme \<Rightarrow> log_entry" where
  "call_entry n f args res s =
     closed_entry (clock s (ticks s)) (clock s (Suc (ticks s)))
       (arg_value res (set_names (func_names s) (static_funcs s)
         ((remember_args args s)\<lparr>ticks := Suc (Suc (ticks s))\<rparr>)))
       (opened_entry n f args s)"

definition is_logged :: "uintptr \<Rightarrow> 'z logenv_scheme \<Rightarrow> bool" where
  "is_logged f s \<longleftrightarrow> has_log_room s \<and> func_name (func_names s) f \<notin> set (log_filters (jni_log_of s))"

lemma remember_args_log [simp]: "jni_log_of (remember_args args s) = jni_log_of s"
proof (induction args arbitrary: s)
  case (Cons a args)
  then show ?case by (cases a) simp_all
qed simp

lemma log_call_entries:
  "map snd (log_entries (jni_log_of (log_call n f args res (func_names s) (static_funcs s) s))) =
     map snd (log_entries (jni_log_of s)) @ (if is_logged f s then [call_entry n f args res s] else [])"
  by (cases res) (simp_all add: log_call_def Let_def is_logged_def call_entry_def push_entry_def set_log_def
      set_names_def opened_entry_def blank_entry_def)

lemma core_prog_effect:
  fixes s :: "('tox, 'av) world" and success_func :: "'r \<Rightarrow> ('tox, 'av, 'b) native"
  assumes s: "world_ok makes s" "pending s = None" "vm_ok (jvm_of s)"
    and errors: "vm_has_errors (jvm_of s) core_subsystem en"
    and live: "slot_of (core_manager s) n = Live x ev"
    and f: "g (obj_state x) = ret (r, e, st)" and succ: "success_func r = ret b"
  shows "\<exists>t. with_instance_err core_class en show_result ret d success_func n addr args
      (on_state g) s = Done (if code_result en e = SUCCESS then b else d, t) \<and>
    slot_of (core_manager t) = (slot_of (core_manager s))(n := Live (x\<lparr>obj_state := st\<rparr>) ev) \<and>
    av_manager t = av_manager s \<and> pending t = error_throwable core_subsystem en e \<and>
    map snd (log_entries (jni_log_of t)) = map snd (log_entries (jni_log_of s)) @
      (if is_logged addr s
       then [call_entry n addr (Arg_tox (obj_addr x) # args) (show_result r) s] else [])"
proof -
  let ?a = "core.accessed n (x\<lparr>obj_state := st\<rparr>) ev s"
  let ?t = "raise_opt (error_throwable core_subsystem en e)
     (log_call n addr (Arg_tox (obj_addr x) # args) (show_result r) (func_names s) (static_funcs s) ?a)"
  have m: "core.manager_ok s" "call_ready s" "log_ok s"
    using world_ok_core [OF s(1)] world_ok_call_ready [OF s(2,3)] s(1) by (simp_all add: world_ok_def)
  have "with_instance_err core_class en show_result ret d success_func n addr args
      (on_state g) s = Done (if code_result en e = SUCCESS then b else d, ?t)"
    using core.with_instance_err_live [OF m, of en n x ev "on_state g" r e
        "x\<lparr>obj_state := st\<rparr>" ret r success_func b show_result d addr args] errors live
    by (simp add: on_state_def andThen_def f succ)
  moreover have "pending (raise_opt exn u) = exn" if "pending u = None" for exn and u :: "('tox, 'av) world"
    using that by (cases exn) (simp_all add: raise_opt_def)
  moreover have "logenv.more ?t = logenv.more ?a" by simp
  note managers_more [OF this]
  moreover have "slot_of (core_manager ?a) = (slot_of (core_manager s))(n := Live (x\<lparr>obj_state := st\<rparr>) ev)"
    using core.accessed_slots(1) [OF m(1), of n x ev] live by simp
  moreover have "jni_log_of ?a = jni_log_of s" "func_names ?a = func_names s" "static_funcs ?a = static_funcs s"
      "is_logged addr ?a = is_logged addr s" "call_entry n addr as res ?a = call_entry n addr as res s"
      "pending ?a = pending s" for as res
    unfolding core.accessed_def core.lput_more is_logged_def call_entry_def by simp_all
  moreover have "av_manager ?a = av_manager s" by (simp add: core.accessed_def)
  ultimately show ?thesis
    using s(2) log_call_entries [of n addr _ _ ?a] by (intro exI [of _ ?t]) simp
qed

lemma core_err_effect:
  fixes s :: "('tox, 'av) world" and success_func :: "'r \<Rightarrow> ('tox, 'av, 'b) native"
  assumes s: "world_ok makes s" "pending s = None" "vm_ok (jvm_of s)"
    and errors: "vm_has_errors (jvm_of s) core_subsystem en"
    and live: "slot_of (core_manager s) n = Live x ev"
    and f: "g (obj_state x) = (r, e, st)" and succ: "success_func r = ret b"
  shows "\<exists>t. with_instance_err core_class en show_result ret d success_func n addr args
      (on_state (\<lambda>st. ret (g st))) s = Done (if code_result en e = SUCCESS then b else d, t) \<and>
    slot_of (core_manager t) = (slot_of (core_manager s))(n := Live (x\<lparr>obj_state := st\<rparr>) ev) \<and>
    av_manager t = av_manager s \<and> pending t = error_throwable core_subsystem en e \<and>
    map snd (log_entries (jni_log_of t)) = map snd (log_entries (jni_log_of s)) @
      (if is_logged addr s
       then [call_entry n addr (Arg_tox (obj_addr x) # args) (show_result r) s] else [])"
  by (rule core_prog_effect [where g = "\<lambda>st. ret (g st)", OF s errors live]) (simp_all add: f succ)

text \<open>
  C15. \<open>toxFriendDelete\<close> on a live instance, in full: the toxcore function is applied once to the
  state of that object and of no other, the exception of its error code is raised or none,
  and one entry with the name of the function, the instance, the friend number and the result
  is appended to the log, unless the log is full or the name is filtered.
\<close>

theorem toxFriendDelete_effect:
  fixes s :: "('tox, 'av) world"
  assumes "world_ok makes s" and "pending s = None" and "vm_ok (jvm_of s)"
    and "slot_of (core_manager s) n = Live x ev"
    and "run_c tox_friend_delete friend (obj_state x) = (r, e, st)"
  shows "\<exists>t entry. toxFriendDelete tox_friend_delete n friend s = Done ((), t) \<and>
    slot_of (core_manager t) = (slot_of (core_manager s))(n := Live (x\<lparr>obj_state := st\<rparr>) ev) \<and>
    av_manager t = av_manager s \<and>
    pending t = error_throwable core_subsystem tox_err_friend_delete_enum e \<and>
    map snd (log_entries (jni_log_of t)) = map snd (log_entries (jni_log_of s)) @
      (if has_log_room s \<and>
          func_name (func_names s) (addr_of tox_friend_delete) \<notin> set (log_filters (jni_log_of s))
       then [entry] else []) \<and>
    entry_name entry = func_name (func_names s) (addr_of tox_friend_delete) \<and>
    entry_instance entry = n \<and> tl (entry_arguments entry) = [print_integer (sint friend)] \<and>
    entry_result entry = Some (print_integer (if r then 1 else 0))"
proof -
  have "vm_has_errors (jvm_of s) core_subsystem tox_err_friend_delete_enum"
    using assms(3) by (simp add: vm_ok_def)
  note effect = core_err_effect [OF assms(1-3) this assms(4), where g = "run_c tox_friend_delete friend",
      OF assms(5), where success_func = "\<lambda>_. ret ()", OF refl,
      of show_bool _ "addr_of tox_friend_delete" "[log_sint friend]"]
  let ?e = "call_entry n (addr_of tox_friend_delete) [Arg_tox (obj_addr x), log_sint friend] (show_bool r) s"
  have "entry_name ?e = func_name (func_names s) (addr_of tox_friend_delete)" "entry_instance ?e = n"
      "tl (entry_arguments ?e) = [print_integer (sint friend)]"
      "entry_result ?e = Some (print_integer (if r then 1 else 0))"
    by (simp_all add: call_entry_def closed_entry_def record_times_def opened_entry_def
        arg_value_def show_bool_def of_bool_int_def)
  moreover obtain t where "toxFriendDelete tox_friend_delete n friend s = Done ((), t)"
      "slot_of (core_manager t) = (slot_of (core_manager s))(n := Live (x\<lparr>obj_state := st\<rparr>) ev)"
      "av_manager t = av_manager s" "pending t = error_throwable core_subsystem tox_err_friend_delete_enum e"
      "map snd (log_entries (jni_log_of t)) = map snd (log_entries (jni_log_of s)) @
        (if is_logged (addr_of tox_friend_delete) s then [?e] else [])"
    using effect unfolding toxFriendDelete_def with_instance_ign_def by auto
  ultimately show ?thesis unfolding is_logged_def by (intro exI [of _ t] exI [of _ ?e]) simp
qed

text \<open>A toxcore that knows the friends below its state.\<close>

definition sample_friend_delete :: "(uint32 \<Rightarrow> (nat, bool, TOX_ERR_FRIEND_DELETE) tox_err) cfun" where
  "sample_friend_delete = (sample_addr ''tox_friend_delete'', \<lambda>fn st.
     if unat fn < st then (True, TOX_ERR_FRIEND_DELETE_OK, st - 1)
     else (False, TOX_ERR_FRIEND_DELETE_FRIEND_NOT_FOUND, st))"

theorem toxFriendDelete_effect_witness:
  "\<exists>t. toxFriendDelete sample_friend_delete 1 5 sample_live = Done ((), t) \<and>
     pending t = Some (tox_throwable
       ''im/tox/tox4j/core/exceptions/ToxFriendDeleteException'' ''FRIEND_NOT_FOUND'') \<and>
     slot_of (core_manager t) 1 = Live sample_object no_events"
proof -
  have "run_c sample_friend_delete 5 (obj_state sample_object) =
      (False, TOX_ERR_FRIEND_DELETE_FRIEND_NOT_FOUND, obj_state sample_object)"
    by (simp add: sample_friend_delete_def sample_object_def)
  moreover have "error_class_name core_subsystem tox_err_friend_delete_enum =
      ''im/tox/tox4j/core/exceptions/ToxFriendDeleteException''" by code_simp
  then have "error_throwable core_subsystem tox_err_friend_delete_enum TOX_ERR_FRIEND_DELETE_FRIEND_NOT_FOUND =
      Some (tox_throwable ''im/tox/tox4j/core/exceptions/ToxFriendDeleteException'' ''FRIEND_NOT_FOUND'')"
    by (simp add: error_throwable_def tox_err_friend_delete_enum_def handling_defs)
  ultimately show ?thesis
    using toxFriendDelete_effect [OF sample_live_ok(1-3), of 1 sample_object no_events
        sample_friend_delete 5 False TOX_ERR_FRIEND_DELETE_FRIEND_NOT_FOUND] sample_live_slots [of 1]
    by auto
qed

text \<open>
  C16. \<open>toxFriendSendMessage\<close> passes the friend number, the type and the bytes of the message to
  toxcore unchanged, with their number, and returns the message id when toxcore reports
  success and 0 with an exception when it does not.
\<close>

theorem toxFriendSendMessage_effect:
  fixes s :: "('tox, 'av) world"
  assumes "world_ok makes s" and "pending s = None" and "vm_ok (jvm_of s)"
    and "slot_of (core_manager s) n = Live x ev"
    and "ty = (if messageType = 0 then TOX_MESSAGE_TYPE_NORMAL else TOX_MESSAGE_TYPE_ACTION)"
    and "messageType \<in> {0, 1}"
    and "run_c tox_friend_send_message friend ty message (array_len message) (obj_state x) = (r, e, st)"
  shows "\<exists>t. toxFriendSendMessage tox_friend_send_message n friend messageType timeDelta message s =
      Done (if e = TOX_ERR_FRIEND_SEND_MESSAGE_OK then r else 0, t) \<and>
    slot_of (core_manager t) = (slot_of (core_manager s))(n := Live (x\<lparr>obj_state := st\<rparr>) ev) \<and>
    pending t = error_throwable core_subsystem tox_err_friend_send_message_enum e"
proof -
  have vm: "vm_has_errors (jvm_of s) core_subsystem tox_err_friend_send_message_enum"
    using assms(3) by (simp add: vm_ok_def)
  have ty: "unat messageType < 2" "consts_TOX_MESSAGE_TYPE ! unat messageType = ty"
    using assms(5,6) by (auto simp: consts_TOX_MESSAGE_TYPE_def)
  have "code_result tox_err_friend_send_message_enum e = SUCCESS \<longleftrightarrow> e = TOX_ERR_FRIEND_SEND_MESSAGE_OK"
    by (cases e) (simp_all add: tox_err_friend_send_message_enum_def handling_defs)
  with core_err_effect [OF assms(1-3) vm assms(4), where success_func = ret
      and g = "run_c tox_friend_send_message friend ty message (array_len message)", OF assms(7) refl,
      of log_uint 0 "addr_of tox_friend_send_message"
        "[log_sint friend, Arg_enum (print_arg_TOX_MESSAGE_TYPE ty), log_data message (array_len message)]"]
  show ?thesis
    unfolding toxFriendSendMessage_def using ty assms(2) by (auto simp: bind_Done simp del: ret_apply)
qed

text \<open>A toxcore that counts messages and refuses empty ones.\<close>

definition sample_send_message ::
  "(uint32 \<Rightarrow> TOX_MESSAGE_TYPE \<Rightarrow> pointer \<Rightarrow> nat \<Rightarrow> (nat, uint32, TOX_ERR_FRIEND_SEND_MESSAGE) tox_err) cfun" where
  "sample_send_message = (sample_addr ''tox_friend_send_message'', \<lambda>fn ty data len st.
     if len = 0 then (0, TOX_ERR_FRIEND_SEND_MESSAGE_EMPTY, st)
     else (word_of_nat (st + 77), TOX_ERR_FRIEND_SEND_MESSAGE_OK, Suc st))"

theorem toxFriendSendMessage_effect_witness:
  "\<exists>t. toxFriendSendMessage sample_send_message 1 5 1 0 (Some [104, 105]) sample_live = Done (77, t) \<and>
     slot_of (core_manager t) 1 = Live (sample_object\<lparr>obj_state := 1\<rparr>) no_events \<and> pending t = None"
proof -
  have "run_c sample_send_message 5 TOX_MESSAGE_TYPE_ACTION (Some [104, 105]) (array_len (Some [104, 105 :: uint8]))
      (obj_state sample_object) = (77, TOX_ERR_FRIEND_SEND_MESSAGE_OK, 1)"
    by (simp add: sample_send_message_def sample_object_def)
  moreover have "error_throwable core_subsystem tox_err_friend_send_message_enum
      TOX_ERR_FRIEND_SEND_MESSAGE_OK = None"
    by (simp add: error_throwable_def tox_err_friend_send_message_enum_def handling_defs)
  ultimately show ?thesis
    using toxFriendSendMessage_effect [OF sample_live_ok(1-3), of 1 sample_object no_events
        TOX_MESSAGE_TYPE_ACTION 1 sample_send_message 5 "Some [104, 105]" 77
        TOX_ERR_FRIEND_SEND_MESSAGE_OK 1 0] sample_live_slots [of 1]
    by auto
qed

section \<open>A session\<close>

text \<open>Functions of toxcore, toxav and toxencryptsave that read as far as they document.\<close>

definition session_file_send ::
  "(uint32 \<Rightarrow> uint32 \<Rightarrow> uint64 \<Rightarrow> pointer \<Rightarrow> pointer \<Rightarrow> nat \<Rightarrow> (nat, uint32, TOX_ERR_FILE_SEND) tox_ptr) cfun" where
  "session_file_send = (sample_addr ''tox_file_send'', \<lambda>fn kind size i name len st.
     if unat fn \<ge> 10 then Some (0, TOX_ERR_FILE_SEND_FRIEND_NOT_FOUND, st)
     else if at_least TOX_FILE_ID_LENGTH i then Some (3, TOX_ERR_FILE_SEND_OK, Suc st) else None)"

definition session_audio ::
  "(uint32 \<Rightarrow> samples \<Rightarrow> nat \<Rightarrow> uint8 \<Rightarrow> uint32 \<Rightarrow> (nat, bool, TOXAV_ERR_SEND_FRAME) tox_ptr) cfun" where
  "session_audio = (sample_addr ''toxav_audio_send_frame'', \<lambda>fn p k c r st.
     if at_least (k * unat c) p then Some (True, TOXAV_ERR_SEND_FRAME_OK, Suc st) else None)"

definition session_encrypted :: "(pointer \<Rightarrow> bool option) cfun" where
  "session_encrypted = (sample_addr ''tox_is_data_encrypted'', \<lambda>p.
     case p of None \<Rightarrow> Some False
     | Some bytes \<Rightarrow> if length bytes < 80 then None else Some (take 3 bytes = [116, 111, 120]))"

definition session_av_new :: "(nat, nat) toxav_new_fun" where
  "session_av_new = (sample_addr ''toxav_new'', \<lambda>st. (Some (8192, 0), TOXAV_ERR_NEW_OK, st))"

text \<open>Iterations with one event each; serialisers of the names of friends, of calls and of the log.\<close>

definition session_iterate :: "nat iterate_fun" where
  "session_iterate = (sample_addr ''tox_iterate'', \<lambda>st. ([Cb_friend_name 5 (Some [65, 66, 67]) 2], Suc st))"

definition session_av_iterate :: "nat av_iterate_fun" where
  "session_av_iterate = (sample_addr ''toxav_iterate'', \<lambda>st. ([Cb_call 5 True False], Suc st))"

definition session_serialize :: "core_events \<Rightarrow> uint8 list" where
  "session_serialize ev = concat (map (\<lambda>e. case e of FriendName fn bytes \<Rightarrow> ucast fn # bytes) (friend_name ev))"

definition session_av_serialize :: "av_events \<Rightarrow> uint8 list" where
  "session_av_serialize ev = take 1000 (map (\<lambda>_. 1) (av_call ev))"

definition session_log_serialize :: "log_entry list \<Rightarrow> uint8 list" where
  "session_log_serialize es = take 1000 (map (\<lambda>e. word_of_nat (length (entry_name e))) es)"

definition later_calls :: "(((nat, nat) world \<Rightarrow> bool) \<times> ((nat, nat) world, unit) prog) list" where
  "later_calls =
     [(\<lambda>_. True, drop_result (toxFriendSendMessage sample_send_message 1 5 1 0 (Some [104, 105]))),
      (\<lambda>_. True, drop_result (toxFileSend session_file_send 1 5 0 1000 (Some (replicate 32 7)) (Some [65]))),
      (\<lambda>_. True, drop_result (toxavNew session_av_new 1)),
      (av_iterate_fits (\<lambda>_. 0) session_av_serialize session_av_iterate 1,
       drop_result (toxavIterate (\<lambda>_. 0) (\<lambda>_. 9) session_av_serialize session_av_iterate 1)),
      (\<lambda>_. True, toxavAudioSendFrame session_audio 1 5 (Some [1, 2, 3, 4]) 2 2 48000),
      (\<lambda>_. True, toxavKill 1), (\<lambda>_. True, toxavFinalize 1),
      (\<lambda>_. True, drop_result (toxIsDataEncrypted session_encrypted (Some (replicate 90 7)))),
      (\<lambda>_. True, tox4jSetMaxLogSize 100),
      (\<lambda>_. True, toxKill 1),
      (\<lambda>_. True, drop_result (toxIterationInterval (sample_addr ''tox_iteration_interval'', \<lambda>st. 50) 1)),
      (log_fits session_log_serialize, drop_result (tox4jLastLog session_log_serialize)),
      (\<lambda>_. True, toxFinalize 1), (\<lambda>_. True, toxKill 1)]"

definition sample_session :: "(((nat, nat) world \<Rightarrow> bool) \<times> ((nat, nat) world, unit) prog) list" where
  "sample_session =
     (\<lambda>_. True, drop_result (toxNew True sample_new 1 1 1 0 None 0 33445 33545 0 0 None)) #
     (iterate_fits session_serialize session_iterate 1,
      drop_result (toxIterate (\<lambda>_. 9) session_serialize session_iterate 1)) #
     later_calls"

lemma later_calls_ok: "\<forall>(P, m) \<in> set later_calls. jni_method {} P m"
proof -
  have "core_sized {} (drop_result (toxFileSend session_file_send 1 5 0 1000 (Some (replicate 32 7)) (Some [65])) ::
      ((nat, nat) world, unit) prog)"
    unfolding session_file_send_def
    by (intro core_sized.intros) (simp_all add: null_or_def TOX_FILE_ID_LENGTH_def in_bounds_def)
  moreover have "av_method (drop_result (toxavNew session_av_new 1) :: ((nat, nat) world, unit) prog)"
    by (intro av_method.intros) (simp add: session_av_new_def new_ok_def)
  moreover have "av_method (toxavAudioSendFrame session_audio 1 5 (Some [1, 2, 3, 4]) 2 2 48000 ::
      ((nat, nat) world, unit) prog)"
    by (intro av_method.intros)
      (simp_all add: audio_frame_ok_def java_array_def reads_samples_def session_audio_def in_bounds_def)
  moreover have "crypto_method (drop_result (toxIsDataEncrypted session_encrypted (Some (replicate 90 7))) ::
      ((nat, nat) world, unit) prog)"
    unfolding session_encrypted_def
    by (intro crypto_method.intros)
      (auto simp: at_least_def in_bounds_def TOX_PASS_ENCRYPTION_EXTRA_LENGTH_def split: option.splits)
  ultimately show ?thesis
    by (simp add: later_calls_def jni_method.intros core_simple.intros av_method.intros log_method.intros)
qed

lemma later_calls_fit: "calls_fit later_calls s"
proof (rule calls_fit_always)
  have "av_iterate_fits (\<lambda>_. 0) session_av_serialize session_av_iterate 1 s" for s :: "(nat, nat) world"
    unfolding av_iterate_fits_def
  proof (intro allI impI conjI)
    fix ev
    have "length (session_av_serialize ev') < 2 ^ 31" for ev' by (simp add: session_av_serialize_def min_def)
    then show "length (session_av_serialize (fold (append_av_event (\<lambda>_. 0)) cs ev)) < 2 ^ 31" for cs .
  qed (simp add: session_av_iterate_def)
  moreover have "log_fits session_log_serialize s" for s :: "(nat, nat) world"
    by (auto simp: log_fits_def clear_log_def session_log_serialize_def andThen_def split: outcome.splits)
  moreover fix P m and s :: "(nat, nat) world"
  assume "(P, m) \<in> set later_calls"
  ultimately show "P s" by (auto simp: later_calls_def)
qed

lemma sample_session_fits: "calls_fit sample_session sample_start"
proof -
  have "run_c sample_new (java_options 1 1 1 0 None 0 33445 33545 0 0 None) = (Some (4096, 0), TOX_ERR_NEW_OK)"
    by (simp add: sample_new_def java_options_def)
  from toxNew_new [OF sample_start_ok _ _ sample_ports _ this] sample_start_slots obtain x t where
    t: "toxNew True sample_new 1 1 1 0 None 0 33445 33545 0 0 None sample_start = Done (1, t)"
      "slot_of (core_manager t) 1 = Live x no_events"
    by auto
  then have "iterate_fits session_serialize session_iterate 1 (t\<lparr>pending := None\<rparr>)"
    by (simp add: iterate_fits_def session_iterate_def session_serialize_def no_events_def)
  with t(1) later_calls_fit show ?thesis
    by (simp add: sample_session_def drop_result_def andThen_def)
qed


section \<open>Iteration\<close>

text \<open>What toxcore calls back in \<open>k\<close> iterations, and the results of \<open>k\<close> calls of \<open>toxIterate\<close>.\<close>

fun callbacks_of :: "'tox iterate_fun \<Rightarrow> 'tox \<Rightarrow> nat \<Rightarrow> core_callback list list" where
  "callbacks_of f st 0 = []"
| "callbacks_of f st (Suc k) = fst (run_c f st) # callbacks_of f (snd (run_c f st)) k"

fun iterate_times ::
  "(core_callback_name \<Rightarrow> uintptr) \<Rightarrow> (core_events \<Rightarrow> uint8 list) \<Rightarrow> 'tox iterate_fun \<Rightarrow> jint \<Rightarrow> nat \<Rightarrow>
   ('tox, 'av, uint8 jarray list) native" where
  "iterate_times addr serialize f n 0 = ret []"
| "iterate_times addr serialize f n (Suc k) =
     andThen (toxIterate addr serialize f n) (\<lambda>r.
     andThen (iterate_times addr serialize f n k) (\<lambda>rs. ret (r # rs)))"

definition event_count :: "core_events \<Rightarrow> nat" where
  "event_count ev =
     length (self_connection_status ev) + length (friend_name ev) + length (friend_status_message ev) +
     length (friend_status ev) + length (friend_connection_status ev) + length (friend_typing ev) +
     length (friend_read_receipt ev) + length (friend_request ev) + length (friend_message ev) +
     length (file_recv_control ev) + length (file_chunk_request ev) + length (file_recv ev) +
     length (file_recv_chunk ev) + length (friend_lossy_packet ev) + length (friend_lossless_packet ev)"

lemma append_event_no_events: "append_event c ev \<noteq> no_events"
proof -
  have "event_count (append_event c ev) = Suc (event_count ev)" by (cases c) (simp_all add: event_count_def)
  moreover have "event_count no_events = 0" by (simp add: event_count_def no_events_def)
  ultimately show ?thesis by auto
qed

lemma fold_append_no_events: "fold append_event cs no_events = no_events \<longleftrightarrow> cs = []"
proof (cases cs rule: rev_cases)
  case (snoc ds c)
  then show ?thesis using append_event_no_events by simp
qed simp

text \<open>
  C9. Every event reaches Java exactly once and in its iteration: the result of each call of
  \<open>toxIterate\<close> is null if toxcore made no callback in it, and otherwise the serialised queue
  of exactly the callbacks of that iteration, in their order; the queue is empty
  afterwards.
\<close>

theorem iterations_deliver_events:
  fixes s :: "('tox, 'av) world" and tox_iterate :: "'tox iterate_fun"
  assumes "world_ok makes s" and "pending s = None" and "vm_ok (jvm_of s)"
    and "slot_of (core_manager s) n = Live x no_events"
    and "\<forall>cs \<in> set (callbacks_of tox_iterate (obj_state x) k). (\<forall>c \<in> set cs. valid_callback c) \<and>
      length (serialize (fold append_event cs no_events)) < 2 ^ 31"
    and "\<forall>ev. serialize ev = [] \<longleftrightarrow> ev = no_events"
  shows "\<exists>t x'. iterate_times addr serialize tox_iterate n k s =
      Done (map (\<lambda>cs. if cs = [] then None else Some (serialize (fold append_event cs no_events)))
        (callbacks_of tox_iterate (obj_state x) k), t) \<and>
    slot_of (core_manager t) = (slot_of (core_manager s))(n := Live x' no_events) \<and> pending t = None"
  using assms
proof (induction k arbitrary: s x)
  case 0
  then show ?case by (intro exI [of _ s] exI [of _ x]) (simp add: fun_upd_idem)
next
  case (Suc k)
  obtain cs st where cs: "run_c tox_iterate (obj_state x) = (cs, st)" by fastforce
  let ?r = "if cs = [] then None else Some (serialize (fold append_event cs no_events))"
  let ?x = "x\<lparr>obj_state := st\<rparr>"
  have "hand_out serialize no_events (fold append_event cs no_events) ?x = (?r, ?x, no_events)"
    using Suc.prems(6) by (simp add: hand_out_def fold_append_no_events)
  note live = toxIterate_live [OF Suc.prems(1-4) cs _ _ this, of addr]
  obtain t where t: "toxIterate addr serialize tox_iterate n s = Done (?r, t)"
      "slot_of (core_manager t) = (slot_of (core_manager s))(n := Live ?x no_events)"
      "world_ok makes t" "pending t = None" "vm_ok (jvm_of t)"
    using live Suc.prems(3,5) cs by auto
  have "slot_of (core_manager t) n = Live ?x no_events" using t(2) by simp
  moreover have "\<forall>cs \<in> set (callbacks_of tox_iterate (obj_state ?x) k). (\<forall>c \<in> set cs. valid_callback c) \<and>
      length (serialize (fold append_event cs no_events)) < 2 ^ 31"
    using Suc.prems(5) cs by simp
  ultimately obtain u x' where "iterate_times addr serialize tox_iterate n k t =
      Done (map (\<lambda>cs. if cs = [] then None else Some (serialize (fold append_event cs no_events)))
        (callbacks_of tox_iterate (obj_state ?x) k), u)"
      "slot_of (core_manager u) = (slot_of (core_manager t))(n := Live x' no_events)" "pending u = None"
    using Suc.IH [OF t(3-5) _ _ Suc.prems(6)] by blast
  with t(1,2) cs show ?case by (intro exI [of _ u] exI [of _ x']) (simp add: andThen_def)
qed

text \<open>
  A toxcore in which a friend starts typing in every second iteration, and a serialiser
  that counts the events of two kinds.
\<close>

definition sample_iterate :: "nat iterate_fun" where
  "sample_iterate = (sample_addr ''tox_iterate'', \<lambda>st.
     (if even st then [Cb_friend_typing 3 True, Cb_friend_read_receipt 3 9] else [], Suc st))"

definition sample_serialize :: "core_events \<Rightarrow> uint8 list" where
  "sample_serialize ev = (if ev = no_events then [] else
     [word_of_nat (length (friend_typing ev)), word_of_nat (length (friend_read_receipt ev))])"

theorem iterations_deliver_events_witness:
  "\<exists>t. iterate_times (\<lambda>_. 0) sample_serialize sample_iterate 1 3 sample_live =
     Done ([Some [1, 1], None, Some [1, 1]], t) \<and> pending t = None"
proof -
  define typing where "typing = [Cb_friend_typing 3 True, Cb_friend_read_receipt 3 9]"
  have "callbacks_of sample_iterate (obj_state sample_object) 3 = [typing, [], typing]"
    unfolding typing_def
    by (simp add: sample_iterate_def sample_object_def eval_nat_numeral)
  moreover have "sample_serialize (fold append_event typing no_events) = [1, 1]"
    by (simp add: sample_serialize_def no_events_def typing_def)
  moreover have "sample_serialize ev = [] \<longleftrightarrow> ev = no_events" for ev by (simp add: sample_serialize_def)
  moreover have none: "sample_serialize no_events = []" by (simp add: sample_serialize_def)
  moreover have "typing \<noteq> []" "\<forall>c \<in> set typing. valid_callback c" by (simp_all add: typing_def)
  ultimately show ?thesis
    using iterations_deliver_events [OF sample_live_ok(1-3), of 1 sample_object sample_iterate 3
        sample_serialize "\<lambda>_. 0"] sample_live_slots [of 1]
    by (auto simp: none)
qed

end
