(* ===== verification/Argument_Properties.thy ===== *)
theory Argument_Properties
  imports Call_Properties
begin

text \<open>
  What the native methods do with arguments that the Java side should never pass: those
  that the code refuses, with an exception or by ending the process, and those that it does
  not check.
\<close>

section \<open>Refused arguments\<close>

definition port_message :: "jint \<Rightarrow> string" where
  "port_message port =
     (if sint port < 0 then ''ToxCore/lifecycle.cpp:276: Assertion failed: port >= 0''
      else ''ToxCore/lifecycle.cpp:277: Assertion failed: port <= 65535'')"

lemma uint16_refused:
  "\<not> valid_port port \<Longrightarrow> andThen (assert_valid_uint16 port) f s = Fail (Fatal (port_message port))"
  by (auto simp: valid_port_def assert_valid_uint16_def tox4j_assert_def tox4j_fatal_error_def
      andThen_def port_message_def)

text \<open>
  C33. If a port does not fit in 16 bits, \<open>toxNew\<close> ends the process with a fatal error that names the
  assertion, when the options have been allocated and the proxy type is known. The ports are
  looked at in the order proxy, start, end and TCP, that of the proxy only if there is a proxy.
  The error occurs while the options are made, before \<open>tox_new\<close> is called.
\<close>

theorem toxNew_refuses_ports:
  fixes s :: "('tox, 'av) world"
  assumes "pending s = None" and "unat proxyType < 3"
    and "find (\<lambda>p. \<not> valid_port p)
      ((if proxyType = 0 then [] else [proxyPort]) @ [startPort, endPort, tcpPort]) = Some port"
  shows "toxNew_options ipv6 udp discovery proxyType host proxyPort startPort endPort tcpPort
      saveDataType saveData s = Fail (Fatal (port_message port)) \<and>
    toxNew True tox_new ipv6 udp discovery proxyType host proxyPort startPort endPort tcpPort
      saveDataType saveData s = Fail (Fatal (port_message port))"
proof -
  let ?proxy = "if consts_TOX_PROXY_TYPE ! unat proxyType \<noteq> TOX_PROXY_TYPE_NONE
    then assert_valid_uint16 proxyPort else ret ()"
  have none: "consts_TOX_PROXY_TYPE ! unat proxyType = TOX_PROXY_TYPE_NONE \<longleftrightarrow> proxyType = 0"
    using assms(2) by (auto simp: consts_TOX_PROXY_TYPE_def less_Suc_eq numeral_3_eq_3 word_unat_eq_iff)
  have pass: "andThen (assert_valid_uint16 p) f s = f () s" if "valid_port p" for p
      and f :: "unit \<Rightarrow> ('tox, 'av, tox_options) native"
    using that assms(1) by (simp add: valid_port_def bind_Done)
  have proxy: "andThen ?proxy f s =
      (if proxyType = 0 \<or> valid_port proxyPort then f () s else Fail (Fatal (port_message proxyPort)))"
    for f :: "unit \<Rightarrow> ('tox, 'av, tox_options) native"
    using pass [of proxyPort f] uint16_refused [of proxyPort f s] by (simp add: none)
  have "toxNew_options ipv6 udp discovery proxyType host proxyPort startPort endPort tcpPort
      saveDataType saveData s = Fail (Fatal (port_message port))"
    unfolding toxNew_options_def using assms
    by (simp add: bind_Done proxy) (auto simp: pass uint16_refused split: if_splits)
  then show ?thesis by (simp add: toxNew_def andThen_def)
qed

theorem toxNew_refuses_ports_witness:
  "toxNew True sample_new 1 1 1 2 (Some ''localhost'') (- 10) 33445 33545 0 0 None sample_start =
     Fail (Fatal ''ToxCore/lifecycle.cpp:276: Assertion failed: port >= 0'') \<and>
   toxNew True sample_new 1 1 1 2 (Some ''localhost'') 65536 33445 33545 0 0 None sample_start =
     Fail (Fatal ''ToxCore/lifecycle.cpp:277: Assertion failed: port <= 65535'')"
  using toxNew_refuses_ports [of sample_start 2 "- 10" 33445 33545 0 "- 10" 1 1 1 "Some ''localhost''" 0 None sample_new]
    toxNew_refuses_ports [of sample_start 2 65536 33445 33545 0 65536 1 1 1 "Some ''localhost''" 0 None sample_new]
  by (simp add: sample_start_fields valid_port_def port_message_def)



section \<open>Unchecked arguments\<close>

text \<open>A call that fails inside the scope of an instance and of a log entry.\<close>

lemma print_result_fails: "(\<And>t. func t = Fail e) \<Longrightarrow> print_result ep sr func s = Fail e"
  by (cases ep) (simp_all add: print_result_def andThen_def clock_now_def)

lemma core_scope_fails:
  fixes s :: "('tox, 'av) world"
  assumes "world_ok makes s" and "pending s = None" and "vm_ok (jvm_of s)"
    and "slot_of (core_manager s) n = Live x ev" and "func x ev (core_locked n s) = Fail e"
  shows "with_instance core_lens d n func s = Fail e"
  using core.with_instance_live [of s n x ev d func] world_ok_core [OF assms(1)]
    world_ok_call_ready [OF assms(2,3)] assms(4,5)
  by (simp add: andThen_def core_locked_def)

lemma core_err_fails:
  fixes s :: "('tox, 'av) world"
  assumes s: "world_ok makes s" "pending s = None" "vm_ok (jvm_of s)"
    and live: "slot_of (core_manager s) n = Live x ev" and f: "\<And>t. tox_func x t = Fail e"
  shows "with_instance_err core_class en show_result to_java d success_func n addr args tox_func s = Fail e"
proof -
  have "log_ok (core_locked n s)" using s(1) by (simp add: world_ok_def core_locked_def log_ok_def)
  from instance_log_entry_open_eq [OF this, of n addr "Arg_tox (obj_addr x) # args"]
  obtain ep t where "instance_log_entry_open n addr (Arg_tox (obj_addr x) # args) (core_locked n s) = Done (ep, t)"
    by (auto split: if_splits)
  moreover have "print_result ep (\<lambda>(r, _). show_result r) (tox_func x) t = Fail e"
    by (rule print_result_fails) (rule f)
  ultimately show ?thesis
    unfolding with_instance_err_def class_simps
    by (intro core_scope_fails [OF s live])
      (simp add: with_log_entry_def with_error_handling_def andThen_def)
qed

text \<open>
  C39. \<open>toxFileSend\<close> on a live instance passes the friend number, the kind, the file id and the file
  name to toxcore as they are, the size as \<open>-1\<close> if it is negative. The length of the id is
  neither checked nor passed on: toxcore gets an id of any length, where it expects 32 bytes
  or null. Its result decides: the file number or 0 with the exception of the error code and
  the new state of the object, or undefined behaviour if it reads past the end of the id.
\<close>

theorem toxFileSend_any_id:
  fixes s :: "('tox, 'av) world" and fileId :: "uint8 jarray"
  assumes "world_ok makes s" and "pending s = None" and "vm_ok (jvm_of s)"
    and "slot_of (core_manager s) n = Live x ev"
  shows "case run_c tox_file_send friend kind (if sint fileSize < 0 then - 1 else fileSize)
        fileId filename (array_len filename) (obj_state x) of
      Some (r, e, st) \<Rightarrow> \<exists>t. toxFileSend tox_file_send n friend kind fileSize fileId filename s =
          Done (if e = TOX_ERR_FILE_SEND_OK then r else 0, t) \<and>
        slot_of (core_manager t) = (slot_of (core_manager s))(n := Live (x\<lparr>obj_state := st\<rparr>) ev) \<and>
        av_manager t = av_manager s \<and> pending t = error_throwable core_subsystem tox_err_file_send_enum e
    | None \<Rightarrow> toxFileSend tox_file_send n friend kind fileSize fileId filename s =
        Fail (UB ''access outside of an array'')"
proof -
  let ?call = "\<lambda>tox. call_c (run_c tox_file_send friend kind (file_size_arg fileSize)
    fileId filename (array_len filename) tox) :: ('tox, 'av, uint32 \<times> TOX_ERR_FILE_SEND \<times> 'tox) native"
  let ?args = "[log_sint friend, log_sint kind, log_sint (file_size_arg fileSize),
    Arg_bytes fileId, log_data filename (array_len filename)]"
  have vm: "vm_has_errors (jvm_of s) core_subsystem tox_err_file_send_enum"
    using assms(3) by (simp add: vm_ok_def)
  have code: "code_result tox_err_file_send_enum e = SUCCESS \<longleftrightarrow> e = TOX_ERR_FILE_SEND_OK" for e
    by (cases e) (simp_all add: tox_err_file_send_enum_def handling_defs)
  have run: "toxFileSend tox_file_send n friend kind fileSize fileId filename s =
      with_instance_err core_class tox_err_file_send_enum (\<lambda>r. log_uint r) ret 0 ret n (addr_of tox_file_send)
        ?args (on_state ?call) s"
    unfolding toxFileSend_def using assms(2) by (simp add: bind_Done del: ret_apply)
  show ?thesis
  proof (cases "run_c tox_file_send friend kind (file_size_arg fileSize) fileId filename
      (array_len filename) (obj_state x)")
    case None
    then have "on_state ?call x t = Fail (UB ''access outside of an array'')" for t
      by (simp add: on_state_def andThen_def)
    from None core_err_fails [where tox_func = "on_state ?call", OF assms(1-4) this] show ?thesis
      by (simp only: run file_size_arg_def [symmetric] option.case)
  next
    case (Some q)
    obtain r e st where q: "q = (r, e, st)" by (cases q)
    have "?call (obj_state x) = ret (r, e, st)" by (simp add: Some q del: ret_apply)
    from core_prog_effect [where g = ?call and success_func = ret, OF assms(1-3) vm assms(4) this refl,
        of log_uint 0 "addr_of tox_file_send" ?args] Some show ?thesis
      by (auto simp: run code q file_size_arg_def simp del: ret_apply)
  qed
qed

text \<open>The sample toxcore reads the id of a file for a friend it knows, and only then.\<close>

theorem toxFileSend_any_id_witness:
  "toxFileSend session_file_send 1 5 0 1000 (Some [1, 2, 3]) (Some [65]) sample_live =
     Fail (UB ''access outside of an array'') \<and>
   (\<exists>t. toxFileSend session_file_send 1 50 0 1000 (Some []) (Some [65]) sample_live = Done (0, t) \<and>
     pending t = Some (tox_throwable ''im/tox/tox4j/core/exceptions/ToxFileSendException'' ''FRIEND_NOT_FOUND''))"
proof -
  have live: "slot_of (core_manager sample_live) 1 = Live sample_object no_events"
    by (simp add: sample_live_slots)
  have "error_class_name core_subsystem tox_err_file_send_enum =
      ''im/tox/tox4j/core/exceptions/ToxFileSendException''" by code_simp
  then have "error_throwable core_subsystem tox_err_file_send_enum TOX_ERR_FILE_SEND_FRIEND_NOT_FOUND =
      Some (tox_throwable ''im/tox/tox4j/core/exceptions/ToxFileSendException'' ''FRIEND_NOT_FOUND'')"
    by (simp add: error_throwable_def tox_err_file_send_enum_def handling_defs)
  with toxFileSend_any_id [OF sample_live_ok(1-3) live, of session_file_send 5 0 1000 "Some [1, 2, 3]" "Some [65]"]
    toxFileSend_any_id [OF sample_live_ok(1-3) live, of session_file_send 50 0 1000 "Some []" "Some [65]"]
  show ?thesis by (auto simp: session_file_send_def at_least_def TOX_FILE_ID_LENGTH_def)
qed

text \<open>
  \<open>invokeFriendRequest\<close> does not check the length of the public key either: 32 bytes are
  copied into the event, past the end of a shorter array.
\<close>

theorem invokeFriendRequest_short_key:
  fixes s :: "('tox, 'av) world"
  assumes "world_ok makes s" and "pending s = None" and "vm_ok (jvm_of s)"
    and "slot_of (core_manager s) n = Live x ev" and "length key < 32"
  shows "invokeFriendRequest n (Some key) timeDelta message s = Fail (UB ''read past the end of an array'')"
proof -
  have "obj_addr x \<noteq> 0"
    using world_ok_managers(1) [OF assms(1)] assms(4)
    by (auto simp: manager_safe_def objects_ok_def core_object_ok_def)
  then show ?thesis
    unfolding invokeFriendRequest_def invoke_on_def using assms(2,5)
    by (intro core_scope_fails [OF assms(1-4)])
      (simp add: with_bytes_def andThen_def core_locked_def fromJavaArray_Done array_size_Done
        tox4j_friend_request_cb_def set_bytes_def TOX_PUBLIC_KEY_SIZE_def)
qed

theorem invokeFriendRequest_short_key_witness:
  "invokeFriendRequest 1 (Some [1, 2, 3]) 0 (Some [65]) sample_live = Fail (UB ''read past the end of an array'')"
  using invokeFriendRequest_short_key [OF sample_live_ok(1-3), of 1 sample_object no_events "[1, 2, 3]"]
    sample_live_slots [of 1] by simp

text \<open>
  \<open>toxavAudioSendFrame\<close> multiplies the number of samples by the number of channels as
  \<open>int\<close>: with values that pass all its assertions the product can overflow, which is undefined
  behaviour, whatever the instance number and the array.
\<close>

theorem audio_size_overflow:
  fixes s :: "('tox, 'av) world"
  assumes "pending s = None" and "0 \<le> sint sampleCount" and "0 \<le> sint channels" and "sint channels \<le> 255"
    and "0 \<le> sint samplingRate" and "sint sampleCount * sint channels \<ge> 2 ^ 31"
  shows "toxavAudioSendFrame f n friend pcm sampleCount channels samplingRate s =
    Fail (UB ''signed integer overflow'')"
proof -
  have "andThen (int_mult sampleCount channels) f s = Fail (UB ''signed integer overflow'')"
    for f :: "jint \<Rightarrow> ('tox, 'av, unit) native"
    using assms(6) by (simp add: int_mult_def Let_def andThen_def)
  with assms(1-5) show ?thesis by (simp add: toxavAudioSendFrame_def bind_Done)
qed

theorem audio_size_overflow_witness:
  "toxavAudioSendFrame (99, \<lambda>fn p k c r st. Some (True, TOXAV_ERR_SEND_FRAME_OK, st)) 1 5 (Some []) 1073741824 2 48000
     sample_start = Fail (UB ''signed integer overflow'')"
  by (rule audio_size_overflow) (simp_all add: sample_start_fields)

text \<open>The same for the scope of a ToxAV instance.\<close>

lemma av_scope_fails:
  fixes s :: "('tox, 'av) world"
  assumes "world_ok makes s" and "pending s = None" and "vm_ok (jvm_of s)"
    and "slot_of (av_manager s) n = Live x ev" and "func x ev (av_locked n s) = Fail e"
  shows "with_instance av_lens d n func s = Fail e"
  using av.with_instance_live [of s n x ev d func] world_ok_managers(2) [OF assms(1)]
    world_ok_call_ready [OF assms(2,3)] assms(4,5)
  by (simp add: andThen_def av_locked_def manager_safe_def)

lemma av_err_fails:
  fixes s :: "('tox, 'av) world"
  assumes s: "world_ok makes s" "pending s = None" "vm_ok (jvm_of s)"
    and live: "slot_of (av_manager s) n = Live x ev" and f: "\<And>t. tox_func x t = Fail e"
  shows "with_instance_err av_class en show_result to_java d success_func n addr args tox_func s = Fail e"
proof -
  have "log_ok (av_locked n s)" using s(1) by (simp add: world_ok_def av_locked_def log_ok_def)
  from instance_log_entry_open_eq [OF this, of n addr "Arg_toxav (obj_addr x) # args"]
  obtain ep t where "instance_log_entry_open n addr (Arg_toxav (obj_addr x) # args) (av_locked n s) = Done (ep, t)"
    by (auto split: if_splits)
  moreover have "print_result ep (\<lambda>(r, _). show_result r) (tox_func x) t = Fail e"
    by (rule print_result_fails) (rule f)
  ultimately show ?thesis
    unfolding with_instance_err_def class_simps
    by (intro av_scope_fails [OF s live])
      (simp add: with_log_entry_def with_error_handling_def andThen_def)
qed

text \<open>
  \<open>invokeAudioReceiveFrame\<close> divides by the number of channels without checking it: zero
  channels are a division by zero on every live instance.
\<close>

theorem invokeAudioReceiveFrame_no_channels:
  fixes s :: "('tox, 'av) world"
  assumes "world_ok makes s" and "pending s = None" and "vm_ok (jvm_of s)"
    and "slot_of (av_manager s) n = Live x ev"
  shows "invokeAudioReceiveFrame n friend pcm 0 samplingRate s = Fail (UB ''division by zero'')"
proof -
  have "obj_addr x \<noteq> 0"
    using world_ok_managers(2) [OF assms(1)] assms(4)
    by (auto simp: manager_safe_def objects_ok_def av_object_ok_def)
  then show ?thesis
    unfolding invokeAudioReceiveFrame_def av_invoke_on_def using assms(2)
    by (intro av_scope_fails [OF assms(1-4)])
      (simp add: andThen_def av_locked_def fromJavaArray_Done array_size_Done to_size_t_def)
qed

definition sample_av :: "nat toxav" where
  "sample_av = \<lparr>obj_addr = 8192, obj_callbacks = av_callbacks, obj_state = 0\<rparr>"

definition sample_call :: "(nat, nat) world" where
  "sample_call = sample_start\<lparr>av_manager :=
     \<lparr>instances = [\<lparr>object_p = Some sample_av, events_p = Some no_av_events\<rparr>], locks = [False],
      freelist = [], deleted = []\<rparr>\<rparr>"

lemma sample_call_slots:
  "slot_of (av_manager sample_call) n = (if n = 1 then Live sample_av no_av_events else Unused)"
proof -
  have "in_table (av_manager sample_call) n \<longleftrightarrow> n = 1"
    by (auto simp: in_table_def sample_call_def word_unat_eq_iff)
  then show ?thesis by (simp add: slot_of_def sample_call_def instance_index_def)
qed

lemma sample_call_ok:
  "world_ok {} sample_call" "pending sample_call = None" "vm_ok (jvm_of sample_call)"
proof -
  have "manager_inv (av_manager sample_call)" "unlocked (av_manager sample_call)"
    by (simp_all add: sample_call_def manager_inv_def unlocked_def paired_def)
  then have "manager_safe av_object_ok (av_manager sample_call)"
    by (simp add: manager_safe_def objects_ok_def sample_call_slots av_object_ok_def sample_av_def)
  with world_ok_managers(4) [OF sample_start_ok(1), of "av_manager sample_call"]
  show "world_ok {} sample_call" by (simp add: sample_call_def)
qed (simp_all add: sample_call_def sample_start_fields complete_vm_ok)

theorem invokeAudioReceiveFrame_no_channels_witness:
  "invokeAudioReceiveFrame 1 5 (Some [1, 2]) 0 48000 sample_call = Fail (UB ''division by zero'')"
  using invokeAudioReceiveFrame_no_channels [OF sample_call_ok] sample_call_slots [of 1] by simp

text \<open>Negative dimensions: the product of two of them is positive again.\<close>

lemma negative_dimension:
  fixes w :: jint
  assumes "sint w = - int a" and "0 < a" and "a < 32768"
  shows "sint (int_half w) = - int (a div 2)" and "unat (ucast w :: uint16) = 65536 - a"
proof -
  have "(- int a) sdiv 2 = - int (a div 2)" using assms(2) by (simp add: signed_divide_int_def zdiv_int)
  moreover have "sint (word_of_int (- int (a div 2)) :: jint) = - int (a div 2)"
    using assms(3) by (intro sint_word_of_int) simp_all
  ultimately show "sint (int_half w) = - int (a div 2)" by (simp add: int_half_def assms(1))
  have "uint w = (- int a) mod 2 ^ 32" using uint_sint [of w] by (simp add: assms(1) take_bit_eq_mod)
  then have "uint (ucast w :: uint16) = (- int a) mod 65536"
    by (simp add: unsigned_ucast_eq take_bit_eq_mod mod_mod_cancel)
  also have "\<dots> = 65536 - int a" using assms(2,3) by (simp add: zmod_zminus1_eq_if)
  finally show "unat (ucast w :: uint16) = 65536 - a" by (simp add: unat_eq_nat_uint nat_diff_distrib)
qed

lemma int_mult_negative:
  fixes v w :: jint
  assumes "sint v = - int a" and "sint w = - int b" and k: "k = a * b" and "k < 2 ^ 31"
  shows "int_mult v w = ret (word_of_nat k)" and "to_size_t (word_of_nat k) = word_of_nat k"
proof -
  have p: "sint v * sint w = int k" by (simp add: assms(1-3))
  have "int k < int (2 ^ 31)" using assms(4) by (simp only: of_nat_less_iff)
  then have less: "int k < 2 ^ 31" by simp
  then show "int_mult v w = ret (word_of_nat k)" unfolding int_mult_def p Let_def by simp
  have "sint (word_of_int (int k) :: jint) = int k" using less by (intro sint_word_of_int) simp_all
  then show "to_size_t (word_of_nat k) = word_of_nat k" by (subst to_size_t_nat) simp_all
qed

lemma av_prog_effect:
  fixes s :: "('tox, 'av) world" and success_func :: "'r \<Rightarrow> ('tox, 'av, 'b) native"
  assumes s: "world_ok makes s" "pending s = None" "vm_ok (jvm_of s)"
    and errors: "vm_has_errors (jvm_of s) av_subsystem en"
    and live: "slot_of (av_manager s) n = Live x ev"
    and f: "g (obj_state x) = ret (r, e, st)" and succ: "success_func r = ret b"
  shows "\<exists>t. with_instance_err av_class en show_result ret d success_func n addr args (on_state g) s =
      Done (if code_result en e = SUCCESS then b else d, t) \<and>
    slot_of (av_manager t) = (slot_of (av_manager s))(n := Live (x\<lparr>obj_state := st\<rparr>) ev) \<and>
    core_manager t = core_manager s \<and> pending t = error_throwable av_subsystem en e"
proof -
  let ?a = "av.accessed n (x\<lparr>obj_state := st\<rparr>) ev s"
  let ?t = "raise_opt (error_throwable av_subsystem en e)
     (log_call n addr (Arg_toxav (obj_addr x) # args) (show_result r) (func_names s) (static_funcs s) ?a)"
  have m: "av.manager_ok s" "call_ready s" "log_ok s"
    using world_ok_av [OF s(1)] world_ok_call_ready [OF s(2,3)] s(1) by (simp_all add: world_ok_def)
  have "with_instance_err av_class en show_result ret d success_func n addr args (on_state g) s =
      Done (if code_result en e = SUCCESS then b else d, ?t)"
    using av.with_instance_err_live [OF m, of en n x ev "on_state g" r e
        "x\<lparr>obj_state := st\<rparr>" ret r success_func b show_result d addr args] errors live
    by (simp add: on_state_def andThen_def f succ)
  moreover have "pending (raise_opt exn u) = exn" if "pending u = None" for exn and u :: "('tox, 'av) world"
    using that by (cases exn) (simp_all add: raise_opt_def)
  moreover have "logenv.more ?t = logenv.more ?a" by simp
  note managers_more [OF this]
  moreover have "slot_of (av_manager ?a) = (slot_of (av_manager s))(n := Live (x\<lparr>obj_state := st\<rparr>) ev)"
    using av.accessed_slots(1) [OF m(1), of n x ev] live by simp
  moreover have "pending ?a = pending s" "core_manager ?a = core_manager s"
    by (simp_all add: av.accessed_def)
  ultimately show ?thesis using s(2) by (intro exI [of _ ?t]) simp
qed

text \<open>
  C40. \<open>toxavVideoSendFrame\<close> does not check the sign of the dimensions: two negative ones have a
  positive product, so that arrays of that size pass the checks. toxav is then called with the
  dimensions modulo \<open>2\<^sup>1\<^sup>6\<close> and with these arrays, which are smaller than the planes of a frame of
  these dimensions. What toxav makes of them decides: its state and error code, or undefined
  behaviour if it reads past the end of an array.
\<close>

theorem toxavVideoSendFrame_negative:
  fixes s :: "('tox, 'av) world"
  assumes "world_ok makes s" and "pending s = None" and "vm_ok (jvm_of s)"
    and "slot_of (av_manager s) n = Live x ev"
    and "sint width = - int a" and "0 < a" and "a < 32768"
    and "sint height = - int b" and "0 < b" and "b < 32768"
    and "length y = a * b" and "length u = (a div 2) * (b div 2)" and "length v = (a div 2) * (b div 2)"
    and "unat w = 65536 - a" and "unat h = 65536 - b"
  shows "length y < unat w * unat h \<and> length u < unat w div 2 * (unat h div 2) \<and>
    (case run_c f friend w h (Some y) (Some u) (Some v) (obj_state x) of
       Some (r, e, st) \<Rightarrow>
         \<exists>t. toxavVideoSendFrame f n friend width height (Some y) (Some u) (Some v) s = Done ((), t) \<and>
           slot_of (av_manager t) = (slot_of (av_manager s))(n := Live (x\<lparr>obj_state := st\<rparr>) ev) \<and>
           core_manager t = core_manager s \<and>
           pending t = error_throwable av_subsystem toxav_err_send_frame_enum e
     | None \<Rightarrow> toxavVideoSendFrame f n friend width height (Some y) (Some u) (Some v) s =
         Fail (UB ''access outside of an array''))"
proof (intro conjI)
  have dims: "a * b < (65536 - a) * (65536 - b)"
      "(a div 2) * (b div 2) < (65536 - a) div 2 * ((65536 - b) div 2)"
    using assms(6,7,9,10) by (auto intro!: mult_strict_mono)
  then show "length y < unat w * unat h" "length u < unat w div 2 * (unat h div 2)"
    by (simp_all add: assms(11,12,14,15))
  have "a * b < 32768 * 32768" using assms(6,7,9,10) by (intro mult_strict_mono) simp_all
  moreover have "(a div 2) * (b div 2) \<le> a * b" by (intro mult_le_mono) simp_all
  ultimately have small: "a * b < 2 ^ 31" "(a div 2) * (b div 2) < 2 ^ 31" by simp_all
  note wn = negative_dimension [OF assms(5-7)] and hn = negative_dimension [OF assms(8-10)]
  note ySize = int_mult_negative [OF assms(5,8) refl small(1)]
  note uvSize = int_mult_negative [OF wn(1) hn(1) refl small(2)]
  have words: "ucast width = w" "ucast height = h" by (simp_all add: word_unat_eq_iff assms(14,15) wn hn)
  let ?call = "\<lambda>av. call_c (run_c f friend w h (Some y) (Some u) (Some v) av)
    :: ('tox, 'av, bool \<times> TOXAV_ERR_SEND_FRAME \<times> 'av) native"
  let ?args = "[log_sint friend, log_sint width, log_sint height, Arg_bytes (Some y), Arg_bytes (Some u), Arg_bytes (Some v)]"
  have run: "toxavVideoSendFrame f n friend width height (Some y) (Some u) (Some v) s =
      with_instance_ign av_class toxav_err_send_frame_enum n (addr_of f) ?args (on_state ?call) s"
    using assms(2) unfolding toxavVideoSendFrame_def
    by (simp add: bind_Done ySize uvSize assms(11-13) words del: of_nat_mult ret_apply)
  have vm: "vm_has_errors (jvm_of s) av_subsystem toxav_err_send_frame_enum"
    using assms(3) by (simp add: vm_ok_def)
  show "case run_c f friend w h (Some y) (Some u) (Some v) (obj_state x) of
       Some (r, e, st) \<Rightarrow>
         \<exists>t. toxavVideoSendFrame f n friend width height (Some y) (Some u) (Some v) s = Done ((), t) \<and>
           slot_of (av_manager t) = (slot_of (av_manager s))(n := Live (x\<lparr>obj_state := st\<rparr>) ev) \<and>
           core_manager t = core_manager s \<and>
           pending t = error_throwable av_subsystem toxav_err_send_frame_enum e
     | None \<Rightarrow> toxavVideoSendFrame f n friend width height (Some y) (Some u) (Some v) s =
         Fail (UB ''access outside of an array'')"
  proof (cases "run_c f friend w h (Some y) (Some u) (Some v) (obj_state x)")
    case None
    then have "on_state ?call x t = Fail (UB ''access outside of an array'')" for t
      by (simp add: on_state_def andThen_def)
    from None av_err_fails [where tox_func = "on_state ?call", OF assms(1-4) this] show ?thesis
      by (simp only: run with_instance_ign_def option.case)
  next
    case (Some q)
    obtain r e st where q: "q = (r, e, st)" by (cases q)
    have "?call (obj_state x) = ret (r, e, st)" by (simp add: Some q del: ret_apply)
    from av_prog_effect [where g = ?call and success_func = "\<lambda>_. ret ()", OF assms(1-3) vm assms(4) this refl,
        of show_bool "()" "addr_of f" ?args] Some show ?thesis
      by (auto simp: run with_instance_ign_def q)
  qed
qed

text \<open>A toxav that knows no friend and one that reads the first plane.\<close>

definition reading_video ::
  "(uint32 \<Rightarrow> uint16 \<Rightarrow> uint16 \<Rightarrow> pointer \<Rightarrow> pointer \<Rightarrow> pointer \<Rightarrow> (nat, bool, TOXAV_ERR_SEND_FRAME) tox_ptr) cfun" where
  "reading_video = (sample_addr ''toxav_video_send_frame'', \<lambda>fn w h y u v st.
     if fn \<noteq> 5 then Some (False, TOXAV_ERR_SEND_FRAME_FRIEND_NOT_FOUND, st)
     else if at_least (unat w * unat h) y then Some (True, TOXAV_ERR_SEND_FRAME_OK, st) else None)"

theorem toxavVideoSendFrame_negative_witness:
  "toxavVideoSendFrame reading_video 1 5 (- 2) (- 2) (Some [1, 2, 3, 4]) (Some [1]) (Some [1]) sample_call =
     Fail (UB ''access outside of an array'') \<and>
   (\<exists>t. toxavVideoSendFrame reading_video 1 6 (- 2) (- 2) (Some [1, 2, 3, 4]) (Some [1]) (Some [1]) sample_call =
     Done ((), t) \<and> pending t = error_throwable av_subsystem toxav_err_send_frame_enum
       TOXAV_ERR_SEND_FRAME_FRIEND_NOT_FOUND)"
proof -
  have live: "slot_of (av_manager sample_call) 1 = Live sample_av no_av_events"
    by (simp add: sample_call_slots)
  note neg = toxavVideoSendFrame_negative [OF sample_call_ok live, where width = "- 2" and height = "- 2"
      and a = 2 and b = 2 and w = "65534" and h = "65534" and y = "[1, 2, 3, 4]" and u = "[1]" and v = "[1]"
      and f = reading_video]
  from neg [where friend = 5] neg [where friend = 6] show ?thesis
    by (auto simp: reading_video_def at_least_def)
qed

end
