(* ===== verification/Av_Properties.thy ===== *)
theory Av_Properties
  imports Argument_Properties
begin

text \<open>
  Properties of the ToxAV instances: their events on the way to Java, their creation from a
  Tox instance, and what becomes of them when that instance is killed.
\<close>

section \<open>Iteration\<close>

fun av_callbacks_of :: "'av av_iterate_fun \<Rightarrow> 'av \<Rightarrow> nat \<Rightarrow> av_callback list list" where
  "av_callbacks_of f st 0 = []"
| "av_callbacks_of f st (Suc k) = fst (run_c f st) # av_callbacks_of f (snd (run_c f st)) k"

fun av_iterate_times ::
  "(TOXAV_FRIEND_CALL_STATE \<Rightarrow> uint32) \<Rightarrow> (av_callback_name \<Rightarrow> uintptr) \<Rightarrow> (av_events \<Rightarrow> uint8 list) \<Rightarrow>
   'av av_iterate_fun \<Rightarrow> jint \<Rightarrow> nat \<Rightarrow> ('tox, 'av, uint8 jarray list) native" where
  "av_iterate_times bits addr serialize f n 0 = ret []"
| "av_iterate_times bits addr serialize f n (Suc k) =
     andThen (toxavIterate bits addr serialize f n) (\<lambda>r.
     andThen (av_iterate_times bits addr serialize f n k) (\<lambda>rs. ret (r # rs)))"

definition av_event_count :: "av_events \<Rightarrow> nat" where
  "av_event_count ev =
     length (av_call ev) + length (av_call_state ev) + length (av_audio_bit_rate ev) +
     length (av_video_bit_rate ev) + length (av_audio_receive_frame ev) + length (av_video_receive_frame ev)"

lemma fold_append_no_av_events: "fold (append_av_event bits) cs no_av_events = no_av_events \<longleftrightarrow> cs = []"
proof (cases cs rule: rev_cases)
  case (snoc ds c)
  have "av_event_count (append_av_event bits c ev) = Suc (av_event_count ev)" for ev
    by (cases c) (simp_all add: av_event_count_def)
  moreover have "av_event_count no_av_events = 0" by (simp add: av_event_count_def no_av_events_def)
  ultimately have "append_av_event bits c ev \<noteq> no_av_events" for ev by (metis nat.distinct(1))
  with snoc show ?thesis by simp
qed simp

text \<open>
  C10. Every event of a call reaches Java exactly once and in its iteration: the result of each
  call of \<open>toxavIterate\<close> is null if toxav made no callback in it, and otherwise the serialised
  queue of exactly the callbacks of that iteration, in their order, with the audio samples
  as bytes and the call states as sets; the queue is empty afterwards, and the Tox
  instances are untouched.
\<close>

theorem av_iterations_deliver_events:
  fixes s :: "('tox, 'av) world" and toxav_iterate :: "'av av_iterate_fun"
  assumes "world_ok makes s" and "pending s = None" and "vm_ok (jvm_of s)"
    and "slot_of (av_manager s) n = Live x no_av_events"
    and "\<forall>cs \<in> set (av_callbacks_of toxav_iterate (obj_state x) k). (\<forall>c \<in> set cs. valid_av_callback c) \<and>
      length (serialize (fold (append_av_event bits) cs no_av_events)) < 2 ^ 31"
    and "\<forall>ev. serialize ev = [] \<longleftrightarrow> ev = no_av_events"
  shows "\<exists>t x'. av_iterate_times bits addr serialize toxav_iterate n k s =
      Done (map (\<lambda>cs. if cs = [] then None else Some (serialize (fold (append_av_event bits) cs no_av_events)))
        (av_callbacks_of toxav_iterate (obj_state x) k), t) \<and>
    slot_of (av_manager t) = (slot_of (av_manager s))(n := Live x' no_av_events) \<and>
    core_manager t = core_manager s \<and> pending t = None"
  using assms
proof (induction k arbitrary: s x)
  case 0
  then show ?case by (intro exI [of _ s] exI [of _ x]) (simp add: fun_upd_idem)
next
  case (Suc k)
  obtain cs st where cs: "run_c toxav_iterate (obj_state x) = (cs, st)" by fastforce
  let ?r = "if cs = [] then None else Some (serialize (fold (append_av_event bits) cs no_av_events))"
  let ?x = "x\<lparr>obj_state := st\<rparr>"
  have "hand_out serialize no_av_events (fold (append_av_event bits) cs no_av_events) ?x = (?r, ?x, no_av_events)"
    using Suc.prems(6) by (simp add: hand_out_def fold_append_no_av_events)
  note live = toxavIterate_live [OF Suc.prems(1-4) cs _ _ this, of addr]
  obtain t where t: "toxavIterate bits addr serialize toxav_iterate n s = Done (?r, t)"
      "slot_of (av_manager t) = (slot_of (av_manager s))(n := Live ?x no_av_events)"
      "world_ok makes t" "pending t = None" "vm_ok (jvm_of t)" "core_manager t = core_manager s"
    using live Suc.prems(3,5) cs by auto
  have "slot_of (av_manager t) n = Live ?x no_av_events" using t(2) by simp
  moreover have "\<forall>cs \<in> set (av_callbacks_of toxav_iterate (obj_state ?x) k). (\<forall>c \<in> set cs. valid_av_callback c) \<and>
      length (serialize (fold (append_av_event bits) cs no_av_events)) < 2 ^ 31"
    using Suc.prems(5) cs by simp
  ultimately obtain u x' where "av_iterate_times bits addr serialize toxav_iterate n k t =
      Done (map (\<lambda>cs. if cs = [] then None else Some (serialize (fold (append_av_event bits) cs no_av_events)))
        (av_callbacks_of toxav_iterate (obj_state ?x) k), u)"
      "slot_of (av_manager u) = (slot_of (av_manager t))(n := Live x' no_av_events)"
      "core_manager u = core_manager t" "pending u = None"
    using Suc.IH [OF t(3-5) _ _ Suc.prems(6)] by blast
  with t(1,2,6) cs show ?case by (intro exI [of _ u] exI [of _ x']) (simp add: andThen_def)
qed

text \<open>
  A toxav that plays one stereo frame and lowers a bit rate in every second iteration, and a
  serialiser that gives the bytes of the first frame.
\<close>

definition sample_av_iterate :: "nat av_iterate_fun" where
  "sample_av_iterate = (sample_addr ''toxav_iterate'', \<lambda>st.
     (if even st then [] else [Cb_audio_receive_frame 3 (Some [1, 513]) 1 2 48000, Cb_audio_bit_rate 3 16],
      Suc st))"

definition sample_av_serialize :: "av_events \<Rightarrow> uint8 list" where
  "sample_av_serialize ev = (if ev = no_av_events then [] else
     word_of_nat (length (av_audio_bit_rate ev)) # concat (map arf_pcm (av_audio_receive_frame ev)))"

theorem av_iterations_deliver_events_witness:
  "\<exists>t. av_iterate_times (\<lambda>_. 0) (\<lambda>_. 0) sample_av_serialize sample_av_iterate 1 2 sample_call =
     Done ([None, Some [1, 0, 1, 2, 1]], t) \<and> pending t = None"
proof -
  define played where "played = [Cb_audio_receive_frame 3 (Some [1, 513]) 1 2 48000, Cb_audio_bit_rate 3 16]"
  have "av_callbacks_of sample_av_iterate (obj_state sample_av) 2 = [[], played]"
    unfolding played_def by (simp add: sample_av_iterate_def sample_av_def eval_nat_numeral)
  moreover have "sample_av_serialize (fold (append_av_event (\<lambda>_. 0)) played no_av_events) = [1, 0, 1, 2, 1]"
    by (simp add: sample_av_serialize_def no_av_events_def played_def be16_def)
  moreover have "sample_av_serialize ev = [] \<longleftrightarrow> ev = no_av_events" for ev
    by (simp add: sample_av_serialize_def)
  moreover have none: "sample_av_serialize no_av_events = []" by (simp add: sample_av_serialize_def)
  moreover have "played \<noteq> []" "\<forall>c \<in> set played. valid_av_callback c" by (simp_all add: played_def)
  ultimately show ?thesis
    using av_iterations_deliver_events [OF sample_call_ok, of 1 sample_av sample_av_iterate 2
        sample_av_serialize "\<lambda>_. 0" "\<lambda>_. 0"] sample_call_slots [of 1]
    by (auto simp: none)
qed

section \<open>Creation\<close>

lemma toxavNew_success_run:
  fixes s :: "('tox, 'av) world" and x :: "'av toxav"
  assumes "manager_safe av_object_ok (av_manager s)" and "roomy s" and "obj_addr x \<noteq> 0"
  obtains cbs m' where "\<And>t. logenv.more t = logenv.more s \<Longrightarrow> toxavNew_success (Some x) t =
      Done (new_number (av_manager s), logenv.more_update (\<lambda>_. put_av m' (logenv.more s)) t)"
    and "slot_of m' = (slot_of (av_manager s))
      (new_number (av_manager s) := Live (x\<lparr>obj_callbacks := cbs\<rparr>) no_av_events)"
    and "\<And>cb. cb \<in> set cbs"
proof -
  obtain cbs where cbs: "\<And>s :: ('tox, 'av) world. set_callbacks av_callbacks x (Some no_av_events) s =
      Done ((x\<lparr>obj_callbacks := cbs\<rparr>, Some no_av_events), s)" "set av_callbacks \<subseteq> set cbs"
    using set_callbacks_Done [of av_callbacks x no_av_events] by blast
  have "av_object_ok (x\<lparr>obj_callbacks := cbs\<rparr>)" using assms(3) cbs(2) by (simp add: av_object_ok_def)
  from add_safe [OF assms(1) _ this, of no_av_events] assms(2) obtain m' where
    m': "\<And>t :: ('tox, 'av) world. add (av_manager s) (Some (x\<lparr>obj_callbacks := cbs\<rparr>)) (Some no_av_events) t =
        Done ((new_number (av_manager s), m'), t)"
      "slot_of m' = (slot_of (av_manager s))
        (new_number (av_manager s) := Live (x\<lparr>obj_callbacks := cbs\<rparr>) no_av_events)"
    unfolding roomy_def by metis
  show thesis
  proof (rule that [of m' cbs])
    fix t :: "('tox, 'av) world" assume t: "logenv.more t = logenv.more s"
    have "logenv.more_update (\<lambda>_. put_av m' (logenv.more s)) t = t\<lparr>av_manager := m'\<rparr>"
      unfolding t [symmetric] put_av_more by (cases t) simp
    with m'(1) managers_more [OF t]
    show "toxavNew_success (Some x) t =
        Done (new_number (av_manager s), logenv.more_update (\<lambda>_. put_av m' (logenv.more s)) t)"
      by (simp add: toxavNew_success_def andThen_def cbs(1) on_manager_def)
  next
    fix cb
    have "cb \<in> set av_callbacks" by (cases cb) (simp_all add: av_callbacks_def)
    with cbs(2) show "cb \<in> set cbs" by blast
  qed (rule m'(2))
qed

lemma toxavNew_live:
  fixes s :: "('tox, 'av) world" and toxav_new :: "('tox, 'av) toxav_new_fun"
  assumes s: "world_ok makes s" "pending s = None" "vm_ok (jvm_of s)" "roomy s"
    and live: "slot_of (core_manager s) n = Live x ev"
    and new: "run_c toxav_new (obj_state x) = (Some (a, st), TOXAV_ERR_NEW_OK, st')" "a \<noteq> 0"
  shows "\<exists>y t. toxavNew toxav_new n s = Done (new_number (av_manager s), t) \<and>
    obj_addr y = a \<and> obj_state y = st \<and> (\<forall>cb. cb \<in> set (obj_callbacks y)) \<and>
    slot_of (av_manager t) = (slot_of (av_manager s))(new_number (av_manager s) := Live y no_av_events) \<and>
    slot_of (core_manager t) = (slot_of (core_manager s))(n := Live (x\<lparr>obj_state := st'\<rparr>) ev) \<and>
    core.manager_ok t \<and> pending t = None \<and> jvm_of t = jvm_of s"
proof -
  let ?s = "core_locked n s" and ?m = "new_number (av_manager s)"
  let ?y = "\<lparr>obj_addr = a, obj_callbacks = [], obj_state = st\<rparr> :: 'av toxav"
  have ok: "code_result toxav_err_new_enum TOXAV_ERR_NEW_OK = SUCCESS"
    by (simp add: toxav_err_new_enum_def handling_defs)
  have m: "core.manager_ok s" "call_ready s" using world_ok_core [OF s(1)] world_ok_call_ready [OF s(2,3)] by simp_all
  have s': "log_ok ?s" "pending ?s = None" "vm_has_errors (jvm_of ?s) av_subsystem toxav_err_new_enum"
      "manager_safe av_object_ok (av_manager ?s)" "roomy ?s" "av_manager ?s = av_manager s"
    using s by (simp_all add: world_ok_def core_locked_def log_ok_def vm_ok_def roomy_def lock_held_def)
  obtain cbs m' where run: "\<And>t. logenv.more t = logenv.more ?s \<Longrightarrow> toxavNew_success (Some ?y) t =
        Done (?m, logenv.more_update (\<lambda>_. put_av m' (logenv.more ?s)) t)"
      "slot_of m' = (slot_of (av_manager s)) (?m := Live (?y\<lparr>obj_callbacks := cbs\<rparr>) no_av_events)"
      "\<And>cb. cb \<in> set cbs"
    by (rule toxavNew_success_run [OF s'(4,5), of ?y, unfolded s'(6)]) (simp add: new(2), rule that)
  have object: "new_object_of (Some (a, st)) = Some ?y" by (simp add: new_object_of_def)
  let ?new = "with_error_handling_new av_subsystem toxav_err_new_enum (\<lambda>p. Arg_toxav (show_pointer p))
      (\<lambda>p. ret (new_object_of p)) 0 toxavNew_success (addr_of toxav_new) [Arg_tox (obj_addr x)]
      (on_state (\<lambda>st. ret (run_c toxav_new st)) x)"
  have "\<exists>t. ?new ?s = Done ((?m, x\<lparr>obj_state := st'\<rparr>), t) \<and> logenv.more t = put_av m' (logenv.more ?s) \<and>
      pending t = error_throwable av_subsystem toxav_err_new_enum TOXAV_ERR_NEW_OK \<and> jvm_of t = jvm_of ?s"
  proof (rule constructor_effect [OF s'(1-3)])
    fix t assume "logenv.more t = logenv.more ?s"
    then show "toxavNew_success (new_object_of (Some (a, st))) t =
        Done (?m, logenv.more_update (\<lambda>_. put_av m' (logenv.more ?s)) t)"
      unfolding object by (rule run(1))
  qed (simp_all add: ok on_state_def andThen_def new(1))
  then obtain u where u: "?new ?s = Done ((?m, x\<lparr>obj_state := st'\<rparr>), u)"
      "logenv.more u = put_av m' (logenv.more ?s)" "pending u = None" "jvm_of u = jvm_of s"
    by (auto simp: ok core_locked_def)
  have more: "core_manager u = lock_held n (core_manager s)" "av_manager u = m'"
    using managers_more [of u "?s\<lparr>av_manager := m'\<rparr>"] u(2) by (simp_all add: put_av_more core_locked_def)
  let ?func = "\<lambda>tox events. andThen (with_error_handling_new av_subsystem toxav_err_new_enum
      (\<lambda>p. Arg_toxav (show_pointer p)) (\<lambda>p. ret (new_object_of p)) 0 toxavNew_success (addr_of toxav_new)
      [Arg_tox (obj_addr tox)] (on_state (\<lambda>st. ret (run_c toxav_new st)) tox)) (\<lambda>(n, tox). ret (n, tox, events))"
  have "?func x ev ?s = Done ((?m, x\<lparr>obj_state := st'\<rparr>, ev), u)" using u(1) by (simp add: andThen_def)
  from core_with_instance_frame [where d = 0 and func = ?func, OF m live this more(1)]
  obtain t where t: "toxavNew toxav_new n s = Done (?m, t)"
      "slot_of (core_manager t) = (slot_of (core_manager s))(n := Live (x\<lparr>obj_state := st'\<rparr>) ev)"
      "core.manager_ok t" "t = u\<lparr>core_manager := core_manager t\<rparr>"
    unfolding toxavNew_def by blast
  have "av_manager t = m'" "pending t = None" "jvm_of t = jvm_of s"
    using arg_cong [OF t(4), of av_manager] arg_cong [OF t(4), of pending] arg_cong [OF t(4), of jvm_of]
      more(2) u(3,4) by simp_all
  with t(1-3) run(2,3) show ?thesis
    by (intro exI [of _ "?y\<lparr>obj_callbacks := cbs\<rparr>"] exI [of _ t]) simp
qed

text \<open>
  C13. \<open>toxavNew\<close> creates a ToxAV from the Tox of a live instance and stores it under a fresh number of
  the second manager, with every callback registered and an empty queue, and returns that
  number. The two managers know nothing of each other: a \<open>toxKill\<close> of the Tox instance deletes the Tox
  object and leaves the ToxAV made from it live, so Java has to close the ToxAV first.
\<close>

theorem toxav_outlives_tox:
  fixes s :: "('tox, 'av) world" and toxav_new :: "('tox, 'av) toxav_new_fun"
  assumes "world_ok makes s" and "pending s = None" and "vm_ok (jvm_of s)" and "roomy s"
    and "slot_of (core_manager s) n = Live x ev"
    and "run_c toxav_new (obj_state x) = (Some (a, st), TOXAV_ERR_NEW_OK, st')" and "a \<noteq> 0"
  shows "\<exists>y t u. toxavNew toxav_new n s = Done (new_number (av_manager s), t) \<and>
    obj_addr y = a \<and> obj_state y = st \<and> (\<forall>cb. cb \<in> set (obj_callbacks y)) \<and>
    slot_of (av_manager t) = (slot_of (av_manager s))(new_number (av_manager s) := Live y no_av_events) \<and>
    slot_of (core_manager t) = (slot_of (core_manager s))(n := Live (x\<lparr>obj_state := st'\<rparr>) ev) \<and> pending t = None \<and>
    toxKill n t = Done ((), u) \<and> slot_of (core_manager u) n = Killed \<and>
    deleted (core_manager u) = deleted (core_manager t) @ [x\<lparr>obj_state := st'\<rparr>] \<and>
    slot_of (av_manager u) (new_number (av_manager s)) = Live y no_av_events"
proof -
  from toxavNew_live [OF assms] obtain y t where
    t: "toxavNew toxav_new n s = Done (new_number (av_manager s), t)"
      "obj_addr y = a" "obj_state y = st" "\<forall>cb. cb \<in> set (obj_callbacks y)"
      "slot_of (av_manager t) = (slot_of (av_manager s))(new_number (av_manager s) := Live y no_av_events)"
      "slot_of (core_manager t) = (slot_of (core_manager s))(n := Live (x\<lparr>obj_state := st'\<rparr>) ev)"
      "core.manager_ok t" "pending t = None" "jvm_of t = jvm_of s"
    by blast
  have "call_ready t" using t(8,9) assms(3) by (simp add: call_ready_def vm_ok_def)
  with kill_refines [of "core_manager t" t n] t(6,7) obtain m' where
    m': "kill (core_manager t) n t = Done (m', t)" "slot_of m' n = Killed"
      "deleted m' = deleted (core_manager t) @ [x\<lparr>obj_state := st'\<rparr>]"
    by (auto simp: spec_kill_def dying_objects_def)
  then have "toxKill n t = Done ((), t\<lparr>core_manager := m'\<rparr>)"
    by (simp add: toxKill_def on_manager_def andThen_def)
  with t m' show ?thesis by (intro exI [of _ y] exI [of _ t] exI [of _ "t\<lparr>core_manager := m'\<rparr>"]) simp
qed

definition sample_toxav_new :: "(nat, nat) toxav_new_fun" where
  "sample_toxav_new = (sample_addr ''toxav_new'', \<lambda>st. (Some (8192, 7), TOXAV_ERR_NEW_OK, Suc st))"

theorem toxav_outlives_tox_witness:
  "\<exists>y t u. toxavNew sample_toxav_new 1 sample_live = Done (1, t) \<and> obj_addr y = 8192 \<and>
     toxKill 1 t = Done ((), u) \<and> deleted (core_manager u) = deleted (core_manager t) @ [sample_object\<lparr>obj_state := 1\<rparr>] \<and>
     slot_of (av_manager u) 1 = Live y no_av_events"
proof -
  have "run_c sample_toxav_new (obj_state sample_object) = (Some (8192, 7), TOXAV_ERR_NEW_OK, 1)"
    by (simp add: sample_toxav_new_def sample_object_def)
  moreover have "new_number (av_manager sample_live) = 1"
    by (simp add: sample_live_def sample_start_fields new_number_def empty_manager_def)
  ultimately show ?thesis
    using toxav_outlives_tox [OF sample_live_ok, of 1 sample_object no_events sample_toxav_new 8192 7 1]
      sample_live_slots [of 1]
    by auto
qed

end
