(* ===== verification/Registry_Properties.thy ===== *)
theory Registry_Properties
  imports Call_Properties
begin

text \<open>
  Properties of the names under which functions appear in the log: what the static
  initialisers register, and what the templates register on their first use.
\<close>

section \<open>Static initialisation\<close>

text \<open>
  C35. The order in which the two translation units are initialised, which C++ does not
  specify, does not matter: either way every function and callback of \<open>ToxCore\<close> and \<open>ToxAv\<close> is
  known by its name, no registration fails its assertion, and the functions of \<open>ToxCrypto\<close>,
  which nothing registers, are logged as decimal addresses.
\<close>

theorem static_init_any_order:
  fixes s :: "'z logenv_scheme"
  assumes "inj_on addr (set (core_symbols @ av_symbols @ crypto_natives))" and "func_names s = (\<lambda>_. None)"
  shows "\<exists>t. static_init addr s = Done (True, t) \<and> static_init_av_first addr s = Done (True, t) \<and>
    (\<forall>f \<in> set (core_symbols @ av_symbols). func_name (func_names t) (addr f) = f) \<and>
    (\<forall>f \<in> set crypto_natives. func_name (func_names t) (addr f) = to_string_nat (unat (addr f)))"
proof -
  have inj: "inj_on addr (set (core_symbols @ av_symbols))"
    using assms(1) by (rule inj_on_subset) auto
  let ?all = "core_symbols @ av_symbols"
  let ?t = "s\<lparr>func_names := startup_names addr\<rparr>"
  have "startup_names addr (addr f) = Some f" if "f \<in> set ?all" for f
    unfolding startup_names_def using that by (rule map_of_symbols(1) [OF inj])
  moreover have "startup_names addr (addr f) = None" if "f \<in> set crypto_natives" for f
  proof -
    have "addr f \<notin> addr ` set ?all"
      using that assms(1) symbols_distinct by (auto dest!: inj_onD [where f = addr])
    then show ?thesis unfolding startup_names_def by (rule map_of_symbols(2) [OF inj])
  qed
  ultimately show ?thesis
    using static_init_names [OF inj assms(2)] by (intro exI [of _ ?t]) (simp add: func_name_def)
qed

theorem static_init_any_order_witness:
  "\<exists>t. static_init sample_addr any_log = Done (True, t) \<and> static_init_av_first sample_addr any_log = Done (True, t) \<and>
     func_name (func_names t) (sample_addr ''tox_kill'') = ''tox_kill'' \<and>
     func_name (func_names t) (sample_addr ''tox_hash'') = to_string_nat (unat (sample_addr ''tox_hash''))"
proof -
  have "''tox_kill'' \<in> set (core_symbols @ av_symbols)" "''tox_hash'' \<in> set crypto_natives"
    by (simp_all add: core_symbols_def core_natives_def core_refs_def crypto_natives_def crypto_refs_def)
  then show ?thesis
    using static_init_any_order [of sample_addr any_log] sample_addr_inj
    unfolding all_symbols_def by (auto simp: any_log_def)
qed

section \<open>Templates\<close>

lemma log_call_names:
  "map (entry_name \<circ> snd) (log_entries (jni_log_of (log_call n f args res fn sf s))) =
     map (entry_name \<circ> snd) (log_entries (jni_log_of s)) @
     (if is_logged f s then [func_name (func_names s) f] else [])"
  by (cases res) (simp_all add: log_call_def Let_def is_logged_def push_entry_def set_log_def
      set_names_def opened_entry_def blank_entry_def)

lemma known_getter_make: "func_names (known_getter g s) (vg_make g) \<noteq> None"
  if "registry_ok makes s" and "getter_ok makes g"
proof -
  have "registry_ok makes (known_getter g s)" using that by (rule registry_ok_known_getter)
  moreover have "vg_make g \<in> set (static_funcs (known_getter g s))"
    by (simp add: known_getter_def Let_def known_def)
  ultimately show ?thesis using that(2) by (simp add: registry_ok_def getter_ok_def)
qed

text \<open>
  C17. \<open>toxSelfGetName\<close> on a live instance returns exactly the bytes that toxcore copies out and
  changes no instance. It registers the name of its \<open>get_vector\<close> function, but the entry of a call is
  named before the call runs: the first call is logged and filtered by its decimal address,
  later ones by the name.
\<close>

theorem toxSelfGetName_effect:
  fixes s :: "('tox, 'av) world" and g :: "('tox, uint8) vector_getter"
  assumes "world_ok makes s" and "pending s = None" and "vm_ok (jvm_of s)"
    and "slot_of (core_manager s) n = Live x ev" and "vector_ok makes g"
  shows "\<exists>t. toxSelfGetName g n s = Done (Some (vg_data g (obj_state x)), t) \<and>
    slot_of (core_manager t) = slot_of (core_manager s) \<and> pending t = None \<and>
    func_names t (vg_make g) \<noteq> None \<and>
    map (entry_name \<circ> snd) (log_entries (jni_log_of t)) =
      map (entry_name \<circ> snd) (log_entries (jni_log_of s)) @
      (if has_log_room s \<and> func_name (func_names s) (vg_make g) \<notin> set (log_filters (jni_log_of s))
       then [func_name (func_names s) (vg_make g)] else [])"
proof -
  let ?a = "core.accessed n x ev s"
  let ?t = "log_call n (vg_make g) [Arg_tox (obj_addr x)] (Arg_uint8_vector (vg_data g (obj_state x)))
     (func_names (known_getter g s)) (static_funcs (known_getter g s)) ?a"
  have m: "core.manager_ok s" "call_ready s" "log_ok s" and reg: "registry_ok makes s"
    using world_ok_core [OF assms(1)] world_ok_call_ready [OF assms(2,3)] assms(1)
    by (simp_all add: world_ok_def)
  have g: "getter_ok makes g" "fills g st" "length (vg_data g st) < 2 ^ 31" for st
    using assms(5) by (simp_all add: vector_ok_def)
  have "on_state_noerr (get_vector_make g) x t = Done ((vg_data g (obj_state x), x),
      set_names (func_names (known_getter g s)) (static_funcs (known_getter g s)) t)"
    if t: "func_names t = func_names s" "static_funcs t = static_funcs s" for t :: "('tox, 'av) world"
    using get_vector_make_eq [of makes t g "obj_state x"] known_getter_cong [OF t, of g] reg g
    by (simp add: on_state_noerr_def andThen_def registry_ok_cong [OF t])
  with core.with_instance_noerr_live [OF m, of n x ev "on_state_noerr (get_vector_make g)"
      "vg_data g (obj_state x)" x "func_names (known_getter g s)" "static_funcs (known_getter g s)"
      toJavaArray "Some (vg_data g (obj_state x))" Arg_uint8_vector None "vg_make g" "[]"] assms(4) g
  have "toxSelfGetName g n s = Done (Some (vg_data g (obj_state x)), ?t)"
    by (simp add: toxSelfGetName_def get_bytes_def toJavaArray_Done)
  moreover have "slot_of (core_manager ?t) = slot_of (core_manager s)"
    using core.accessed_slots(1) [OF m(1), of n x ev x ev] assms(4) managers_more [of ?t ?a]
    by (simp add: fun_upd_idem)
  moreover have "jni_log_of ?a = jni_log_of s" "func_names ?a = func_names s"
      "is_logged (vg_make g) ?a = is_logged (vg_make g) s" "pending ?a = pending s"
    unfolding core.accessed_def core.lput_more is_logged_def by simp_all
  ultimately show ?thesis
    using known_getter_make [OF reg g(1)] assms(2) log_call_names [of n "vg_make g" _ _ _ _ ?a]
    unfolding is_logged_def by (intro exI [of _ ?t]) simp
qed

definition sample_get_name :: "(nat, uint8) vector_getter" where
  "sample_get_name = \<lparr>vg_make = 7, vg_size = Tox_size 8 (\<lambda>st. 3), vg_data_addr = 9,
     vg_data = (\<lambda>st. [84, 111, 109])\<rparr>"

theorem toxSelfGetName_effect_witness:
  "\<exists>t. toxSelfGetName sample_get_name 1 (sample_live) = Done (Some [84, 111, 109], t) \<and>
     func_names t 7 \<noteq> None \<and> pending t = None"
proof -
  have "sample_addr f \<noteq> 7" for f using sample_addr_unat [of f] by auto
  then have "startup_names sample_addr 7 = None"
    unfolding startup_names_def by (auto simp: map_of_eq_None_iff)
  then have "world_ok {7} sample_live"
    using sample_live_ok(1)
    by (simp add: world_ok_def registry_ok_def sample_live_def sample_start_def startup_world_def)
  moreover have "vector_ok {7} sample_get_name"
    by (simp add: vector_ok_def getter_ok_def fills_def sample_get_name_def)
  ultimately show ?thesis
    using toxSelfGetName_effect [OF _ sample_live_ok(2,3), of "{7}" 1 sample_object no_events sample_get_name]
      sample_live_slots [of 1]
    by (auto simp: sample_get_name_def)
qed

end
