(* ===== verification/Jni_Definitions.thy ===== *)
theory Jni_Definitions
  imports Jni_Declarations Static_Init "HOL-Library.Sublist"
begin

text \<open>
  The definitions of the native methods in the C++ files: their heads, with the macros of
  \<open>tox4j/Tox4j.h\<close> that make the symbols, the references to them in \<open>reference_symbols_*\<close>, and the
  linker script that exports them. The bodies are modelled in \<open>Core_Api\<close>, \<open>Av_Api\<close> and \<open>Crypto_Api\<close>.
\<close>

section \<open>Macros\<close>

text \<open>\<open>CLASS\<close> and \<open>PREFIX\<close> of a subsystem (\<open>ToxCore.h\<close>, \<open>ToxAv.h\<close>, \<open>ToxCrypto.h\<close>).\<close>

record class_macros =
  CLASS :: string
  PREFIX :: string

definition core_macros :: class_macros where
  "core_macros = \<lparr>CLASS = ''ToxCore'', PREFIX = ''tox''\<rparr>"

definition av_macros :: class_macros where
  "av_macros = \<lparr>CLASS = ''ToxAv'', PREFIX = ''toxav''\<rparr>"

definition crypto_macros :: class_macros where
  "crypto_macros = \<lparr>CLASS = ''ToxCrypto'', PREFIX = ''tox''\<rparr>"

definition PP_CAT :: "string \<Rightarrow> string \<Rightarrow> string" where
  "PP_CAT a b = a @ b"

definition JAVA_METHOD_NAME :: "class_macros \<Rightarrow> string \<Rightarrow> string" where
  "JAVA_METHOD_NAME m name =
     PP_CAT ''Java_im_tox_tox4j_impl_jni_'' (PP_CAT (CLASS m) (PP_CAT ''Jni_'' name))"

definition TOX_METHOD_NAME :: "class_macros \<Rightarrow> string \<Rightarrow> string" where
  "TOX_METHOD_NAME m name = JAVA_METHOD_NAME m (PP_CAT (PREFIX m) name)"

text \<open>How the head of a method is written, and the prototype it expands to.\<close>

datatype method_head =
    TOX_METHOD c_type string "c_type list"
  | JAVA_METHOD c_type string "c_type list"
  | JNIEXPORT c_type string "c_type list"

type_synonym prototype = "c_type \<times> string \<times> c_type list"

definition JNI_METHOD :: "c_type \<Rightarrow> string \<Rightarrow> c_type list \<Rightarrow> prototype" where
  "JNI_METHOD type name params = (type, name, C_JNIEnv_ptr # C_jclass # params)"

fun expand :: "class_macros \<Rightarrow> method_head \<Rightarrow> prototype" where
  "expand m (TOX_METHOD type name params) = JNI_METHOD type (TOX_METHOD_NAME m name) params"
| "expand m (JAVA_METHOD type name params) = JNI_METHOD type (JAVA_METHOD_NAME m name) params"
| "expand m (JNIEXPORT type name params) = (type, name, params)"

section \<open>Method heads, file by file\<close>

definition core_impls_methods :: "method_head list" where
  "core_impls_methods = [
    JAVA_METHOD C_jint ''toxIterationInterval'' [C_jint],
    JAVA_METHOD C_jint ''toxSelfGetStatus'' [C_jint],
    JAVA_METHOD C_void ''toxSelfSetNospam'' [C_jint, C_jint],
    JAVA_METHOD C_jboolean ''toxFriendExists'' [C_jint, C_jint],
    JAVA_METHOD C_jint ''toxSelfGetNospam'' [C_jint]]"

definition core_clientinfo_methods :: "method_head list" where
  "core_clientinfo_methods = [
    TOX_METHOD C_jbyteArray ''SelfGetPublicKey'' [C_jint],
    TOX_METHOD C_jbyteArray ''SelfGetSecretKey'' [C_jint],
    TOX_METHOD C_jbyteArray ''SelfGetAddress'' [C_jint],
    TOX_METHOD C_void ''SelfSetName'' [C_jint, C_jbyteArray],
    TOX_METHOD C_jbyteArray ''SelfGetName'' [C_jint],
    TOX_METHOD C_void ''SelfSetStatusMessage'' [C_jint, C_jbyteArray],
    TOX_METHOD C_jbyteArray ''SelfGetStatusMessage'' [C_jint],
    TOX_METHOD C_void ''SelfSetStatus'' [C_jint, C_jint]]"

definition core_connection_methods :: "method_head list" where
  "core_connection_methods = [
    TOX_METHOD C_void ''Bootstrap'' [C_jint, C_jstring, C_jint, C_jbyteArray],
    TOX_METHOD C_void ''AddTcpRelay'' [C_jint, C_jstring, C_jint, C_jbyteArray],
    TOX_METHOD C_jint ''SelfGetUdpPort'' [C_jint],
    TOX_METHOD C_jint ''SelfGetTcpPort'' [C_jint],
    TOX_METHOD C_jbyteArray ''SelfGetDhtId'' [C_jint],
    TOX_METHOD C_jbyteArray ''Iterate'' [C_jint]]"

definition core_custom_methods :: "method_head list" where
  "core_custom_methods = [
    TOX_METHOD C_void ''FriendSendLossyPacket'' [C_jint, C_jint, C_jbyteArray],
    TOX_METHOD C_void ''FriendSendLosslessPacket'' [C_jint, C_jint, C_jbyteArray]]"

definition core_debug_methods :: "method_head list" where
  "core_debug_methods = [
    JNIEXPORT C_jbyteArray ''Java_im_tox_tox4j_impl_jni_ToxCoreJni_tox4jLastLog''
      [C_JNIEnv_ptr, C_jclass],
    JNIEXPORT C_void ''Java_im_tox_tox4j_impl_jni_ToxCoreJni_tox4jSetMaxLogSize''
      [C_JNIEnv_ptr, C_jclass, C_jint],
    JNIEXPORT C_jint ''Java_im_tox_tox4j_impl_jni_ToxCoreJni_tox4jGetMaxLogSize''
      [C_JNIEnv_ptr, C_jclass],
    JNIEXPORT C_jint ''Java_im_tox_tox4j_impl_jni_ToxCoreJni_tox4jGetCurrentLogSize''
      [C_JNIEnv_ptr, C_jclass],
    JNIEXPORT C_void ''Java_im_tox_tox4j_impl_jni_ToxCoreJni_tox4jSetLogFilter''
      [C_JNIEnv_ptr, C_jclass, C_jobjectArray]]"

definition core_filetransfer_methods :: "method_head list" where
  "core_filetransfer_methods = [
    TOX_METHOD C_void ''FileControl'' [C_jint, C_jint, C_jint, C_jint],
    TOX_METHOD C_void ''FileSeek'' [C_jint, C_jint, C_jint, C_jlong],
    TOX_METHOD C_jint ''FileSend'' [C_jint, C_jint, C_jint, C_jlong, C_jbyteArray, C_jbyteArray],
    TOX_METHOD C_void ''FileSendChunk'' [C_jint, C_jint, C_jint, C_jlong, C_jbyteArray],
    TOX_METHOD C_jbyteArray ''FileGetFileId'' [C_jint, C_jint, C_jint]]"

definition core_friendlist_methods :: "method_head list" where
  "core_friendlist_methods = [
    TOX_METHOD C_jint ''FriendAdd'' [C_jint, C_jbyteArray, C_jbyteArray],
    TOX_METHOD C_jint ''FriendAddNorequest'' [C_jint, C_jbyteArray],
    TOX_METHOD C_void ''FriendDelete'' [C_jint, C_jint],
    TOX_METHOD C_jint ''FriendByPublicKey'' [C_jint, C_jbyteArray],
    TOX_METHOD C_jbyteArray ''FriendGetPublicKey'' [C_jint, C_jint],
    TOX_METHOD C_jintArray ''SelfGetFriendList'' [C_jint]]"

definition core_interaction_methods :: "method_head list" where
  "core_interaction_methods = [
    TOX_METHOD C_void ''SelfSetTyping'' [C_jint, C_jint, C_jboolean],
    TOX_METHOD C_jint ''FriendSendMessage'' [C_jint, C_jint, C_jint, C_jint, C_jbyteArray]]"

definition core_lifecycle_methods :: "method_head list" where
  "core_lifecycle_methods = [
    TOX_METHOD C_jint ''New'' [C_jboolean, C_jboolean, C_jboolean, C_jint, C_jstring, C_jint, C_jint, C_jint, C_jint, C_jint, C_jbyteArray],
    TOX_METHOD C_void ''Kill'' [C_jint],
    TOX_METHOD C_void ''Finalize'' [C_jint],
    TOX_METHOD C_jbyteArray ''GetSavedata'' [C_jint],
    JNIEXPORT C_void ''Java_im_tox_tox4j_impl_jni_ToxCoreJni_invokeSelfConnectionStatus''
      [C_JNIEnv_ptr, C_jclass, C_jint, C_jint],
    JNIEXPORT C_void ''Java_im_tox_tox4j_impl_jni_ToxCoreJni_invokeFileRecvControl''
      [C_JNIEnv_ptr, C_jclass, C_jint, C_jint, C_jint, C_jint],
    JNIEXPORT C_void ''Java_im_tox_tox4j_impl_jni_ToxCoreJni_invokeFileRecv''
      [C_JNIEnv_ptr, C_jclass, C_jint, C_jint, C_jint, C_jint, C_jlong, C_jbyteArray],
    JNIEXPORT C_void ''Java_im_tox_tox4j_impl_jni_ToxCoreJni_invokeFileRecvChunk''
      [C_JNIEnv_ptr, C_jclass, C_jint, C_jint, C_jint, C_jlong, C_jbyteArray],
    JNIEXPORT C_void ''Java_im_tox_tox4j_impl_jni_ToxCoreJni_invokeFileChunkRequest''
      [C_JNIEnv_ptr, C_jclass, C_jint, C_jint, C_jint, C_jlong, C_jint],
    JNIEXPORT C_void ''Java_im_tox_tox4j_impl_jni_ToxCoreJni_invokeFriendConnectionStatus''
      [C_JNIEnv_ptr, C_jclass, C_jint, C_jint, C_jint],
    JNIEXPORT C_void ''Java_im_tox_tox4j_impl_jni_ToxCoreJni_invokeFriendLosslessPacket''
      [C_JNIEnv_ptr, C_jclass, C_jint, C_jint, C_jbyteArray],
    JNIEXPORT C_void ''Java_im_tox_tox4j_impl_jni_ToxCoreJni_invokeFriendLossyPacket''
      [C_JNIEnv_ptr, C_jclass, C_jint, C_jint, C_jbyteArray],
    JNIEXPORT C_void ''Java_im_tox_tox4j_impl_jni_ToxCoreJni_invokeFriendMessage''
      [C_JNIEnv_ptr, C_jclass, C_jint, C_jint, C_jint, C_jint, C_jbyteArray],
    JNIEXPORT C_void ''Java_im_tox_tox4j_impl_jni_ToxCoreJni_invokeFriendName''
      [C_JNIEnv_ptr, C_jclass, C_jint, C_jint, C_jbyteArray],
    JNIEXPORT C_void ''Java_im_tox_tox4j_impl_jni_ToxCoreJni_invokeFriendRequest''
      [C_JNIEnv_ptr, C_jclass, C_jint, C_jbyteArray, C_jint, C_jbyteArray],
    JNIEXPORT C_void ''Java_im_tox_tox4j_impl_jni_ToxCoreJni_invokeFriendStatus''
      [C_JNIEnv_ptr, C_jclass, C_jint, C_jint, C_jint],
    JNIEXPORT C_void ''Java_im_tox_tox4j_impl_jni_ToxCoreJni_invokeFriendStatusMessage''
      [C_JNIEnv_ptr, C_jclass, C_jint, C_jint, C_jbyteArray],
    JNIEXPORT C_void ''Java_im_tox_tox4j_impl_jni_ToxCoreJni_invokeFriendTyping''
      [C_JNIEnv_ptr, C_jclass, C_jint, C_jint, C_jboolean],
    JNIEXPORT C_void ''Java_im_tox_tox4j_impl_jni_ToxCoreJni_invokeFriendReadReceipt''
      [C_JNIEnv_ptr, C_jclass, C_jint, C_jint, C_jint]]"

definition core_methods :: "method_head list" where
  "core_methods = core_impls_methods @ core_clientinfo_methods @ core_connection_methods @ core_custom_methods @ core_debug_methods @ core_filetransfer_methods @ core_friendlist_methods @ core_interaction_methods @ core_lifecycle_methods"

definition av_av_methods :: "method_head list" where
  "av_av_methods = [
    TOX_METHOD C_jint ''IterationInterval'' [C_jint],
    TOX_METHOD C_jbyteArray ''Iterate'' [C_jint],
    TOX_METHOD C_void ''Call'' [C_jint, C_jint, C_jint, C_jint],
    TOX_METHOD C_void ''Answer'' [C_jint, C_jint, C_jint, C_jint],
    TOX_METHOD C_void ''CallControl'' [C_jint, C_jint, C_jint],
    TOX_METHOD C_void ''AudioSetBitRate'' [C_jint, C_jint, C_jint],
    TOX_METHOD C_void ''VideoSetBitRate'' [C_jint, C_jint, C_jint],
    TOX_METHOD C_void ''AudioSendFrame'' [C_jint, C_jint, C_jshortArray, C_jint, C_jint, C_jint],
    TOX_METHOD C_void ''VideoSendFrame'' [C_jint, C_jint, C_jint, C_jint, C_jbyteArray, C_jbyteArray, C_jbyteArray]]"

definition av_lifecycle_methods :: "method_head list" where
  "av_lifecycle_methods = [
    TOX_METHOD C_jint ''New'' [C_jint],
    TOX_METHOD C_void ''Kill'' [C_jint],
    TOX_METHOD C_void ''Finalize'' [C_jint],
    JNIEXPORT C_void ''Java_im_tox_tox4j_impl_jni_ToxAvJni_invokeAudioBitRate''
      [C_JNIEnv_ptr, C_jclass, C_jint, C_jint, C_jint],
    JNIEXPORT C_void ''Java_im_tox_tox4j_impl_jni_ToxAvJni_invokeVideoBitRate''
      [C_JNIEnv_ptr, C_jclass, C_jint, C_jint, C_jint],
    JNIEXPORT C_void ''Java_im_tox_tox4j_impl_jni_ToxAvJni_invokeAudioReceiveFrame''
      [C_JNIEnv_ptr, C_jclass, C_jint, C_jint, C_jshortArray, C_jint, C_jint],
    JNIEXPORT C_void ''Java_im_tox_tox4j_impl_jni_ToxAvJni_invokeCall''
      [C_JNIEnv_ptr, C_jclass, C_jint, C_jint, C_jboolean, C_jboolean],
    JNIEXPORT C_void ''Java_im_tox_tox4j_impl_jni_ToxAvJni_invokeCallState''
      [C_JNIEnv_ptr, C_jclass, C_jint, C_jint, C_jint],
    JNIEXPORT C_void ''Java_im_tox_tox4j_impl_jni_ToxAvJni_invokeVideoReceiveFrame''
      [C_JNIEnv_ptr, C_jclass, C_jint, C_jint, C_jint, C_jint, C_jbyteArray, C_jbyteArray, C_jbyteArray, C_jint, C_jint, C_jint]]"

definition av_methods :: "method_head list" where
  "av_methods = av_av_methods @ av_lifecycle_methods"

definition crypto_encryptsave_methods :: "method_head list" where
  "crypto_encryptsave_methods = [
    JNIEXPORT C_jbyteArray ''Java_im_tox_tox4j_impl_jni_ToxCryptoJni_toxGetSalt''
      [C_JNIEnv_ptr, C_jclass, C_jbyteArray],
    JNIEXPORT C_jboolean ''Java_im_tox_tox4j_impl_jni_ToxCryptoJni_toxIsDataEncrypted''
      [C_JNIEnv_ptr, C_jclass, C_jbyteArray],
    JNIEXPORT C_jbyteArray ''Java_im_tox_tox4j_impl_jni_ToxCryptoJni_toxPassKeyDeriveWithSalt''
      [C_JNIEnv_ptr, C_jclass, C_jbyteArray, C_jbyteArray],
    JNIEXPORT C_jbyteArray ''Java_im_tox_tox4j_impl_jni_ToxCryptoJni_toxPassKeyDerive''
      [C_JNIEnv_ptr, C_jclass, C_jbyteArray],
    JNIEXPORT C_jbyteArray ''Java_im_tox_tox4j_impl_jni_ToxCryptoJni_toxPassKeyDecrypt''
      [C_JNIEnv_ptr, C_jclass, C_jbyteArray, C_jbyteArray],
    JNIEXPORT C_jbyteArray ''Java_im_tox_tox4j_impl_jni_ToxCryptoJni_toxPassKeyEncrypt''
      [C_JNIEnv_ptr, C_jclass, C_jbyteArray, C_jbyteArray]]"

definition crypto_hash_methods :: "method_head list" where
  "crypto_hash_methods = [
    JNIEXPORT C_jbyteArray ''Java_im_tox_tox4j_impl_jni_ToxCryptoJni_toxHash''
      [C_JNIEnv_ptr, C_jclass, C_jbyteArray]]"

definition crypto_methods :: "method_head list" where
  "crypto_methods = crypto_encryptsave_methods @ crypto_hash_methods"

section \<open>References to the methods\<close>

text \<open>
  The bodies of \<open>reference_symbols_*\<close>, which exist for the compiler: it checks that everything they
  mention has been declared. The functions \<open>tox_finalize\<close> and \<open>toxav_finalize\<close> do not exist in toxcore;
  a local variable stands for them.
\<close>

datatype reference =
    Declare_int string
  | Check_constants string
  | Unused string

definition mention :: "class_macros \<Rightarrow> (string \<times> string) list \<Rightarrow> reference list" where
  "mention m refs = concat (map (\<lambda>(java, cxx). [Unused (JAVA_METHOD_NAME m java), Unused cxx]) refs)"

definition reference_symbols_core :: "reference list" where
  "reference_symbols_core =
     Declare_int ''tox_finalize'' # Check_constants ''checkToxCoreConstants'' # mention core_macros core_refs"

definition reference_symbols_av :: "reference list" where
  "reference_symbols_av = Declare_int ''toxav_finalize'' # mention av_macros av_refs"

definition reference_symbols_crypto :: "reference list" where
  "reference_symbols_crypto = Check_constants ''checkToxCryptoConstants'' # mention crypto_macros crypto_refs"

text \<open>Every name that a body mentions has been declared before, by a header or in the body.\<close>

fun compiles :: "string set \<Rightarrow> reference list \<Rightarrow> bool" where
  "compiles names [] \<longleftrightarrow> True"
| "compiles names (Declare_int x # body) \<longleftrightarrow> compiles (insert x names) body"
| "compiles names (Check_constants f # body) \<longleftrightarrow> f \<in> names \<and> compiles names body"
| "compiles names (Unused x # body) \<longleftrightarrow> x \<in> names \<and> compiles names body"

section \<open>Linker script\<close>

definition ld_global :: "string list" where
  "ld_global = [''Java_*'', ''JNI_*'', ''_Z12scope_indent*'', ''_Z29throw_illegal_state_exception*'',
     ''_Z19throw_tox_exception*'', ''_Z26throw_tox_killed_exception*'', ''_Z17tox4j_fatal_error*'']"

text \<open>A pattern with a star at its end matches every name that begins like it.\<close>

definition ld_matches :: "string \<Rightarrow> string \<Rightarrow> bool" where
  "ld_matches pat name \<longleftrightarrow>
     (if pat \<noteq> [] \<and> last pat = CHR ''*'' then prefix (butlast pat) name else pat = name)"

definition exported :: "string \<Rightarrow> bool" where
  "exported name \<longleftrightarrow> list_ex (\<lambda>pat. ld_matches pat name) ld_global"

section \<open>Declarations and definitions agree\<close>

definition prototype_of :: "jni_decl \<Rightarrow> prototype" where
  "prototype_of d = (decl_return d, decl_symbol d, decl_params d)"

lemma mset_permuted:
  assumes "map (\<lambda>i. xs ! i) \<pi> = ys" and "sort \<pi> = [0..<length xs]"
  shows "mset xs = mset ys"
proof -
  have "mset \<pi> = mset [0..<length xs]" by (metis assms(2) mset_sort)
  then have "mset (map (\<lambda>i. xs ! i) \<pi>) = mset (map (\<lambda>i. xs ! i) [0..<length xs])" by simp
  with assms(1) show ?thesis by (simp add: map_nth)
qed

lemmas expand_defs = JNI_METHOD_def TOX_METHOD_NAME_def JAVA_METHOD_NAME_def PP_CAT_def prototype_of_def

lemma crypto_methods_declared:
  "mset (map (expand crypto_macros) crypto_methods) = mset (map prototype_of crypto_header)"
  by (rule mset_permuted [where \<pi> = "[5, 0, 1, 2, 3, 4, 6]"])
    (simp_all add: crypto_methods_def crypto_encryptsave_methods_def crypto_hash_methods_def crypto_header_def
      expand_defs)

lemma av_methods_declared:
  "mset (map (expand av_macros) av_methods) = mset (map prototype_of av_header)"
  by (rule mset_permuted [where \<pi> = "[9, 10, 11, 0, 1, 2, 3, 4, 5, 6, 7, 8, 14, 12, 13, 15, 16, 17]"])
    (simp_all add: av_methods_def av_av_methods_def av_lifecycle_methods_def av_header_def av_macros_def
      expand_defs)

lemma core_methods_declared:
  "mset (map (expand core_macros) core_methods) = mset (map prototype_of core_header)"
  by (rule mset_permuted [where \<pi> = "[39, 40, 41, 42, 13, 14, 15, 16, 17, 0, 18, 5, 6, 2, 4, 7, 8, 9, 10, 11, 12, 1, 31, 32, 33, 34, 35, 3, 36, 37, 38, 26, 27, 28, 29, 30, 19, 20, 43, 44, 45, 46, 47, 48, 49, 50, 51, 52, 53, 54, 55, 56, 57, 21, 24, 22, 23, 25]"])
    (simp_all add: core_methods_def core_impls_methods_def core_clientinfo_methods_def
      core_connection_methods_def core_custom_methods_def core_debug_methods_def core_filetransfer_methods_def
      core_friendlist_methods_def core_interaction_methods_def core_lifecycle_methods_def core_macros_def
      core_header_def core_header_1_def core_header_2_def core_header_3_def core_header_4_def expand_defs)

lemmas header_defs = core_header_def core_header_1_def core_header_2_def core_header_3_def core_header_4_def
  av_header_def crypto_header_def

lemma header_symbols:
  "map decl_symbol core_header = map (\<lambda>d. ''Java_im_tox_tox4j_impl_jni_ToxCoreJni_'' @ decl_method d) core_header"
  "map decl_symbol av_header = map (\<lambda>d. ''Java_im_tox_tox4j_impl_jni_ToxAvJni_'' @ decl_method d) av_header"
  "map decl_symbol crypto_header = map (\<lambda>d. ''Java_im_tox_tox4j_impl_jni_ToxCryptoJni_'' @ decl_method d) crypto_header"
  by (simp_all add: header_defs)

lemma header_methods_distinct:
  "distinct (map decl_method core_header)" "distinct (map decl_method av_header)"
  "distinct (map decl_method crypto_header)"
  by (simp_all add: header_defs)

lemma distinct_prefixed: "distinct (map f xs) \<Longrightarrow> distinct (map (\<lambda>x. p @ f x) xs)"
  by (auto simp: distinct_map inj_on_def)

lemma header_symbols_distinct: "distinct (map decl_symbol (core_header @ av_header @ crypto_header))"
  unfolding map_append header_symbols distinct_append
  by (intro conjI distinct_prefixed header_methods_distinct) auto

lemma header_symbols_exported: "list_all exported (map decl_symbol (core_header @ av_header @ crypto_header))"
  unfolding map_append header_symbols
  by (auto simp: list_all_iff exported_def ld_global_def ld_matches_def)

text \<open>
  C14. The native methods link: each generated header is what \<open>javah\<close> makes of the Java class, and the
  methods defined in the C++ files are exactly the declared ones, once each, with the same
  symbols, parameter types and result types. All symbols are different, and the linker
  script exports every one of them.
\<close>

theorem natives_link:
  "map (javah ''im/tox/tox4j/impl/jni/ToxCoreJni'') java_core_natives = core_header \<and>
   map (javah ''im/tox/tox4j/impl/jni/ToxAvJni'') java_av_natives = av_header \<and>
   map (javah ''im/tox/tox4j/impl/jni/ToxCryptoJni'') java_crypto_natives = crypto_header \<and>
   mset (map (expand core_macros) core_methods) = mset (map prototype_of core_header) \<and>
   mset (map (expand av_macros) av_methods) = mset (map prototype_of av_header) \<and>
   mset (map (expand crypto_macros) crypto_methods) = mset (map prototype_of crypto_header) \<and>
   distinct (map decl_symbol (core_header @ av_header @ crypto_header)) \<and>
   list_all exported (map decl_symbol (core_header @ av_header @ crypto_header))"
  using core_header_generated av_header_generated crypto_header_generated core_methods_declared
    av_methods_declared crypto_methods_declared header_symbols_distinct header_symbols_exported by blast

section \<open>References\<close>

text \<open>
  The naming convention: the toxcore function of a Java method, and the methods that have one
  (not those that invoke a callback for testing or belong to the log).
\<close>

definition snake_char :: "char \<Rightarrow> string" where
  "snake_char c =
     (let n = of_char c :: nat in if 65 \<le> n \<and> n \<le> 90 then [CHR ''_'', char_of (n + 32)] else [c])"

definition snake_case :: "string \<Rightarrow> string" where
  "snake_case s = concat (map snake_char s)"

definition public_native :: "java_native \<Rightarrow> bool" where
  "public_native n \<longleftrightarrow> prefix ''tox'' (native_name n) \<and> \<not> prefix ''tox4j'' (native_name n)"

lemma snake_letters:
  "map snake_char ''ABCDEFGHIJKLMNOPQRSTUVWXYZ'' =
   [''_a'', ''_b'', ''_c'', ''_d'', ''_e'', ''_f'', ''_g'', ''_h'', ''_i'', ''_j'', ''_k'', ''_l'', ''_m'',
    ''_n'', ''_o'', ''_p'', ''_q'', ''_r'', ''_s'', ''_t'', ''_u'', ''_v'', ''_w'', ''_x'', ''_y'', ''_z'']"
  "map snake_char ''abcdefghijklmnopqrstuvwxyz'' = map (\<lambda>c. [c]) ''abcdefghijklmnopqrstuvwxyz''"
  by code_simp+

lemma refs_in_snake_case:
  "list_all (\<lambda>(java, cxx). cxx = snake_case java) core_refs"
  "list_all (\<lambda>(java, cxx). cxx = snake_case java) av_refs"
  "list_all (\<lambda>(java, cxx). cxx = snake_case java) crypto_refs"
  by (simp_all add: core_refs_def av_refs_def crypto_refs_def snake_case_def snake_letters [simplified])

lemma refs_are_natives:
  "mset (map fst core_refs) = mset (map native_name (filter public_native java_core_natives))"
  "mset (map fst av_refs) = mset (map native_name (filter public_native java_av_natives))"
  "mset (map fst crypto_refs) = mset (map native_name (filter public_native java_crypto_natives))"
proof -
  show "mset (map fst core_refs) = mset (map native_name (filter public_native java_core_natives))"
    by (rule mset_permuted [where \<pi> = "[21, 20, 7, 17, 1, 0, 32, 31, 23, 19, 18, 27, 28, 34, 26, 22, 33, 25, 36, 30, 35, 29, 8, 9, 11, 10, 13, 12, 24, 37, 16, 2, 4, 5, 6, 3, 15, 14]"])
      (simp_all add: core_refs_def java_core_natives_def public_native_def)
  show "mset (map fst av_refs) = mset (map native_name (filter public_native java_av_natives))"
    by (rule mset_permuted [where \<pi> = "[9, 8, 5, 7, 6, 3, 0, 4, 2, 11, 1, 10]"])
      (simp_all add: av_refs_def java_av_natives_def public_native_def)
  show "mset (map fst crypto_refs) = mset (map native_name (filter public_native java_crypto_natives))"
    by (rule mset_permuted [where \<pi> = "[6, 0, 2, 5, 4, 3, 1]"])
      (simp_all add: crypto_refs_def java_crypto_natives_def public_native_def)
qed

lemma compiles_mention: "compiles names (mention m refs) \<longleftrightarrow>
  JAVA_METHOD_NAME m ` set (map fst refs) \<subseteq> names \<and> set (map snd refs) \<subseteq> names"
  by (induction refs) (auto simp: mention_def)

lemma methods_declared:
  assumes "mset (map fst refs) = mset (map native_name (filter public_native natives))"
    and "map (javah cls) natives = header"
    and "map decl_symbol header = map (\<lambda>d. JAVA_METHOD_NAME m (decl_method d)) header"
  shows "JAVA_METHOD_NAME m ` set (map fst refs) \<subseteq> set (map decl_symbol header)"
proof -
  have "set (map fst refs) \<subseteq> set (map native_name natives)"
    using mset_eq_setD [OF assms(1)] by auto
  also have "\<dots> = set (map decl_method header)"
    unfolding assms(2) [symmetric] by (simp add: javah_def)
  finally show ?thesis unfolding assms(3) by auto
qed

lemma header_method_names:
  "map decl_symbol core_header = map (\<lambda>d. JAVA_METHOD_NAME core_macros (decl_method d)) core_header"
  "map decl_symbol av_header = map (\<lambda>d. JAVA_METHOD_NAME av_macros (decl_method d)) av_header"
  "map decl_symbol crypto_header = map (\<lambda>d. JAVA_METHOD_NAME crypto_macros (decl_method d)) crypto_header"
  by (simp_all only: header_symbols) (simp_all add: JAVA_METHOD_NAME_def PP_CAT_def core_macros_def av_macros_def
      crypto_macros_def)

text \<open>
  The names that a translation unit knows: its methods, the checks of its constants, and what
  the headers of toxcore declare.
\<close>

definition known_names :: "string set \<Rightarrow> jni_decl list \<Rightarrow> string list \<Rightarrow> string set" where
  "known_names toxcore header checks = set (map decl_symbol header) \<union> set checks \<union> toxcore"

lemma finalize_not_method:
  "''tox_finalize'' \<notin> set (map decl_symbol core_header)" "''toxav_finalize'' \<notin> set (map decl_symbol av_header)"
  unfolding header_method_names
  by (auto simp: JAVA_METHOD_NAME_def PP_CAT_def core_macros_def av_macros_def)

lemma finalize_mentioned: "''tox_finalize'' \<in> set (map snd core_refs)" "''toxav_finalize'' \<in> set (map snd av_refs)"
  by (simp_all add: core_refs_def av_refs_def)

lemma names_without_finalize:
  "''toxav_finalize'' \<notin> set (map snd core_refs)" "''tox_finalize'' \<notin> set (map snd av_refs)"
  "''tox_finalize'' \<notin> set (map snd crypto_refs)" "''toxav_finalize'' \<notin> set (map snd crypto_refs)"
  by (simp_all add: core_refs_def av_refs_def crypto_refs_def)

lemma check_known: "c \<in> known_names toxcore header [c]"
  by (simp add: known_names_def)

lemma mention_known:
  assumes "JAVA_METHOD_NAME m ` set (map fst refs) \<subseteq> set (map decl_symbol header)"
  shows "set (map snd refs) \<subseteq> insert x toxcore \<Longrightarrow>
      compiles (insert x (known_names toxcore header checks)) (mention m refs)"
    and "set (map snd refs) \<subseteq> toxcore \<Longrightarrow> compiles (known_names toxcore header checks) (mention m refs)"
  using assms unfolding compiles_mention known_names_def by blast+

text \<open>
  C36. The tables of \<open>generated/natives.h\<close> are complete: they list exactly the native methods that are
  not internal, each once, with its name in snake case. When the headers of toxcore declare these
  names but for \<open>tox_finalize\<close> and \<open>toxav_finalize\<close>, which stand for no function of toxcore, every name
  that \<open>reference_symbols_*\<close> mentions has been declared. Without their local variables, the first two
  would not compile.
\<close>

theorem natives_are_referenced:
  assumes toxcore: "set (map snd (core_refs @ av_refs @ crypto_refs)) - {''tox_finalize'', ''toxav_finalize''} \<subseteq> toxcore"
    and java_only: "''tox_finalize'' \<notin> toxcore" "''toxav_finalize'' \<notin> toxcore"
  shows "mset (map fst core_refs) = mset (map native_name (filter public_native java_core_natives)) \<and>
   mset (map fst av_refs) = mset (map native_name (filter public_native java_av_natives)) \<and>
   mset (map fst crypto_refs) = mset (map native_name (filter public_native java_crypto_natives)) \<and>
   list_all (\<lambda>(java, cxx). cxx = snake_case java) (core_refs @ av_refs @ crypto_refs) \<and>
   compiles (known_names toxcore core_header [''checkToxCoreConstants'']) reference_symbols_core \<and>
   compiles (known_names toxcore av_header []) reference_symbols_av \<and>
   compiles (known_names toxcore crypto_header [''checkToxCryptoConstants'']) reference_symbols_crypto \<and>
   \<not> compiles (known_names toxcore core_header [''checkToxCoreConstants'']) (tl reference_symbols_core) \<and>
   \<not> compiles (known_names toxcore av_header []) (tl reference_symbols_av)"
proof (intro conjI)
  note methods = methods_declared [OF refs_are_natives(1) core_header_generated header_method_names(1)]
    methods_declared [OF refs_are_natives(2) av_header_generated header_method_names(2)]
    methods_declared [OF refs_are_natives(3) crypto_header_generated header_method_names(3)]
  have cxx: "set (map snd core_refs) \<subseteq> insert ''tox_finalize'' toxcore"
      "set (map snd av_refs) \<subseteq> insert ''toxav_finalize'' toxcore" "set (map snd crypto_refs) \<subseteq> toxcore"
    using toxcore names_without_finalize unfolding map_append set_append by blast+
  show "compiles (known_names toxcore core_header [''checkToxCoreConstants'']) reference_symbols_core"
    "compiles (known_names toxcore av_header []) reference_symbols_av"
    "compiles (known_names toxcore crypto_header [''checkToxCryptoConstants'']) reference_symbols_crypto"
    unfolding reference_symbols_core_def reference_symbols_av_def reference_symbols_crypto_def compiles.simps
    using mention_known(1) [OF methods(1) cxx(1)] mention_known(1) [OF methods(2) cxx(2)]
      mention_known(2) [OF methods(3) cxx(3)]
    by (simp_all add: check_known)
  have "''tox_finalize'' \<noteq> ''checkToxCoreConstants''" by simp
  with java_only finalize_not_method
  have unknown: "''tox_finalize'' \<notin> known_names toxcore core_header [''checkToxCoreConstants'']"
    "''toxav_finalize'' \<notin> known_names toxcore av_header []"
    unfolding known_names_def list.set by blast+
  show "\<not> compiles (known_names toxcore core_header [''checkToxCoreConstants'']) (tl reference_symbols_core)"
    "\<not> compiles (known_names toxcore av_header []) (tl reference_symbols_av)"
    using unknown finalize_mentioned
    unfolding reference_symbols_core_def reference_symbols_av_def list.sel compiles.simps compiles_mention
    by blast+
qed (use refs_are_natives refs_in_snake_case in simp_all)

text \<open>Headers that declare just these names.\<close>

definition sample_toxcore :: "string set" where
  "sample_toxcore = set (map snd (core_refs @ av_refs @ crypto_refs)) - {''tox_finalize'', ''toxav_finalize''}"

theorem natives_are_referenced_witness:
  "compiles (known_names sample_toxcore core_header [''checkToxCoreConstants'']) reference_symbols_core \<and>
   \<not> compiles (known_names sample_toxcore core_header [''checkToxCoreConstants'']) (tl reference_symbols_core)"
  using natives_are_referenced [of sample_toxcore] unfolding sample_toxcore_def by blast

end
