(* ===== verification/Constants.thy ===== *)
theory Constants
  imports Core_Api Crypto_Api
begin

text \<open>
  The constants that Java and C share: the \<open>static_assert\<close>s of \<open>ToxCore/generated/constants.h\<close> and
  \<open>ToxCrypto/generated/constants.h\<close>, which compare the numbers of the Java side with the macros of
  toxcore and libsodium (a parameter, by name) and with the defaults of \<open>ToxCore.cpp\<close>.
\<close>

definition TOX_DEFAULT_PROXY_PORT :: nat where
  "TOX_DEFAULT_PROXY_PORT = 8080"

definition TOX_DEFAULT_TCP_PORT :: nat where
  "TOX_DEFAULT_TCP_PORT = 0"

definition TOX_DEFAULT_START_PORT :: nat where
  "TOX_DEFAULT_START_PORT = 33445"

definition TOX_DEFAULT_END_PORT :: nat where
  "TOX_DEFAULT_END_PORT = TOX_DEFAULT_START_PORT + 100"

definition checkToxCoreConstants :: "(string \<Rightarrow> nat) \<Rightarrow> bool" where
  "checkToxCoreConstants lib \<longleftrightarrow>
     lib ''TOX_ADDRESS_SIZE'' = 38 \<and>
     TOX_DEFAULT_END_PORT = 33545 \<and>
     TOX_DEFAULT_PROXY_PORT = 8080 \<and>
     TOX_DEFAULT_START_PORT = 33445 \<and>
     TOX_DEFAULT_TCP_PORT = 0 \<and>
     lib ''TOX_FILE_ID_LENGTH'' = 32 \<and>
     lib ''TOX_MAX_CUSTOM_PACKET_SIZE'' = 1373 \<and>
     lib ''TOX_MAX_FILENAME_LENGTH'' = 255 \<and>
     lib ''TOX_MAX_FRIEND_REQUEST_LENGTH'' = 1016 \<and>
     lib ''TOX_MAX_HOSTNAME_LENGTH'' = 255 \<and>
     lib ''TOX_MAX_MESSAGE_LENGTH'' = 1372 \<and>
     lib ''TOX_MAX_NAME_LENGTH'' = 128 \<and>
     lib ''TOX_MAX_STATUS_MESSAGE_LENGTH'' = 1007 \<and>
     lib ''TOX_PUBLIC_KEY_SIZE'' = 32 \<and>
     lib ''TOX_SECRET_KEY_SIZE'' = 32"

text \<open>The names that \<open>ToxCrypto.cpp\<close> gives to constants of toxcore and libsodium.\<close>

definition pass_constant :: "(string \<Rightarrow> nat) \<Rightarrow> string \<Rightarrow> nat" where
  "pass_constant lib name =
    (case map_of
       [(''TOX_PASS_HASH_LENGTH'', ''TOX_HASH_LENGTH''),
        (''TOX_PASS_PUBLIC_KEY_LENGTH'', ''crypto_box_PUBLICKEYBYTES''),
        (''TOX_PASS_SECRET_KEY_LENGTH'', ''crypto_box_SECRETKEYBYTES''),
        (''TOX_PASS_SHARED_KEY_LENGTH'', ''crypto_box_BEFORENMBYTES''),
        (''TOX_PASS_NONCE_LENGTH'', ''crypto_box_NONCEBYTES''),
        (''TOX_PASS_ZERO_BYTES'', ''crypto_box_ZEROBYTES''),
        (''TOX_PASS_BOX_ZERO_BYTES'', ''crypto_box_BOXZEROBYTES'')] name of
       Some macro \<Rightarrow> lib macro
     | None \<Rightarrow> lib name)"

definition checkToxCryptoConstants :: "(string \<Rightarrow> nat) \<Rightarrow> bool" where
  "checkToxCryptoConstants lib \<longleftrightarrow>
     pass_constant lib ''TOX_PASS_BOX_ZERO_BYTES'' = 16 \<and>
     pass_constant lib ''TOX_PASS_ENCRYPTION_EXTRA_LENGTH'' = 80 \<and>
     pass_constant lib ''TOX_PASS_HASH_LENGTH'' = 32 \<and>
     pass_constant lib ''TOX_PASS_KEY_LENGTH'' = 32 \<and>
     pass_constant lib ''TOX_PASS_NONCE_LENGTH'' = 24 \<and>
     pass_constant lib ''TOX_PASS_PUBLIC_KEY_LENGTH'' = 32 \<and>
     pass_constant lib ''TOX_PASS_SALT_LENGTH'' = 32 \<and>
     pass_constant lib ''TOX_PASS_SECRET_KEY_LENGTH'' = 32 \<and>
     pass_constant lib ''TOX_PASS_SHARED_KEY_LENGTH'' = 32 \<and>
     pass_constant lib ''TOX_PASS_ZERO_BYTES'' = 32"

text \<open>
  A library that compiles has the sizes that the other theories use for the buffers they pass
  to toxcore.
\<close>

lemma buffer_sizes_in_sync:
  assumes "checkToxCoreConstants lib" and "checkToxCryptoConstants lib"
  shows "TOX_ADDRESS_SIZE = lib ''TOX_ADDRESS_SIZE''" and "TOX_FILE_ID_LENGTH = lib ''TOX_FILE_ID_LENGTH''"
    and "TOX_PUBLIC_KEY_SIZE = lib ''TOX_PUBLIC_KEY_SIZE''" and "TOX_SECRET_KEY_SIZE = lib ''TOX_SECRET_KEY_SIZE''"
    and "TOX_PASS_SALT_LENGTH = lib ''TOX_PASS_SALT_LENGTH''" and "TOX_PASS_KEY_LENGTH = lib ''TOX_PASS_KEY_LENGTH''"
    and "TOX_PASS_ENCRYPTION_EXTRA_LENGTH = lib ''TOX_PASS_ENCRYPTION_EXTRA_LENGTH''"
    and "TOX_HASH_LENGTH = lib ''TOX_HASH_LENGTH''"
  using assms
  by (simp_all add: checkToxCoreConstants_def checkToxCryptoConstants_def pass_constant_def
      TOX_ADDRESS_SIZE_def TOX_FILE_ID_LENGTH_def TOX_PUBLIC_KEY_SIZE_def TOX_SECRET_KEY_SIZE_def
      TOX_PASS_SALT_LENGTH_def TOX_PASS_KEY_LENGTH_def TOX_PASS_ENCRYPTION_EXTRA_LENGTH_def TOX_HASH_LENGTH_def)

lemma default_ports_valid:
  "TOX_DEFAULT_START_PORT \<le> TOX_DEFAULT_END_PORT" "TOX_DEFAULT_END_PORT < 2 ^ 16"
  "TOX_DEFAULT_PROXY_PORT < 2 ^ 16" "TOX_DEFAULT_TCP_PORT < 2 ^ 16"
  by (simp_all add: TOX_DEFAULT_START_PORT_def TOX_DEFAULT_END_PORT_def TOX_DEFAULT_PROXY_PORT_def
      TOX_DEFAULT_TCP_PORT_def)

end
