(* ===== verification/Spec2Isabelle.thy ===== *)
theory Spec2Isabelle
  imports Log_Locking Log_Sequences Java_Buffers Template_Types Interleavings Data_Properties Av_Properties Registry_Properties Jni_Definitions Constants
begin

text \<open>
  A verification development for the native part of Tox4j: the C++ code under
  \<open>src/src/main/cpp\<close> that lets Java programs use toxcore through JNI.

  \<^bold>\<open>The program.\<close> Java sees an instance of Tox or ToxAV as a number. Two instance managers
  (\<open>util/instance_manager.h\<close>, one for each kind) map numbers to the native object and to a
  queue of events. A native method converts its arguments from Java, locks the instance,
  opens an entry of the debug log, calls one toxcore function, translates its error code to a
  Java exception and converts the result (\<open>tox4j/ToxInstances.h\<close>). During \<open>iterate\<close> toxcore
  calls back into the library, and the callbacks append events to the queue, which \<open>iterate\<close>
  returns to Java as a protobuf message.

  \<^bold>\<open>Computations.\<close> \<open>Prelude\<close> has the programs that everything else is written in: functions from a
  state to an outcome, which is a result and a new state, or one of three failures: a fatal
  error (\<open>tox4j_fatal_error\<close> and \<open>tox4j_assert\<close>, which end the process), a failed C assertion, or
  undefined behaviour. So that a method neither fails nor runs for ever is a statement
  about its outcome, and every loop of the code is a structural recursion.

  \<^bold>\<open>State.\<close> The state grows in three records, each extending the one before: \<open>jenv\<close> of
  \<open>Exceptions\<close> (the virtual machine and the pending exception), \<open>logenv\<close> of \<open>Debug_Log\<close> (the log, the
  table of function names, the ids given to pointers, the clock), and \<open>world\<close> of \<open>World\<close> (the two
  managers). A JNI function called with an exception pending is undefined behaviour.

  \<^bold>\<open>Theories and the code they model.\<close>
  \<^item> \<open>Exceptions\<close>: \<open>util/exceptions.{h,cpp}\<close>. Classes and constructors of the virtual machine are a
    parameter.
  \<^item> \<open>Instance_Manager\<close>: \<open>util/instance_manager.h\<close>, each member function run to its end; a lens says where
    a manager lives in the state. \<open>Instance_Runs\<close> adds sequences of operations. \<open>Instance_Locking\<close> has
    the same functions as steps of any number of threads that take and release the manager
    mutex and the instance mutexes one at a time. \<open>Log_Locking\<close> adds the mutex of the debug log.
    \<open>Interleavings\<close> relates the steps of the threads to the sequential functions.
  \<^item> \<open>Java_Arrays\<close>: \<open>util/jni/{ArrayFromJava,ArrayToJava,UTFChars}.h\<close> and \<open>util/to_bytes.h\<close>. There an
    array is its elements and a request for them succeeds; \<open>Java_Buffers\<close> has the same classes as
    objects that get a buffer and give it back. \<open>Template_Types\<close> has what their templates and those of
    \<open>tox/common.h\<close> compute about types.
  \<^item> \<open>Enums\<close>: \<open>ToxCore/generated/enums.cpp\<close>, \<open>ToxAv/generated/enums.cpp\<close>. A C enumeration has one more
    constructor for the values that are not enumerators.
  \<^item> \<open>Error_Codes\<close>, \<open>Core_Errors\<close>, \<open>Av_Errors\<close>, \<open>Crypto_Errors\<close>: \<open>generated/errors.cpp\<close> of the three parts and the
    exceptions thrown for the codes (\<open>ToxCore.cpp\<close>, \<open>ToxAv.cpp\<close>, \<open>ToxCrypto.cpp\<close>).
  \<^item> \<open>Debug_Log\<close>: \<open>util/debug_log.{h,cpp}\<close> and the \<open>debug.cpp\<close> files. Entries are referred to by pointers,
    and an access through a pointer whose entry is gone is undefined behaviour. \<open>Log_Facts\<close> has
    the lemmas. \<open>Log_Threads\<close> has the same operations as steps of threads that share the log,
    \<open>Log_Sequences\<close> relates the two.
  \<^item> \<open>Callbacks\<close>: \<open>tox/common.h\<close>, \<open>tox/core.h\<close>, \<open>tox/av.h\<close>. \<open>Core_Events\<close> and \<open>Av_Events\<close>: the callbacks of
    \<open>ToxCore/lifecycle.cpp\<close> and \<open>ToxAv/lifecycle.cpp\<close> and the queues of \<open>Core.proto\<close> and \<open>Av.proto\<close>.
  \<^item> \<open>Tox_Instances\<close>: \<open>tox4j/ToxInstances.h\<close>. \<open>World\<close>: the managers \<open>core::instances\<close> and \<open>av::instances\<close>.
    \<open>Native_Calls\<close>: \<open>get_vector\<close> and \<open>constant_size\<close> of \<open>ToxCore/ToxCore.h\<close>.
  \<^item> \<open>Core_Api\<close>, \<open>Av_Api\<close>, \<open>Crypto_Api\<close>: all native methods of \<open>ToxCoreJni\<close> (\<open>ToxCore/*.cpp\<close>,
    \<open>ToxCore/generated/impls.h\<close>), \<open>ToxAvJni\<close> (\<open>ToxAv/*.cpp\<close>) and \<open>ToxCryptoJni\<close> (\<open>ToxCrypto/*.cpp\<close>). The toxcore
    functions that a method calls are its first arguments: an address, which the log shows,
    and an arbitrary function. A function that gets a pointer without a length may also answer
    that it accessed memory outside of the array (\<open>call_c\<close> in \<open>Native_Calls\<close>): how far it reads is not
    decided by the model, but stated as a hypothesis where a property needs it.
  \<^item> \<open>Jni_Declarations\<close>: the headers that \<open>javah\<close> generated, \<open>generated/im_tox_tox4j_impl_jni_*Jni.h\<close>, and the
    \<open>native\<close> methods of the three Java classes they were generated from. \<open>Jni_Definitions\<close>: the heads of the
    methods in the C++ files, the macros of \<open>tox4j/Tox4j.h\<close>, the functions \<open>reference_symbols_*\<close> and the
    linker script \<open>libtox4j-c.ld\<close>. \<open>Constants\<close>: \<open>generated/constants.h\<close>.
  \<^item> \<open>Static_Init\<close>: the tables of \<open>generated/natives.h\<close>, the static registrations and \<open>Tox4j.cpp\<close>. \<open>Logging\<close>: \<open>util/logging.{h,cpp}\<close>.

  \<^bold>\<open>Interfaces.\<close> The contracts between the parts are locales, interpreted on the definitions
  above: \<open>manager_lens\<close> (a manager inside a larger state), \<open>world_lens\<close> (a manager beside the log) and
  \<open>tox_instances\<close> (calls on the instances of a class), for both managers in \<open>World\<close>; \<open>enum_codec\<close> for the
  enumerations, \<open>error_codes\<close> for the 26 error enumerations, and the encoders of \<open>Java_Arrays\<close>.

  \<^bold>\<open>What is proved.\<close>
  \<^item> \<open>Native_Safety\<close>, \<open>Safe_Calls\<close>, \<open>Safe_Managers\<close>, \<open>Safe_Creation\<close>, \<open>Safe_Methods\<close>, \<open>Jni_Methods\<close>, \<open>Av_Frames\<close> and
    \<open>Native_Runs\<close>: the invariant \<open>world_ok\<close> of the library, and that every native method with
    arguments that satisfy its preconditions, whatever the toxcore functions return, comes back
    to Java with it kept. \<open>jni_method\<close> of \<open>Native_Runs\<close> lists all methods with what their arguments must
    satisfy and how far the toxcore functions behind them may read and write; where the code
    relies on its caller, this is visible there. What \<open>toxIterate\<close>, \<open>toxavIterate\<close> and \<open>tox4jLastLog\<close>
    serialise must fit in a Java array, which is a condition on the states of a run (\<open>calls_fit\<close>).
  \<^item> \<open>Instance_Properties\<close> and \<open>Instance_Locking\<close>: the manager refines a table of slots (unused, live,
    killed, finalized); numbers are fresh; no object is lost or deleted twice; calls on an
    instance exclude each other and no object dies under a call; the mutexes of the manager
    do not deadlock; a call that waits for a busy instance blocks all others. \<open>Log_Locking\<close>: with
    the mutex of the log three threads can deadlock. \<open>Log_Threads\<close>: no interleaving makes an entry
    of the log dangle or an assertion of the log fail. \<open>Log_Sequences\<close>: every interleaving is a run of
    one thread, and what the sequential functions log is such a run. \<open>Interleavings\<close>: the number
    of steps of a run is bounded by the calls in it and by the changes that the functions of
    toxcore make inside an access, so that no call goes on for ever unless its function does;
    and every interleaving has the effect of the completed operations one after the other, with
    the same exceptions.
  \<^item> \<open>Call_Properties\<close>: sequences of calls from the loading of the library on; what \<open>toxNew\<close>,
    \<open>toxIterate\<close>, \<open>toxFriendDelete\<close> and \<open>toxFriendSendMessage\<close> do, with their log entries and exceptions.
  \<^item> \<open>Av_Properties\<close>: what \<open>toxavNew\<close> and \<open>toxavIterate\<close> do; a ToxAV survives the \<open>toxKill\<close> of its Tox.
  \<^item> \<open>Jni_Definitions\<close>: the headers are what \<open>javah\<close> makes of the Java classes, and exactly the declared
    methods are defined, with the declared types, and exported; the tables of natives are complete.
  \<^item> \<open>Argument_Properties\<close>: arguments that are refused; arguments that are not checked, three of which
    lead to undefined behaviour in this library, and two to a call of toxcore or toxav with
    arrays smaller than they announce.
  \<^item> \<open>Data_Properties\<close>: round trips of enumerators, audio samples, call states and pass keys; bounds
    of what is logged. \<open>Java_Buffers\<close>: all buffers are given back. \<open>Registry_Properties\<close>: names of functions in the log.

  \<^bold>\<open>Assumptions of the model.\<close> Assertions are compiled in (no \<open>NDEBUG\<close>). Memory never runs
  out, except where the code checks for it (\<open>tox_options_new\<close>) and in \<open>Java_Buffers\<close>. An array or string that Java passes is
  read as it is on entry. Numbers of instances are bounded by \<open>2\<^sup>3\<^sup>1\<close>, where \<open>add\<close> would wrap
  around. In the sequential theories a mutex that is already held would be locked twice by
  the same thread, and is undefined behaviour. During \<open>tox_iterate\<close> only the callbacks registered on
  the Tox object are made; callbacks of a ToxAV that toxcore makes already then are left out.

  \<^bold>\<open>Not modelled.\<close> The functions of toxcore, toxav, toxencryptsave and the serialisers that
  protobuf generates are parameters, with their documented behaviour as hypotheses where a
  property needs it. Template plumbing without behaviour at run time (\<open>util/wrap_void.h\<close>,
  \<open>cpp14compat.h\<close>), the inside of glog streams and \<open>JNI_OnUnload\<close> have no counterpart. \<open>Log_Locking\<close> has one manager and one log entry per call.
  In \<open>Log_Threads\<close> a read or write of the size limit or of the table of function names is one step: that
  these are data races in the sense of C++ is not modelled. Which allocator frees a pass key is not
  modelled. Of the Java and Kotlin side only the native declarations are modelled, and the
  conversions of \<open>ToxAvProtoConverter.kt\<close> and \<open>ToxAvEventDispatch.kt\<close> for call states and audio samples,
  which state the other end of round trips.
\<close>

end
